theory Spec2Isabelle
  imports Complex_Main "HOL-Library.Product_Lexorder" "HOL-Library.Log_Nat"
begin

section \<open>Python values\<close>

text \<open>
  A Python \<^verbatim>\<open>str\<close> is a sequence of Unicode code points and \<^verbatim>\<open>len\<close> counts
  code points, so a string that may hold a character beyond ASCII (the em dash of the
  header lines) is a list of code points.
\<close>

type_synonym pystr = "nat list"

definition cp :: "string \<Rightarrow> pystr" where
  "cp s = map of_char s"

definition EM_DASH :: nat where
  "EM_DASH = 8212"

definition HYPHEN :: nat where
  "HYPHEN = 45"

definition DOT :: nat where
  "DOT = 46"

definition SPACE :: nat where
  "SPACE = 32"

definition len :: "'a list \<Rightarrow> int" where
  "len s = int (length s)"

text \<open>\<^verbatim>\<open>s.startswith(c)\<close> for a one-character string \<^verbatim>\<open>c\<close>.\<close>

definition startswith :: "pystr \<Rightarrow> nat \<Rightarrow> bool" where
  "startswith s c = (case s of [] \<Rightarrow> False | x # _ \<Rightarrow> x = c)"

text \<open>\<^verbatim>\<open>c * n\<close>: the empty string when \<^verbatim>\<open>n\<close> is negative.\<close>

definition str_mul :: "nat \<Rightarrow> int \<Rightarrow> pystr" where
  "str_mul c n = replicate (nat n) c"

text \<open>\<^verbatim>\<open>s[:n]\<close>: a negative stop counts from the end and is clipped at 0.\<close>

definition slice_to :: "'a list \<Rightarrow> int \<Rightarrow> 'a list" where
  "slice_to s n = (if n < 0 then take (nat (len s + n)) s else take (nat n) s)"

section \<open>The fixed-width formatter (generator.py)\<close>

text \<open>
  \<^verbatim>\<open>GitHubProfileGenerator.format_line(key, value, total_width=68, separator=":")\<close>.
\<close>

definition format_line :: "pystr \<Rightarrow> pystr \<Rightarrow> int \<Rightarrow> pystr \<Rightarrow> pystr" where
  "format_line key val total_width separator =
     (if startswith key EM_DASH \<or> startswith key HYPHEN
      then key @ str_mul EM_DASH (total_width - len key)
      else
        let key_part = [DOT, SPACE] @ key @ separator;
            value_part = [SPACE] @ val;
            dots_needed = total_width - len key_part - len value_part
        in if dots_needed < 1
           then
             let available_for_value = total_width - len key_part - 1;
                 value_part' = [SPACE] @ slice_to val (available_for_value - 3) @ [DOT, DOT, DOT];
                 dots_needed' = 1
             in key_part @ str_mul DOT dots_needed' @ value_part'
           else key_part @ str_mul DOT dots_needed @ value_part)"

text \<open>
  \<^verbatim>\<open>format_styled_line(key, value, special_styling=None)\<close> returns SVG markup. The
  markup is kept as a list of spans, so that the text a viewer sees is the concatenation
  of the spans' contents: a \<open>Plain\<close> span is literal text, a \<open>Tspan\<close> carries its
  class attribute. A styling function of \<^verbatim>\<open>special_styling\<close> returns spans of its own.
\<close>

datatype span = Plain pystr | Tspan string pystr

fun span_text :: "span \<Rightarrow> pystr" where
  "span_text (Plain s) = s"
| "span_text (Tspan c s) = s"

definition rendered :: "span list \<Rightarrow> pystr" where
  "rendered ss = concat (map span_text ss)"

definition format_styled_line ::
  "pystr \<Rightarrow> pystr \<Rightarrow> (pystr \<rightharpoonup> (pystr \<Rightarrow> span list)) option \<Rightarrow> span list" where
  "format_styled_line key val special_styling =
     (if startswith key EM_DASH \<or> startswith key HYPHEN
      then [Tspan ''separator'' (key @ str_mul EM_DASH (68 - len key))]
      else
        let key_part = [DOT, SPACE] @ key @ cp '':'';
            value_part = [SPACE] @ val;
            dots_needed = 68 - len key_part - len value_part;
            (value_part', dots_needed') =
              (if dots_needed < 1
               then
                 let available_for_value = 68 - len key_part - 1
                 in ([SPACE] @ slice_to val (available_for_value - 3) @ [DOT, DOT, DOT], 1)
               else (value_part, dots_needed));
            dots = str_mul DOT dots_needed';
            styled_value =
              (case special_styling of
                 None \<Rightarrow> [Tspan ''value'' val]
               | Some sty \<Rightarrow>
                   (case sty key of
                      Some f \<Rightarrow> f val
                    | None \<Rightarrow> [Tspan ''value'' val]))
        in [Plain [DOT, SPACE], Tspan ''key'' key, Plain ([58, SPACE] @ dots)] @ styled_value)"

section \<open>Year ranges of a time window (generator\_prev.py)\<close>

text \<open>
  \<^verbatim>\<open>GitHubLanguageAnalyzer._generate_year_ranges(from_date, to_date)\<close> parses two ISO
  timestamps, walks the window one calendar year at a time and formats each sub-range
  back to ISO strings with second resolution. A UTC \<^verbatim>\<open>datetime\<close> of second resolution
  is modelled as the pair of its calendar year and the number of seconds elapsed since
  the start of that year; pairs are compared lexicographically, which is the
  chronological order of the valid ones. Parsing and formatting, and the bounds 1 and
  9999 of the library's years, are not modelled.
\<close>

type_synonym datetime = "int \<times> int"

definition is_leap :: "int \<Rightarrow> bool" where
  "is_leap y = (y mod 4 = 0 \<and> (y mod 100 \<noteq> 0 \<or> y mod 400 = 0))"

definition secs_in_year :: "int \<Rightarrow> int" where
  "secs_in_year y = (if is_leap y then 366 else 365) * 86400"

definition valid_datetime :: "datetime \<Rightarrow> bool" where
  "valid_datetime d = (0 \<le> snd d \<and> snd d < secs_in_year (fst d))"

text \<open>\<^verbatim>\<open>datetime(y, 12, 31, 23, 59, 59)\<close> and \<^verbatim>\<open>datetime(y, 1, 1)\<close>.\<close>

definition year_end_of :: "int \<Rightarrow> datetime" where
  "year_end_of y = (y, secs_in_year y - 1)"

definition year_start_of :: "int \<Rightarrow> datetime" where
  "year_start_of y = (y, 0)"

text \<open>
  The \<^verbatim>\<open>while current_start < end_dt\<close> loop, started at \<^verbatim>\<open>start_dt\<close>; the list
  \<^verbatim>\<open>ranges\<close> is built front to back.
\<close>

function generate_year_ranges :: "datetime \<Rightarrow> datetime \<Rightarrow> (datetime \<times> datetime) list" where
  "generate_year_ranges current_start end_dt =
     (if current_start < end_dt
      then
        let year_end = year_end_of (fst current_start);
            current_end = min year_end end_dt
        in (current_start, current_end)
             # generate_year_ranges (year_start_of (fst current_start + 1)) end_dt
      else [])"
  by pat_completeness auto
termination
  by (relation "measure (\<lambda>(c, e). nat (fst e + 1 - fst c))")
     (auto simp: year_start_of_def)

text \<open>The calendar year of the last second before \<open>e\<close>.\<close>

definition last_year :: "datetime \<Rightarrow> int" where
  "last_year e = (if snd e = 0 then fst e - 1 else fst e)"

section \<open>Errors, numbers and dictionaries\<close>

text \<open>
  Every \<^verbatim>\<open>raise\<close> of the two programs, and the exceptions of Python that the claims
  are about, as values. \<open>RequestRaised\<close> stands for an exception raised by
  \<^verbatim>\<open>requests.post\<close> or \<^verbatim>\<open>response.json()\<close> (no connection, a body that is not
  JSON), \<open>QueryFailed\<close> for a response whose status is not 200.
\<close>

datatype error =
    ZeroDivisionError
  | KeyError
  | RequestRaised
  | QueryFailed nat
  | GraphQLErrors
  | UserNotFound
  | NoUserData

definition bind_err :: "error + 'a \<Rightarrow> ('a \<Rightarrow> error + 'b) \<Rightarrow> error + 'b" where
  "bind_err m f = (case m of Inl e \<Rightarrow> Inl e | Inr x \<Rightarrow> f x)"

fun fold_err :: "('a \<Rightarrow> 's \<Rightarrow> error + 's) \<Rightarrow> 'a list \<Rightarrow> 's \<Rightarrow> error + 's" where
  "fold_err f [] s = Inr s"
| "fold_err f (x # xs) s = bind_err (f x s) (fold_err f xs)"

fun map_err :: "('a \<Rightarrow> error + 'b) \<Rightarrow> 'a list \<Rightarrow> error + 'b list" where
  "map_err f [] = Inr []"
| "map_err f (x # xs) = bind_err (f x) (\<lambda>y. bind_err (map_err f xs) (\<lambda>ys. Inr (y # ys)))"

text \<open>
  Where a \<^verbatim>\<open>float\<close> is only accumulated, compared or reported (the weighted sums of
  generator\_prev.py, the percentages of both programs) it is modelled by the exact
  rational it approximates: \<^verbatim>\<open>a / b\<close> raises when the divisor is 0, and the statements
  about those sums and percentages hold up to floating-point rounding. \<^verbatim>\<open>int(x)\<close>
  truncates towards 0.
\<close>

definition py_truediv :: "rat \<Rightarrow> rat \<Rightarrow> error + rat" where
  "py_truediv a b = (if b = 0 then Inl ZeroDivisionError else Inr (a / b))"

definition py_int :: "rat \<Rightarrow> int" where
  "py_int x = (if 0 \<le> x then \<lfloor>x\<rfloor> else \<lceil>x\<rceil>)"

text \<open>
  Where a \<^verbatim>\<open>float\<close> is truncated to an integer (the weighted commit count and the line
  estimates of generator.py) one unit of rounding changes the result, so the arithmetic
  is the one of the machine: a \<^verbatim>\<open>float\<close> is an IEEE 754 double, given here by the
  rational it denotes, and every operation returns the exact result rounded to the
  nearest double, ties to the even significand. \<open>float_exponent x\<close> is the \<open>e\<close> with
  \<open>2 ^ e \<le> |x| < 2 ^ (e + 1)\<close>, so that \<open>x\<close> is rounded to a multiple of
  \<open>2 ^ (e - 52)\<close>. Overflow, subnormal numbers and integers beyond \<open>2 ^ 53\<close> are
  out of the range of the counts and byte sizes and are not modelled.
\<close>

definition pow2 :: "int \<Rightarrow> rat" where
  "pow2 e = (if 0 \<le> e then 2 ^ nat e else 1 / 2 ^ nat (- e))"

definition round_half_even :: "rat \<Rightarrow> int" where
  "round_half_even y =
     (let f = \<lfloor>y\<rfloor>; d = y - of_int f
      in if d < 1 / 2 then f else if 1 / 2 < d then f + 1 else if even f then f else f + 1)"

definition float_exponent :: "rat \<Rightarrow> int" where
  "float_exponent x =
     (if 1 \<le> \<bar>x\<bar> then bitlen \<lfloor>\<bar>x\<bar>\<rfloor> - 1 else - bitlen (\<lceil>1 / \<bar>x\<bar>\<rceil> - 1))"

definition round_double :: "rat \<Rightarrow> rat" where
  "round_double x =
     (if x = 0 then 0
      else let u = pow2 (float_exponent x - 52) in of_int (round_half_even (x / u)) * u)"

text \<open>
  \<^verbatim>\<open>a / b\<close> of two integers (correctly rounded, raising when \<^verbatim>\<open>b\<close> is 0),
  \<^verbatim>\<open>n * x\<close> of an integer and a float, and the literals \<^verbatim>\<open>0.3\<close> and \<^verbatim>\<open>0.1\<close>.
\<close>

definition float_truediv :: "int \<Rightarrow> int \<Rightarrow> error + rat" where
  "float_truediv a b =
     (if b = 0 then Inl ZeroDivisionError else Inr (round_double (of_int a / of_int b)))"

definition float_mul :: "int \<Rightarrow> rat \<Rightarrow> rat" where
  "float_mul n x = round_double (of_int n * x)"

definition float_0_3 :: rat where
  "float_0_3 = round_double (3 / 10)"

definition float_0_1 :: rat where
  "float_0_1 = round_double (1 / 10)"

text \<open>
  A \<^verbatim>\<open>defaultdict\<close> keeps its keys in the order of first access; it is an association
  list with distinct keys. \<open>dd_get d m k\<close> reads the value of \<open>k\<close> (the default \<open>d\<close>
  when \<open>k\<close> has not been accessed), \<open>dd_upd d k f m\<close> is \<^verbatim>\<open>m[k] = f(m[k])\<close>, which
  inserts the default first when the key is new.
\<close>

definition dd_get :: "'v \<Rightarrow> ('k \<times> 'v) list \<Rightarrow> 'k \<Rightarrow> 'v" where
  "dd_get d m k = (case map_of m k of None \<Rightarrow> d | Some v \<Rightarrow> v)"

definition dd_upd :: "'v \<Rightarrow> 'k \<Rightarrow> ('v \<Rightarrow> 'v) \<Rightarrow> ('k \<times> 'v) list \<Rightarrow> ('k \<times> 'v) list" where
  "dd_upd d k f m =
     (if k \<in> set (map fst m)
      then map (\<lambda>(k', v). if k' = k then (k', f v) else (k', v)) m
      else m @ [(k, f d)])"

text \<open>
  \<^verbatim>\<open>sorted(items, key=..., reverse=True)\<close>: descending by key, and stable (items with
  equal keys keep their order), as the language defines it.
\<close>

definition sorted_reverse :: "('a \<Rightarrow> rat) \<Rightarrow> 'a list \<Rightarrow> 'a list" where
  "sorted_reverse key xs = sort_key (\<lambda>x. - key x) xs"

text \<open>\<^verbatim>\<open>c or fallback\<close> for an optional string: \<^verbatim>\<open>None\<close> and the empty string are falsy.\<close>

definition or_else :: "string option \<Rightarrow> string \<Rightarrow> string" where
  "or_else c fallback = (case c of None \<Rightarrow> fallback | Some s \<Rightarrow> if s = [] then fallback else s)"

section \<open>The aggregator of generator\_prev.py\<close>

text \<open>
  The records of the GraphQL response that \<^verbatim>\<open>analyze_languages\<close> reads. A field the
  query declares is present; \<^verbatim>\<open>primaryLanguage\<close> and a colour may be null. The
  \<^verbatim>\<open>line_stats\<close> that the fetcher attaches are read with default 0.
\<close>

record lang_edge =
  edge_name :: string
  edge_color :: "string option"
  edge_size :: int

record repository =
  nameWithOwner :: string
  primaryLanguage :: "(string \<times> string option) option"
  languages_edges :: "lang_edge list"
  languages_totalSize :: int
  isPrivate :: bool
  isFork :: bool

record contribution =
  commitCount :: int
  occurredAt :: string

record line_stats =
  ls_total_additions :: int
  ls_total_deletions :: int
  ls_net_lines :: int

record repo_contribution =
  repository :: repository
  contributions_nodes :: "contribution list"
  line_stats :: "line_stats option"

record contributions_data =
  cd_user :: "(string \<times> string option) option"
  commitContributionsByRepository :: "repo_contribution list"

record options =
  include_forks :: bool
  include_private :: bool
  min_commits :: int

text \<open>
  One entry of \<^verbatim>\<open>language_stats\<close>. The sums that receive weighted amounts are
  rationals. \<^verbatim>\<open>repositories\<close> is a set of names, of which only the size is used; the
  \<^verbatim>\<open>repo_details\<close> list, the \<^verbatim>\<open>repository_details\<close> list and the yearly breakdown
  only record what is computed here and are left out.
\<close>

record lang_stat =
  total_commits :: int
  weighted_commits :: rat
  repositories :: "string list"
  total_bytes :: int
  total_additions :: rat
  total_deletions :: rat
  net_lines :: rat
  color :: "string option"

definition default_lang_stat :: lang_stat where
  "default_lang_stat =
     \<lparr>total_commits = 0, weighted_commits = 0, repositories = [], total_bytes = 0,
      total_additions = 0, total_deletions = 0, net_lines = 0, color = None\<rparr>"

type_synonym language_stats = "(string \<times> lang_stat) list"

record analysis_state =
  st_language_stats :: language_stats
  st_total_commits :: int
  st_total_additions :: int
  st_total_deletions :: int
  st_total_repositories :: int

definition initial_state :: analysis_state where
  "initial_state =
     \<lparr>st_language_stats = [], st_total_commits = 0, st_total_additions = 0,
      st_total_deletions = 0, st_total_repositories = 0\<rparr>"

definition get_line_stats :: "repo_contribution \<Rightarrow> line_stats" where
  "get_line_stats rc =
     (case line_stats rc of
        None \<Rightarrow> \<lparr>ls_total_additions = 0, ls_total_deletions = 0, ls_net_lines = 0\<rparr>
      | Some l \<Rightarrow> l)"

text \<open>\<^verbatim>\<open>repo_commits = sum(contrib["commitCount"] for contrib in contributions_list)\<close>.\<close>

definition repo_commits_of :: "repo_contribution \<Rightarrow> int" where
  "repo_commits_of rc = sum_list (map commitCount (contributions_nodes rc))"

definition fallback_color :: "(string \<rightharpoonup> string) \<Rightarrow> string \<Rightarrow> string" where
  "fallback_color language_colors lang_name =
     (case language_colors lang_name of None \<Rightarrow> ''#858585'' | Some c \<Rightarrow> c)"

text \<open>The block under \<^verbatim>\<open># Primary language\<close>.\<close>

definition attribute_primary ::
  "(string \<rightharpoonup> string) \<Rightarrow> repo_contribution \<Rightarrow> language_stats \<Rightarrow> language_stats" where
  "attribute_primary language_colors rc stats =
     (case primaryLanguage (repository rc) of
        None \<Rightarrow> stats
      | Some (lang_name, c) \<Rightarrow>
          let lang_color = or_else c (fallback_color language_colors lang_name);
              ls = get_line_stats rc
          in dd_upd default_lang_stat lang_name
               (\<lambda>s. s\<lparr>total_commits := total_commits s + repo_commits_of rc,
                      repositories := List.insert (nameWithOwner (repository rc)) (repositories s),
                      color := Some lang_color,
                      total_additions := total_additions s + of_int (ls_total_additions ls),
                      total_deletions := total_deletions s + of_int (ls_total_deletions ls),
                      net_lines := net_lines s + of_int (ls_net_lines ls)\<rparr>)
               stats)"

text \<open>
  \<^verbatim>\<open>lang_percentage = lang_size / total_repo_size if total_repo_size > 0 else 0\<close>.
\<close>

definition lang_percentage_of :: "int \<Rightarrow> int \<Rightarrow> error + rat" where
  "lang_percentage_of lang_size total_repo_size =
     (if total_repo_size > 0 then py_truediv (of_int lang_size) (of_int total_repo_size)
      else Inr 0)"

text \<open>The body of the loop over \<^verbatim>\<open>repo["languages"]["edges"]\<close>.\<close>

definition attribute_edge ::
  "(string \<rightharpoonup> string) \<Rightarrow> repo_contribution \<Rightarrow> lang_edge \<Rightarrow> language_stats
     \<Rightarrow> error + language_stats" where
  "attribute_edge language_colors rc lang_edge stats =
     (let lang_name = edge_name lang_edge;
          lang_size = edge_size lang_edge;
          lang_color = or_else (edge_color lang_edge) (fallback_color language_colors lang_name);
          ls = get_line_stats rc
      in bind_err (lang_percentage_of lang_size (languages_totalSize (repository rc)))
           (\<lambda>lang_percentage.
              let weighted_commits' = of_int (repo_commits_of rc) * lang_percentage;
                  weighted_additions = of_int (ls_total_additions ls) * lang_percentage;
                  weighted_deletions = of_int (ls_total_deletions ls) * lang_percentage;
                  weighted_net = of_int (ls_net_lines ls) * lang_percentage
              in Inr (dd_upd default_lang_stat lang_name
                   (\<lambda>s. s\<lparr>weighted_commits := weighted_commits s + weighted_commits',
                          repositories := List.insert (nameWithOwner (repository rc)) (repositories s),
                          total_bytes := total_bytes s + lang_size,
                          total_additions := total_additions s + weighted_additions,
                          total_deletions := total_deletions s + weighted_deletions,
                          net_lines := net_lines s + weighted_net,
                          color := Some lang_color\<rparr>)
                   stats)))"

definition attribute_weighted ::
  "(string \<rightharpoonup> string) \<Rightarrow> repo_contribution \<Rightarrow> language_stats \<Rightarrow> error + language_stats" where
  "attribute_weighted language_colors rc stats =
     fold_err (attribute_edge language_colors rc) (languages_edges (repository rc)) stats"

text \<open>The body of the loop over \<^verbatim>\<open>commit_contributions\<close>, with its three filters.\<close>

definition process_repo ::
  "options \<Rightarrow> (string \<rightharpoonup> string) \<Rightarrow> repo_contribution \<Rightarrow> analysis_state
     \<Rightarrow> error + analysis_state" where
  "process_repo opts language_colors rc st =
     (let repo = repository rc; ls = get_line_stats rc
      in if \<not> include_forks opts \<and> isFork repo then Inr st
         else if \<not> include_private opts \<and> isPrivate repo then Inr st
         else
           let repo_commits = repo_commits_of rc
           in if repo_commits < min_commits opts then Inr st
              else
                bind_err
                  (attribute_weighted language_colors rc
                     (attribute_primary language_colors rc (st_language_stats st)))
                  (\<lambda>stats.
                     Inr (st\<lparr>st_total_repositories := st_total_repositories st + 1,
                              st_total_commits := st_total_commits st + repo_commits,
                              st_total_additions := st_total_additions st + ls_total_additions ls,
                              st_total_deletions := st_total_deletions st + ls_total_deletions ls,
                              st_language_stats := stats\<rparr>)))"

text \<open>The whole loop, from the empty accumulators.\<close>

definition accumulate ::
  "options \<Rightarrow> (string \<rightharpoonup> string) \<Rightarrow> repo_contribution list \<Rightarrow> error + analysis_state" where
  "accumulate opts language_colors rcs = fold_err (process_repo opts language_colors) rcs initial_state"

text \<open>One entry of \<^verbatim>\<open>final_stats\<close>, and the result of \<^verbatim>\<open>analyze_languages\<close>.\<close>

record final_stat =
  f_total_commits :: int
  f_weighted_commits :: rat
  commit_percentage :: rat
  weighted_percentage :: rat
  repository_count :: nat
  f_total_bytes :: int
  f_total_additions :: int
  f_total_deletions :: int
  f_net_lines :: int
  lines_percentage :: rat
  f_color :: "string option"

record analysis =
  summary_total_commits :: int
  summary_total_repositories :: int
  summary_total_additions :: int
  summary_total_deletions :: int
  summary_net_lines :: int
  languages :: "(string \<times> final_stat) list"

text \<open>\<^verbatim>\<open>(x / total * 100) if total > 0 else 0\<close>.\<close>

definition percentage_of :: "rat \<Rightarrow> int \<Rightarrow> error + rat" where
  "percentage_of x tot =
     (if tot > 0 then bind_err (py_truediv x (of_int tot)) (\<lambda>q. Inr (q * 100)) else Inr 0)"

definition final_stat_of :: "analysis_state \<Rightarrow> lang_stat \<Rightarrow> error + final_stat" where
  "final_stat_of st stats =
     bind_err (percentage_of (of_int (total_commits stats)) (st_total_commits st)) (\<lambda>cp.
     bind_err (percentage_of (weighted_commits stats) (st_total_commits st)) (\<lambda>wp.
     bind_err (percentage_of (total_additions stats) (st_total_additions st)) (\<lambda>lp.
       Inr \<lparr>f_total_commits = total_commits stats,
            f_weighted_commits = weighted_commits stats,
            commit_percentage = cp,
            weighted_percentage = wp,
            repository_count = length (repositories stats),
            f_total_bytes = total_bytes stats,
            f_total_additions = py_int (total_additions stats),
            f_total_deletions = py_int (total_deletions stats),
            f_net_lines = py_int (net_lines stats),
            lines_percentage = lp,
            f_color = color stats\<rparr>)))"

definition final_stats_of :: "analysis_state \<Rightarrow> error + (string \<times> final_stat) list" where
  "final_stats_of st =
     map_err (\<lambda>(lang, stats). bind_err (final_stat_of st stats) (\<lambda>fs. Inr (lang, fs)))
       (st_language_stats st)"

definition analyze_languages ::
  "options \<Rightarrow> (string \<rightharpoonup> string) \<Rightarrow> contributions_data \<Rightarrow> error + analysis" where
  "analyze_languages opts language_colors data =
     (case cd_user data of
        None \<Rightarrow> Inl NoUserData
      | Some user \<Rightarrow>
          bind_err (accumulate opts language_colors (commitContributionsByRepository data)) (\<lambda>st.
          bind_err (final_stats_of st) (\<lambda>final_stats.
            Inr \<lparr>summary_total_commits = st_total_commits st,
                 summary_total_repositories = st_total_repositories st,
                 summary_total_additions = st_total_additions st,
                 summary_total_deletions = st_total_deletions st,
                 summary_net_lines = st_total_additions st - st_total_deletions st,
                 languages = sorted_reverse (\<lambda>x. f_weighted_commits (snd x)) final_stats\<rparr>)))"

section \<open>The HTTP boundary\<close>

text \<open>
  What one \<^verbatim>\<open>requests.post\<close> gives back: the call raises (\<open>Raised\<close>), or it returns a
  response with a status code and a body. The body is \<open>None\<close> when it is not JSON
  (\<^verbatim>\<open>response.json()\<close> raises); otherwise it says whether it has an \<^verbatim>\<open>errors\<close> key
  and holds the object at \<^verbatim>\<open>data.user\<close>, \<open>None\<close> when \<^verbatim>\<open>data\<close> or \<^verbatim>\<open>user\<close> is
  missing or null.
\<close>

record 'a body =
  has_errors :: bool
  data_user :: "'a option"

record 'a response =
  status_code :: nat
  json :: "'a body option"

datatype 'a http_result = Raised | Response "'a response"

section \<open>The aggregator of generator.py\<close>

text \<open>
  The part of a year's response that \<^verbatim>\<open>get_user_data_multi_year\<close> reads. The code reads
  every field with \<^verbatim>\<open>.get\<close> and tests it for truth, so every field is optional: \<open>None\<close>
  is a missing or null field (for an object, also the empty one).
\<close>

record g_node =
  node_name :: "string option"
  node_color :: "string option"

record g_edge =
  e_size :: "int option"
  e_node :: "g_node option"

record g_repository =
  g_primaryLanguage :: "g_node option"
  g_languages_edges :: "g_edge option list option"

record g_repo_contrib =
  g_repository :: "g_repository option"
  g_totalCount :: "int option"

record year_data =
  totalCommitContributions :: "int option"
  g_commitContributionsByRepository :: "g_repo_contrib option list"

text \<open>One entry of \<^verbatim>\<open>language_stats\<close>: a single \<^verbatim>\<open>commits\<close> counter.\<close>

record g_lang_stat =
  commits :: int
  additions :: int
  deletions :: int
  g_color :: string

definition g_default :: g_lang_stat where
  "g_default = \<lparr>commits = 0, additions = 0, deletions = 0, g_color = ''#000000''\<rparr>"

type_synonym g_language_stats = "(string \<times> g_lang_stat) list"

definition g_fallback_color :: "(string \<rightharpoonup> string) \<Rightarrow> string \<Rightarrow> string" where
  "g_fallback_color LANGUAGE_COLORS lang_name =
     (case LANGUAGE_COLORS lang_name of None \<Rightarrow> ''#000000'' | Some c \<Rightarrow> c)"

definition get0 :: "int option \<Rightarrow> int" where
  "get0 v = (case v of None \<Rightarrow> 0 | Some n \<Rightarrow> n)"

text \<open>The block under \<^verbatim>\<open># Get primary language\<close>.\<close>

definition g_attribute_primary ::
  "(string \<rightharpoonup> string) \<Rightarrow> g_repository \<Rightarrow> int \<Rightarrow> g_language_stats \<Rightarrow> g_language_stats" where
  "g_attribute_primary LANGUAGE_COLORS repo commit_count stats =
     (case g_primaryLanguage repo of
        None \<Rightarrow> stats
      | Some primary_lang \<Rightarrow>
          (case node_name primary_lang of
             None \<Rightarrow> stats
           | Some lang_name \<Rightarrow>
               if lang_name = [] then stats
               else
                 let lang_color =
                       or_else (node_color primary_lang) (g_fallback_color LANGUAGE_COLORS lang_name)
                 in dd_upd g_default lang_name
                      (\<lambda>s. s\<lparr>commits := commits s + commit_count, g_color := lang_color\<rparr>)
                      stats))"

text \<open>
  \<^verbatim>\<open>total_size = sum(edge.get('size', 0) for edge in edges if edge and edge.get('size'))\<close>.
\<close>

definition edge_counts :: "g_edge option \<Rightarrow> bool" where
  "edge_counts edge =
     (case edge of
        None \<Rightarrow> False
      | Some e \<Rightarrow> (case e_size e of None \<Rightarrow> False | Some s \<Rightarrow> s \<noteq> 0))"

definition size_of_edge :: "g_edge option \<Rightarrow> int" where
  "size_of_edge edge = (case edge of None \<Rightarrow> 0 | Some e \<Rightarrow> get0 (e_size e))"

definition total_size_of :: "g_edge option list \<Rightarrow> int" where
  "total_size_of edges = sum_list (map size_of_edge (filter edge_counts edges))"

text \<open>
  The body of the loop over the edges, entered only when \<^verbatim>\<open>total_size > 0\<close>. The
  quotient, the two products and the factors \<^verbatim>\<open>0.3\<close> and \<^verbatim>\<open>0.1\<close> are doubles.
\<close>

definition g_attribute_edge ::
  "(string \<rightharpoonup> string) \<Rightarrow> int \<Rightarrow> int \<Rightarrow> g_edge option \<Rightarrow> g_language_stats
     \<Rightarrow> error + g_language_stats" where
  "g_attribute_edge LANGUAGE_COLORS commit_count total_size edge stats =
     (case edge of
        None \<Rightarrow> Inr stats
      | Some e \<Rightarrow>
          (case e_node e of
             None \<Rightarrow> Inr stats
           | Some nd \<Rightarrow>
               (case node_name nd of
                  None \<Rightarrow> Inr stats
                | Some lang_name \<Rightarrow>
                    if lang_name = [] then Inr stats
                    else
                      let lang_color =
                            or_else (node_color nd) (g_fallback_color LANGUAGE_COLORS lang_name);
                          edge_size = get0 (e_size e)
                      in bind_err (float_truediv edge_size total_size)
                           (\<lambda>lang_proportion.
                              let weighted = py_int (float_mul commit_count lang_proportion)
                              in if weighted > 0
                                 then Inr (dd_upd g_default lang_name
                                   (\<lambda>s. s\<lparr>commits := commits s + weighted,
                                          g_color := lang_color,
                                          additions := additions s + py_int (float_mul edge_size float_0_3),
                                          deletions := deletions s + py_int (float_mul edge_size float_0_1)\<rparr>)
                                   stats)
                                 else Inr stats))))"

text \<open>The block under \<^verbatim>\<open># Process all languages in repo (weighted by usage)\<close>.\<close>

definition g_attribute_weighted ::
  "(string \<rightharpoonup> string) \<Rightarrow> g_repository \<Rightarrow> int \<Rightarrow> g_language_stats
     \<Rightarrow> error + g_language_stats" where
  "g_attribute_weighted LANGUAGE_COLORS repo commit_count stats =
     (case g_languages_edges repo of
        None \<Rightarrow> Inr stats
      | Some edges \<Rightarrow>
          if edges = [] then Inr stats
          else
            let total_size = total_size_of edges
            in if total_size > 0
               then fold_err (g_attribute_edge LANGUAGE_COLORS commit_count total_size) edges stats
               else Inr stats)"

text \<open>The body of the loop over \<^verbatim>\<open>commit_contribs\<close>.\<close>

definition g_process_repo ::
  "(string \<rightharpoonup> string) \<Rightarrow> g_repo_contrib option \<Rightarrow> g_language_stats
     \<Rightarrow> error + g_language_stats" where
  "g_process_repo LANGUAGE_COLORS repo_contrib stats =
     (case repo_contrib of
        None \<Rightarrow> Inr stats
      | Some rc \<Rightarrow>
          (case g_repository rc of
             None \<Rightarrow> Inr stats
           | Some repo \<Rightarrow>
               let commit_count = get0 (g_totalCount rc)
               in if commit_count = 0 then Inr stats
                  else g_attribute_weighted LANGUAGE_COLORS repo commit_count
                         (g_attribute_primary LANGUAGE_COLORS repo commit_count stats)))"

text \<open>
  The state of the loop over the years: the totals, the per-year data kept, and the
  warnings printed (the year, and which of the four warnings).
\<close>

datatype warning =
    FailedToFetch nat
  | GraphQLErrorsFor
  | NoUserDataReturned
  | NoContributionsCollection

record g_state =
  g_total_commits :: int
  g_language_stats :: g_language_stats
  g_contributions_data :: "(int \<times> year_data) list"
  g_warnings :: "(int \<times> warning) list"

definition g_initial :: g_state where
  "g_initial = \<lparr>g_total_commits = 0, g_language_stats = [], g_contributions_data = [],
                 g_warnings = []\<rparr>"

definition warn :: "int \<Rightarrow> warning \<Rightarrow> g_state \<Rightarrow> g_state" where
  "warn year w st = st\<lparr>g_warnings := g_warnings st @ [(year, w)]\<rparr>"

text \<open>
  The body of the loop over the years, from the response to the year's query on. A year
  is processed once, so that \<^verbatim>\<open>contributions_data[year] = year_data\<close> adds an entry.
\<close>

definition process_year ::
  "(string \<rightharpoonup> string) \<Rightarrow> (int \<Rightarrow> year_data option http_result) \<Rightarrow> int \<Rightarrow> g_state
     \<Rightarrow> error + g_state" where
  "process_year LANGUAGE_COLORS api year st =
     (case api year of
        Raised \<Rightarrow> Inl RequestRaised
      | Response r \<Rightarrow>
          if status_code r \<noteq> 200 then Inr (warn year (FailedToFetch (status_code r)) st)
          else
            (case json r of
               None \<Rightarrow> Inl RequestRaised
             | Some response_data \<Rightarrow>
                 if has_errors response_data then Inr (warn year GraphQLErrorsFor st)
                 else
                   (case data_user response_data of
                      None \<Rightarrow> Inr (warn year NoUserDataReturned st)
                    | Some user_contrib \<Rightarrow>
                        (case user_contrib of
                           None \<Rightarrow> Inr (warn year NoContributionsCollection st)
                         | Some year_data \<Rightarrow>
                             let year_commits = get0 (totalCommitContributions year_data);
                                 st1 = st\<lparr>g_contributions_data :=
                                             g_contributions_data st @ [(year, year_data)],
                                           g_total_commits := g_total_commits st + year_commits\<rparr>
                             in bind_err
                                  (fold_err (g_process_repo LANGUAGE_COLORS)
                                     (g_commitContributionsByRepository year_data)
                                     (g_language_stats st1))
                                  (\<lambda>stats. Inr (st1\<lparr>g_language_stats := stats\<rparr>))))))"

text \<open>
  \<^verbatim>\<open>get_user_data_multi_year(years_back)\<close>: the user query, whose failure raises, then
  the loop over \<^verbatim>\<open>range(current_year - years_back + 1, current_year + 1)\<close>. The current
  year is a parameter.
\<close>

definition get_user_data_multi_year ::
  "(string \<rightharpoonup> string) \<Rightarrow> 'u http_result \<Rightarrow> (int \<Rightarrow> year_data option http_result) \<Rightarrow> int \<Rightarrow> int
     \<Rightarrow> error + 'u \<times> g_state" where
  "get_user_data_multi_year LANGUAGE_COLORS user_response api current_year years_back =
     (case user_response of
        Raised \<Rightarrow> Inl RequestRaised
      | Response r \<Rightarrow>
          if status_code r \<noteq> 200 then Inl (QueryFailed (status_code r))
          else
            (case json r of
               None \<Rightarrow> Inl RequestRaised
             | Some response_data \<Rightarrow>
                 if has_errors response_data then Inl GraphQLErrors
                 else
                   (case data_user response_data of
                      None \<Rightarrow> Inl UserNotFound
                    | Some user_data \<Rightarrow>
                        bind_err
                          (fold_err (process_year LANGUAGE_COLORS api)
                             [current_year - years_back + 1 .. current_year] g_initial)
                          (\<lambda>st. Inr (user_data, st)))))"

text \<open>
  \<^verbatim>\<open>calculate_language_percentages(language_stats)\<close>: the denominator is the sum of the
  languages' \<^verbatim>\<open>commits\<close> counters; a language with no commits is left out.
\<close>

record g_percentage =
  percentage :: rat
  p_commits :: int
  p_additions :: int
  p_deletions :: int
  p_net :: int
  p_color :: string

definition calculate_language_percentages ::
  "g_language_stats \<Rightarrow> error + (string \<times> g_percentage) list" where
  "calculate_language_percentages language_stats =
     (let total_commits' = sum_list (map (\<lambda>(lang, stats). commits stats) language_stats)
      in if total_commits' = 0 then Inr []
         else
           bind_err
             (map_err
                (\<lambda>(lang, stats).
                   bind_err (py_truediv (of_int (commits stats)) (of_int total_commits'))
                     (\<lambda>q. Inr (lang,
                        \<lparr>percentage = q * 100, p_commits = commits stats,
                         p_additions = additions stats, p_deletions = deletions stats,
                         p_net = additions stats - deletions stats, p_color = g_color stats\<rparr>)))
                (filter (\<lambda>(lang, stats). commits stats > 0) language_stats))
             (\<lambda>percentages. Inr (sorted_reverse (\<lambda>x. percentage (snd x)) percentages)))"

text \<open>
  \<^verbatim>\<open>main\<close> of generator.py: exit code 1 without a token or when anything in the
  \<^verbatim>\<open>try\<close> block raises, 0 otherwise. \<open>collect\<close> is the result of
  \<^verbatim>\<open>get_user_data_multi_year\<close>; \<open>render\<close> stands for the rest of the block (the two
  SVGs, the files written, the statistics printed), which may raise as well.
\<close>

definition g_main :: "string option \<Rightarrow> error + 'd \<Rightarrow> ('d \<Rightarrow> error + unit) \<Rightarrow> int" where
  "g_main token collect render =
     (case token of
        None \<Rightarrow> 1
      | Some t \<Rightarrow>
          if t = [] then 1
          else (case bind_err collect render of Inl e \<Rightarrow> 1 | Inr u \<Rightarrow> 0))"

section \<open>The fetcher of generator\_prev.py\<close>

text \<open>
  \<^verbatim>\<open>_make_graphql_request\<close>, applied to what the request gave back: it raises on a status
  other than 200 and on an \<^verbatim>\<open>errors\<close> key, and returns the data otherwise (a body
  without errors has a \<^verbatim>\<open>data\<close> key). The delay before the request is not modelled.
\<close>

definition make_graphql_request :: "'a http_result \<Rightarrow> error + 'a option" where
  "make_graphql_request result =
     (case result of
        Raised \<Rightarrow> Inl RequestRaised
      | Response r \<Rightarrow>
          if status_code r \<noteq> 200 then Inl (QueryFailed (status_code r))
          else
            (case json r of
               None \<Rightarrow> Inl RequestRaised
             | Some data \<Rightarrow> if has_errors data then Inl GraphQLErrors else Inr (data_user data)))"

text \<open>
  The user object of a year's response, with the fields of its
  \<^verbatim>\<open>contributionsCollection\<close> that are read.
\<close>

record prev_user =
  pu_login :: string
  pu_name :: "string option"
  hasAnyContributions :: bool
  pu_totalCommitContributions :: int
  pu_commitContributionsByRepository :: "repo_contribution list"

text \<open>
  What \<^verbatim>\<open>get_commit_stats_for_repo\<close> returns. It catches every exception of its own
  request; the dictionary it returns for a repository without a default branch has no
  \<^verbatim>\<open>net_lines\<close> key.
\<close>

record commit_stats =
  cs_total_additions :: int
  cs_total_deletions :: int
  cs_net_lines :: "int option"

record aggregated =
  agg_user :: "(string \<times> string option) option"
  agg_hasAnyContributions :: bool
  agg_totalCommitContributions :: int
  agg_repo_contributions :: "(string \<times> repo_contribution) list"

definition aggregated_initial :: aggregated where
  "aggregated_initial =
     \<lparr>agg_user = None, agg_hasAnyContributions = False, agg_totalCommitContributions = 0,
      agg_repo_contributions = []\<rparr>"

definition zero_line_stats :: line_stats where
  "zero_line_stats = \<lparr>ls_total_additions = 0, ls_total_deletions = 0, ls_net_lines = 0\<rparr>"

text \<open>
  The body of the loop over a year's repositories. The entry of a new key is created
  with the repository set, as the first two statements of the loop do together.
\<close>

definition merge_repo ::
  "bool \<Rightarrow> (string \<Rightarrow> datetime \<times> datetime \<Rightarrow> commit_stats) \<Rightarrow> datetime \<times> datetime
     \<Rightarrow> repo_contribution \<Rightarrow> (string \<times> repo_contribution) list
     \<Rightarrow> error + (string \<times> repo_contribution) list" where
  "merge_repo include_line_counts get_commit_stats_for_repo year_range repo_contrib repo_contributions =
     (let repo = repository repo_contrib;
          repo_key = nameWithOwner repo;
          fresh = \<lparr>repository = repo, contributions_nodes = [], line_stats = Some zero_line_stats\<rparr>;
          merged = dd_upd fresh repo_key
                     (\<lambda>a. a\<lparr>contributions_nodes :=
                               contributions_nodes a @ contributions_nodes repo_contrib\<rparr>)
                     repo_contributions
      in if include_line_counts \<and> \<not> isPrivate repo
         then
           let stats = get_commit_stats_for_repo repo_key year_range
           in (case cs_net_lines stats of
                 None \<Rightarrow> Inl KeyError
               | Some n \<Rightarrow>
                   Inr (dd_upd fresh repo_key
                     (\<lambda>a. a\<lparr>line_stats := Some
                        \<lparr>ls_total_additions = ls_total_additions (get_line_stats a) + cs_total_additions stats,
                         ls_total_deletions = ls_total_deletions (get_line_stats a) + cs_total_deletions stats,
                         ls_net_lines = ls_net_lines (get_line_stats a) + n\<rparr>\<rparr>)
                     merged))
         else Inr merged)"

text \<open>
  The body of the loop over the year ranges: the year's query is not inside any
  \<^verbatim>\<open>try\<close>, so what \<^verbatim>\<open>_make_graphql_request\<close> raises leaves the loop.
\<close>

definition process_range ::
  "bool \<Rightarrow> (string \<Rightarrow> datetime \<times> datetime \<Rightarrow> commit_stats)
     \<Rightarrow> (datetime \<times> datetime \<Rightarrow> prev_user http_result) \<Rightarrow> datetime \<times> datetime
     \<Rightarrow> aggregated \<Rightarrow> error + aggregated" where
  "process_range include_line_counts get_commit_stats_for_repo api year_range agg =
     bind_err (make_graphql_request (api year_range))
       (\<lambda>year_data.
          case year_data of
            None \<Rightarrow> Inr agg
          | Some user \<Rightarrow>
              let agg1 = agg\<lparr>agg_user :=
                              (case agg_user agg of
                                 None \<Rightarrow> Some (pu_login user, pu_name user)
                               | Some u \<Rightarrow> Some u),
                            agg_hasAnyContributions :=
                              (hasAnyContributions user \<or> agg_hasAnyContributions agg),
                            agg_totalCommitContributions :=
                              agg_totalCommitContributions agg + pu_totalCommitContributions user\<rparr>
              in bind_err
                   (fold_err (merge_repo include_line_counts get_commit_stats_for_repo year_range)
                      (pu_commitContributionsByRepository user) (agg_repo_contributions agg1))
                   (\<lambda>rcs. Inr (agg1\<lparr>agg_repo_contributions := rcs\<rparr>)))"

text \<open>
  \<^verbatim>\<open>get_user_contributions_range\<close>, from the parsed dates on: only the repositories
  with a positive total count are kept.
\<close>

definition get_user_contributions_range ::
  "bool \<Rightarrow> (string \<Rightarrow> datetime \<times> datetime \<Rightarrow> commit_stats)
     \<Rightarrow> (datetime \<times> datetime \<Rightarrow> prev_user http_result) \<Rightarrow> datetime \<Rightarrow> datetime
     \<Rightarrow> error + contributions_data" where
  "get_user_contributions_range include_line_counts get_commit_stats_for_repo api from_date to_date =
     bind_err
       (fold_err (process_range include_line_counts get_commit_stats_for_repo api)
          (generate_year_ranges from_date to_date) aggregated_initial)
       (\<lambda>agg.
          Inr \<lparr>cd_user = agg_user agg,
               commitContributionsByRepository =
                 filter (\<lambda>repo_data. repo_commits_of repo_data > 0)
                   (map snd (agg_repo_contributions agg))\<rparr>)"

text \<open>
  \<^verbatim>\<open>get_basic_user_stats\<close>: the statistics computed from the user object are displayed
  only and stay abstract.
\<close>

definition get_basic_user_stats :: "'u http_result \<Rightarrow> error + 'u" where
  "get_basic_user_stats result =
     bind_err (make_graphql_request result)
       (\<lambda>data. case data of None \<Rightarrow> Inl UserNotFound | Some user \<Rightarrow> Inr user)"

text \<open>
  The \<^verbatim>\<open>try\<close> block of \<^verbatim>\<open>main\<close> for a window of several years, up to the analysis,
  and \<^verbatim>\<open>main\<close> itself: exit code 1 without a token or when anything in the block raises.
  \<open>render\<close> stands for the printing and the files written after the analysis.
\<close>

definition prev_collect ::
  "options \<Rightarrow> (string \<rightharpoonup> string) \<Rightarrow> bool \<Rightarrow> (string \<Rightarrow> datetime \<times> datetime \<Rightarrow> commit_stats)
     \<Rightarrow> 'u http_result \<Rightarrow> (datetime \<times> datetime \<Rightarrow> prev_user http_result)
     \<Rightarrow> datetime \<Rightarrow> datetime \<Rightarrow> error + 'u \<times> analysis" where
  "prev_collect opts language_colors include_line_counts get_commit_stats_for_repo
       user_response api from_date to_date =
     bind_err (get_basic_user_stats user_response) (\<lambda>user_stats.
     bind_err (get_user_contributions_range include_line_counts get_commit_stats_for_repo api
                 from_date to_date) (\<lambda>contributions_data.
     bind_err (analyze_languages opts language_colors contributions_data) (\<lambda>analysis.
       Inr (user_stats, analysis))))"

definition prev_main :: "string option \<Rightarrow> error + 'd \<Rightarrow> ('d \<Rightarrow> error + unit) \<Rightarrow> int" where
  "prev_main token collect render =
     (case token of
        None \<Rightarrow> 1
      | Some t \<Rightarrow>
          if t = [] then 1
          else (case bind_err collect render of Inl e \<Rightarrow> 1 | Inr u \<Rightarrow> 0))"

section \<open>Notions used in the statements\<close>

text \<open>
  The share of an edge is the value of \<^verbatim>\<open>lang_percentage\<close> for it; a record survives
  when none of the three filters of \<^verbatim>\<open>analyze_languages\<close> skips it; \<open>stat_of\<close> reads
  a language's entry of \<^verbatim>\<open>language_stats\<close>, the default one when it has none yet.
\<close>

definition edge_share :: "repo_contribution \<Rightarrow> lang_edge \<Rightarrow> rat" where
  "edge_share rc e =
     (if languages_totalSize (repository rc) > 0
      then of_int (edge_size e) / of_int (languages_totalSize (repository rc)) else 0)"

definition survives :: "options \<Rightarrow> repo_contribution \<Rightarrow> bool" where
  "survives opts rc =
     ((include_forks opts \<or> \<not> isFork (repository rc))
      \<and> (include_private opts \<or> \<not> isPrivate (repository rc))
      \<and> min_commits opts \<le> repo_commits_of rc)"

definition primary_is :: "repo_contribution \<Rightarrow> string \<Rightarrow> bool" where
  "primary_is rc n = (case primaryLanguage (repository rc) of None \<Rightarrow> False | Some (l, c) \<Rightarrow> l = n)"

abbreviation (input) stat_of :: "language_stats \<Rightarrow> string \<Rightarrow> lang_stat" where
  "stat_of \<equiv> dd_get default_lang_stat"

text \<open>
  For generator.py: the language an edge counts for (none when the edge, its node or the
  name is missing or empty), the truncated weighted commit count of an edge, and the
  edges of a repository.
\<close>

abbreviation (input) g_stat_of :: "g_language_stats \<Rightarrow> string \<Rightarrow> g_lang_stat" where
  "g_stat_of \<equiv> dd_get g_default"

definition edge_lang :: "g_edge option \<Rightarrow> string option" where
  "edge_lang edge =
     (case edge of
        None \<Rightarrow> None
      | Some e \<Rightarrow>
          (case e_node e of
             None \<Rightarrow> None
           | Some nd \<Rightarrow>
               (case node_name nd of
                  None \<Rightarrow> None
                | Some l \<Rightarrow> if l = [] then None else Some l)))"

definition weighted_of :: "int \<Rightarrow> int \<Rightarrow> g_edge option \<Rightarrow> int" where
  "weighted_of commit_count total_size edge =
     py_int (float_mul commit_count
               (round_double (of_int (size_of_edge edge) / of_int total_size)))"

definition g_primary_is :: "g_repository \<Rightarrow> string \<Rightarrow> bool" where
  "g_primary_is repo n =
     (case g_primaryLanguage repo of
        None \<Rightarrow> False
      | Some pl \<Rightarrow> node_name pl = Some n \<and> n \<noteq> [])"

definition edges_of :: "g_repository \<Rightarrow> g_edge option list" where
  "edges_of repo = (case g_languages_edges repo of None \<Rightarrow> [] | Some es \<Rightarrow> es)"

text \<open>The entry of \<^verbatim>\<open>final_stats\<close> computed from an entry of \<^verbatim>\<open>language_stats\<close>.\<close>

definition finalizes :: "analysis_state \<Rightarrow> string \<times> lang_stat \<Rightarrow> string \<times> final_stat \<Rightarrow> bool" where
  "finalizes st x y =
     (fst y = fst x
      \<and> f_total_commits (snd y) = total_commits (snd x)
      \<and> f_weighted_commits (snd y) = weighted_commits (snd x)
      \<and> weighted_percentage (snd y) =
          (if 0 < st_total_commits st
           then weighted_commits (snd x) / of_int (st_total_commits st) * 100 else 0)
      \<and> commit_percentage (snd y) =
          (if 0 < st_total_commits st
           then of_int (total_commits (snd x)) / of_int (st_total_commits st) * 100 else 0))"

text \<open>
  What a response amounts to: the request raises (in \<^verbatim>\<open>requests.post\<close>, or in
  \<^verbatim>\<open>response.json()\<close> after a status of 200), or it carries a payload (status 200, a
  JSON body without errors, and an object at \<^verbatim>\<open>data.user\<close>), or neither.
\<close>

definition raises :: "'a http_result \<Rightarrow> bool" where
  "raises result =
     (case result of Raised \<Rightarrow> True | Response r \<Rightarrow> status_code r = 200 \<and> json r = None)"

definition payload_of :: "'a http_result \<Rightarrow> 'a option" where
  "payload_of result =
     (case result of
        Raised \<Rightarrow> None
      | Response r \<Rightarrow>
          if status_code r \<noteq> 200 then None
          else (case json r of
                  None \<Rightarrow> None
                | Some b \<Rightarrow> if has_errors b then None else data_user b))"

definition year_data_of :: "year_data option http_result \<Rightarrow> year_data option" where
  "year_data_of result = (case payload_of result of None \<Rightarrow> None | Some c \<Rightarrow> c)"

definition warning_of :: "year_data option http_result \<Rightarrow> warning" where
  "warning_of result =
     (case result of
        Raised \<Rightarrow> NoUserDataReturned
      | Response r \<Rightarrow>
          if status_code r \<noteq> 200 then FailedToFetch (status_code r)
          else (case json r of
                  None \<Rightarrow> NoUserDataReturned
                | Some b \<Rightarrow>
                    if has_errors b then GraphQLErrorsFor
                    else (case data_user b of
                            None \<Rightarrow> NoUserDataReturned
                          | Some c \<Rightarrow> NoContributionsCollection)))"

definition year_commits_of :: "year_data option http_result \<Rightarrow> int" where
  "year_commits_of result =
     (case year_data_of result of None \<Rightarrow> 0 | Some yd \<Rightarrow> get0 (totalCommitContributions yd))"

definition commits_sum :: "g_language_stats \<Rightarrow> int" where
  "commits_sum language_stats = sum_list (map (\<lambda>x. commits (snd x)) language_stats)"

definition percent_of :: "g_language_stats \<Rightarrow> string \<times> g_lang_stat \<Rightarrow> rat" where
  "percent_of language_stats x =
     of_int (commits (snd x)) / of_int (commits_sum language_stats) * 100"

section \<open>Example inputs\<close>

text \<open>
  The inputs of the witnesses and counterexamples: options, repositories and records of
  both programs, responses, and the API as a function of the year.
\<close>

definition ex_opts :: options where
  "ex_opts = \<lparr>include_forks = True, include_private = True, min_commits = 1\<rparr>"

definition ex_repo :: "string option \<Rightarrow> (string \<times> int) list \<Rightarrow> int \<Rightarrow> repository" where
  "ex_repo primary sizes tot =
     \<lparr>nameWithOwner = ''o/r'',
      primaryLanguage = map_option (\<lambda>l. (l, None)) primary,
      languages_edges = map (\<lambda>(l, s). \<lparr>edge_name = l, edge_color = None, edge_size = s\<rparr>) sizes,
      languages_totalSize = tot, isPrivate = False, isFork = False\<rparr>"

definition ex_rc :: "repository \<Rightarrow> int list \<Rightarrow> line_stats option \<Rightarrow> repo_contribution" where
  "ex_rc repo counts ls =
     \<lparr>repository = repo,
      contributions_nodes = map (\<lambda>c. \<lparr>commitCount = c, occurredAt = ''2024-01-01T00:00:00Z''\<rparr>) counts,
      line_stats = ls\<rparr>"

definition g_ex_edge :: "string \<Rightarrow> int \<Rightarrow> g_edge option" where
  "g_ex_edge l s = Some \<lparr>e_size = Some s, e_node = Some \<lparr>node_name = Some l, node_color = None\<rparr>\<rparr>"

definition g_ex_repo :: "string option \<Rightarrow> (string \<times> int) list \<Rightarrow> g_repository" where
  "g_ex_repo primary sizes =
     \<lparr>g_primaryLanguage = map_option (\<lambda>l. \<lparr>node_name = Some l, node_color = None\<rparr>) primary,
      g_languages_edges = Some (map (\<lambda>(l, s). g_ex_edge l s) sizes)\<rparr>"

text \<open>
  The fifteen largest languages of a repository with more than fifteen: 6 bytes each, of
  a total of 100.
\<close>

definition ex_fifteen :: "(string \<times> int) list" where
  "ex_fifteen = map (\<lambda>c. ([c], 6)) ''abcdefghijklmno''"

definition ok_response :: "'a \<Rightarrow> 'a http_result" where
  "ok_response x =
     Response \<lparr>status_code = 200, json = Some \<lparr>has_errors = False, data_user = Some x\<rparr>\<rparr>"

definition failed_response :: "nat \<Rightarrow> 'a http_result" where
  "failed_response n = Response \<lparr>status_code = n, json = None\<rparr>"

definition g_ex_year :: "int \<Rightarrow> (g_repository \<times> int) list \<Rightarrow> year_data option http_result" where
  "g_ex_year tot repos =
     ok_response (Some
       \<lparr>totalCommitContributions = Some tot,
        g_commitContributionsByRepository =
          map (\<lambda>(r, c). Some \<lparr>g_repository = Some r, g_totalCount = Some c\<rparr>) repos\<rparr>)"

text \<open>Three years: 2022 and 2024 answer with 5 and 7 commits, 2023 as given.\<close>

definition g_ex_api :: "year_data option http_result \<Rightarrow> int \<Rightarrow> year_data option http_result" where
  "g_ex_api middle year =
     (if year = 2023 then middle else g_ex_year (if year = 2022 then 5 else 7) [])"

definition ex_prev_user :: "repo_contribution list \<Rightarrow> prev_user" where
  "ex_prev_user rcs =
     \<lparr>pu_login = ''u'', pu_name = None, hasAnyContributions = True,
      pu_totalCommitContributions = sum_list (map repo_commits_of rcs),
      pu_commitContributionsByRepository = rcs\<rparr>"

definition ex_prev_api :: "prev_user http_result \<Rightarrow> datetime \<times> datetime \<Rightarrow> prev_user http_result" where
  "ex_prev_api middle year_range =
     (if fst (fst year_range) = 2023 then middle
      else ok_response (ex_prev_user
             [ex_rc (ex_repo (Some ''A'') [(''A'', 60), (''B'', 40)] 100) [4, 6] None]))"

definition ex_commit_stats :: "string \<Rightarrow> datetime \<times> datetime \<Rightarrow> commit_stats" where
  "ex_commit_stats repo_key year_range =
     \<lparr>cs_total_additions = 0, cs_total_deletions = 0, cs_net_lines = Some 0\<rparr>"

definition ex_data :: "repo_contribution list \<Rightarrow> contributions_data" where
  "ex_data rcs = \<lparr>cd_user = Some (''u'', None), commitContributionsByRepository = rcs\<rparr>"

section \<open>Properties of the formatter\<close>

lemma len_append: "len (xs @ ys) = len xs + len ys"
  by (simp add: len_def)

lemma len_str_mul: "len (str_mul c n) = (if n < 0 then 0 else n)"
  by (simp add: len_def str_mul_def)

lemma len_slice_to:
  "0 \<le> n \<Longrightarrow> n \<le> len s \<Longrightarrow> len (slice_to s n) = n"
  by (simp add: len_def slice_to_def)

text \<open>
  When the content fits (at least one dot is left), the line of \<open>format_line\<close> is exactly
  \<open>total_width\<close> code points long and ends with the value, unmodified.
\<close>

lemma len_cons: "len (x # xs) = 1 + len xs"
  by (simp add: len_def)

lemma len_nil: "len [] = 0"
  by (simp add: len_def)

lemma format_line_fits:
  assumes "\<not> startswith key EM_DASH" "\<not> startswith key HYPHEN"
    and "1 \<le> total_width - len ([DOT, SPACE] @ key @ separator) - len ([SPACE] @ val)"
  shows "len (format_line key val total_width separator) = total_width
       \<and> format_line key val total_width separator =
           [DOT, SPACE] @ key @ separator
           @ str_mul DOT (total_width - len ([DOT, SPACE] @ key @ separator) - len ([SPACE] @ val))
           @ [SPACE] @ val"
proof -
  let ?kp = "[DOT, SPACE] @ key @ separator"
  let ?d = "total_width - len ?kp - len ([SPACE] @ val)"
  have eq: "format_line key val total_width separator = ?kp @ str_mul DOT ?d @ [SPACE] @ val"
    using assms by (simp add: format_line_def Let_def)
  have "len (?kp @ str_mul DOT ?d @ [SPACE] @ val) = len ?kp + ?d + len ([SPACE] @ val)"
    using assms(3) by (simp only: len_append len_str_mul) simp
  then show ?thesis using eq by simp
qed

text \<open>
  When the value is too long and the key leaves room for the ellipsis, the truncated line
  is one code point longer than \<open>total_width\<close>: \<open>available_for_value\<close> reserves the
  single dot but not the space that starts \<open>value_part\<close>.
\<close>

lemma format_line_truncated:
  assumes "\<not> startswith key EM_DASH" "\<not> startswith key HYPHEN"
    and "total_width - len ([DOT, SPACE] @ key @ separator) - len ([SPACE] @ val) < 1"
    and "len ([DOT, SPACE] @ key @ separator) + 4 \<le> total_width"
  shows "len (format_line key val total_width separator) = total_width + 1"
proof -
  define kp where "kp = [DOT, SPACE] @ key @ separator"
  define n where "n = total_width - len kp - 1 - 3"
  have n0: "0 \<le> n" using assms(4) by (simp add: n_def kp_def)
  have nl: "n \<le> len val" using assms(3) by (simp add: n_def kp_def len_cons len_nil)
  have sl: "len (slice_to val n) = n" by (rule len_slice_to [OF n0 nl])
  have "format_line key val total_width separator =
          kp @ str_mul DOT 1 @ [SPACE] @ slice_to val n @ [DOT, DOT, DOT]"
    using assms(1-3) by (simp add: format_line_def Let_def kp_def n_def)
  then have "len (format_line key val total_width separator) =
          len kp + (1 + (1 + (n + 3)))"
    by (simp add: len_append len_str_mul sl len_cons len_nil)
  then show ?thesis by (simp add: n_def)
qed

text \<open>
  C9. The formatter is documented to return a line of exactly the given width (68). A line
  whose content fits is 68 columns wide with the value unmodified (\<open>format_line_fits\<close>),
  but a value over budget is not cut down to the budget: for the key \<open>Name\<close> and a value
  of 70 letters, \<open>format_line\<close> returns a line of 69 columns (the value truncated to 57
  letters plus the ellipsis), and \<open>format_styled_line\<close> computes the truncated value
  without using it, so its line shows all 70 letters and is 79 columns wide.
\<close>

theorem format_line_over_budget:
  "length (format_line (cp ''Name'') (replicate 70 97) 68 (cp '':'')) = 69
   \<and> format_line (cp ''Name'') (replicate 70 97) 68 (cp '':'') =
       cp ''. Name:. '' @ replicate 57 97 @ cp ''...''
   \<and> length (rendered (format_styled_line (cp ''Name'') (replicate 70 97) None)) = 79
   \<and> rendered (format_styled_line (cp ''Name'') (replicate 70 97) None) =
       cp ''. Name: .'' @ replicate 70 97"
  by (simp add: format_line_def format_styled_line_def rendered_def cp_def startswith_def
      EM_DASH_def HYPHEN_def DOT_def SPACE_def len_def str_mul_def slice_to_def Let_def
      replicate_add [symmetric])

section \<open>Properties of the year ranges\<close>

declare generate_year_ranges.simps [simp del]

lemma secs_in_year_pos: "0 < secs_in_year y"
  by (simp add: secs_in_year_def)

lemma valid_year_start: "valid_datetime (year_start_of y)"
  by (simp add: valid_datetime_def year_start_of_def secs_in_year_pos)

lemma le_year_end: "valid_datetime c \<Longrightarrow> c \<le> year_end_of (fst c)"
  by (cases c) (auto simp: valid_datetime_def year_end_of_def)

lemma lt_next_year: "c < year_start_of (fst c + 1)"
  by (cases c) (auto simp: year_start_of_def)

lemma year_end_lt_next: "year_end_of y < year_start_of (y + 1)"
  by (simp add: year_start_of_def year_end_of_def)

lemma fst_min_year_end:
  "c < e \<Longrightarrow> fst (min (year_end_of (fst c)) e) = fst c"
  by (cases c; cases e) (auto simp: min_def year_end_of_def)

lemma ranges_bounds:
  "valid_datetime c \<Longrightarrow> (a, b) \<in> set (generate_year_ranges c e) \<Longrightarrow>
     c \<le> a \<and> a \<le> b \<and> b \<le> e \<and> fst a = fst b"
proof (induction c e rule: generate_year_ranges.induct)
  case (1 c e)
  show ?case
  proof (cases "c < e")
    case False
    with "1.prems" show ?thesis by (simp add: generate_year_ranges.simps)
  next
    case True
    let ?c' = "year_start_of (fst c + 1)"
    from "1.prems"(2) True
    consider "(a, b) = (c, min (year_end_of (fst c)) e)"
      | "(a, b) \<in> set (generate_year_ranges ?c' e)"
      by (subst (asm) generate_year_ranges.simps) (auto simp: Let_def)
    then show ?thesis
    proof cases
      case 1
      then show ?thesis
        using True le_year_end [OF "1.prems"(1)] fst_min_year_end [OF True] by auto
    next
      case 2
      have "?c' \<le> a \<and> a \<le> b \<and> b \<le> e \<and> fst a = fst b"
        using "1.IH" [OF True refl refl valid_year_start 2] .
      moreover have "c < ?c'" by (rule lt_next_year)
      ultimately show ?thesis by auto
    qed
  qed
qed

lemma ranges_ordered:
  "valid_datetime c \<Longrightarrow> sorted_wrt (\<lambda>r s. snd r < fst s) (generate_year_ranges c e)"
proof (induction c e rule: generate_year_ranges.induct)
  case (1 c e)
  show ?case
  proof (cases "c < e")
    case False
    then show ?thesis by (simp add: generate_year_ranges.simps)
  next
    case True
    let ?c' = "year_start_of (fst c + 1)"
    have tl: "sorted_wrt (\<lambda>r s. snd r < fst s) (generate_year_ranges ?c' e)"
      using "1.IH" [OF True refl refl valid_year_start] .
    have hd: "min (year_end_of (fst c)) e < fst s"
      if "s \<in> set (generate_year_ranges ?c' e)" for s
    proof -
      have "?c' \<le> fst s"
        using ranges_bounds [OF valid_year_start, of "fst s" "snd s" "fst c + 1" e] that by simp
      moreover have "min (year_end_of (fst c)) e \<le> year_end_of (fst c)" by simp
      ultimately show ?thesis using year_end_lt_next [of "fst c"] by (meson le_less_trans less_le_trans)
    qed
    show ?thesis
      using True tl hd by (subst generate_year_ranges.simps) (simp add: Let_def)
  qed
qed

lemma ranges_years:
  "valid_datetime c \<Longrightarrow> c < e \<Longrightarrow> valid_datetime e \<Longrightarrow>
     map (\<lambda>r. fst (fst r)) (generate_year_ranges c e) = [fst c .. last_year e]"
proof (induction c e rule: generate_year_ranges.induct)
  case (1 c e)
  let ?c' = "year_start_of (fst c + 1)"
  have unf: "generate_year_ranges c e =
      (c, min (year_end_of (fst c)) e) # generate_year_ranges ?c' e"
    using "1.prems"(2) by (subst generate_year_ranges.simps) (simp add: Let_def)
  show ?case
  proof (cases "?c' < e")
    case True
    have "map (\<lambda>r. fst (fst r)) (generate_year_ranges ?c' e) = [fst ?c' .. last_year e]"
      using "1.IH" [OF "1.prems"(2) refl refl valid_year_start True "1.prems"(3)] .
    moreover have "fst c \<le> last_year e"
      using True "1.prems"(3)
      by (cases e) (auto simp: year_start_of_def last_year_def valid_datetime_def)
    ultimately show ?thesis
      by (simp add: unf upto_rec1 [of "fst c"] year_start_of_def)
  next
    case False
    then have nil: "generate_year_ranges ?c' e = []"
      by (simp add: generate_year_ranges.simps)
    have "last_year e = fst c"
      using False "1.prems"
      by (cases c; cases e) (auto simp: year_start_of_def last_year_def valid_datetime_def)
    then show ?thesis by (simp add: unf nil)
  qed
qed

lemma ranges_cover:
  "valid_datetime c \<Longrightarrow> valid_datetime t \<Longrightarrow> c \<le> t \<Longrightarrow>
   t < e \<or> (t = e \<and> snd e \<noteq> 0 \<and> c < e) \<Longrightarrow>
     \<exists>r \<in> set (generate_year_ranges c e). fst r \<le> t \<and> t \<le> snd r"
proof (induction c e rule: generate_year_ranges.induct)
  case (1 c e)
  let ?c' = "year_start_of (fst c + 1)"
  have ce: "c < e" using "1.prems" by auto
  have unf: "generate_year_ranges c e =
      (c, min (year_end_of (fst c)) e) # generate_year_ranges ?c' e"
    using ce by (subst generate_year_ranges.simps) (simp add: Let_def)
  show ?case
  proof (cases "t \<le> min (year_end_of (fst c)) e")
    case True
    then show ?thesis using "1.prems"(3) by (simp add: unf)
  next
    case False
    have te: "t \<le> e" using "1.prems"(4) by auto
    with False have "year_end_of (fst c) < t" by (auto simp: min_def split: if_splits)
    then have "fst c < fst t"
      using "1.prems"(2)
      by (cases t; cases "fst t = fst c") (auto simp: year_end_of_def valid_datetime_def)
    then have c't: "?c' \<le> t"
      using "1.prems"(2)
      by (cases t) (auto simp: year_start_of_def valid_datetime_def)
    have "t < e \<or> (t = e \<and> snd e \<noteq> 0 \<and> ?c' < e)"
      using "1.prems"(2,4) c't
      by (cases e) (auto simp: year_start_of_def valid_datetime_def)
    from "1.IH" [OF ce refl refl valid_year_start "1.prems"(2) c't this]
    show ?thesis by (auto simp: unf)
  qed
qed

lemma ranges_empty: "\<not> start < end_dt \<Longrightarrow> generate_year_ranges start end_dt = []"
  by (simp add: generate_year_ranges.simps)

text \<open>
  C7 (as amended). For a window with \<open>start < end\<close> the generated ranges are
  non-empty sub-ranges of the window, each inside one calendar year; they are in
  chronological order and pairwise disjoint; there is exactly one per calendar year from
  the year of \<open>start\<close> to the year of the last second before \<open>end\<close>; every second
  of the window before \<open>end\<close> lies in one of them, and so does \<open>end\<close> itself unless
  it is the first second of a calendar year.
\<close>

theorem generate_year_ranges_partition:
  assumes "valid_datetime start" and "valid_datetime end_dt" and "start < end_dt"
  shows "(\<forall>r \<in> set (generate_year_ranges start end_dt).
            start \<le> fst r \<and> fst r \<le> snd r \<and> snd r \<le> end_dt \<and> fst (fst r) = fst (snd r))
       \<and> sorted_wrt (\<lambda>r s. snd r < fst s) (generate_year_ranges start end_dt)
       \<and> map (\<lambda>r. fst (fst r)) (generate_year_ranges start end_dt) = [fst start .. last_year end_dt]
       \<and> (\<forall>t. valid_datetime t \<and> start \<le> t \<and> t < end_dt \<longrightarrow>
            (\<exists>r \<in> set (generate_year_ranges start end_dt). fst r \<le> t \<and> t \<le> snd r))
       \<and> (snd end_dt \<noteq> 0 \<longrightarrow>
            (\<exists>r \<in> set (generate_year_ranges start end_dt). fst r \<le> end_dt \<and> end_dt \<le> snd r))"
proof (intro conjI ballI allI impI)
  fix r assume "r \<in> set (generate_year_ranges start end_dt)"
  then have "(fst r, snd r) \<in> set (generate_year_ranges start end_dt)" by simp
  from ranges_bounds [OF assms(1) this]
  show "start \<le> fst r" "fst r \<le> snd r" "snd r \<le> end_dt" "fst (fst r) = fst (snd r)"
    by simp_all
next
  show "sorted_wrt (\<lambda>r s. snd r < fst s) (generate_year_ranges start end_dt)"
    by (rule ranges_ordered [OF assms(1)])
next
  show "map (\<lambda>r. fst (fst r)) (generate_year_ranges start end_dt) = [fst start .. last_year end_dt]"
    by (rule ranges_years [OF assms(1) assms(3) assms(2)])
next
  fix t assume "valid_datetime t \<and> start \<le> t \<and> t < end_dt"
  then show "\<exists>r \<in> set (generate_year_ranges start end_dt). fst r \<le> t \<and> t \<le> snd r"
    using ranges_cover [OF assms(1), of t end_dt] by simp
next
  assume "snd end_dt \<noteq> 0"
  then show "\<exists>r \<in> set (generate_year_ranges start end_dt). fst r \<le> end_dt \<and> end_dt \<le> snd r"
    using ranges_cover [OF assms(1) assms(2), of end_dt] assms(3) by simp
qed

theorem generate_year_ranges_partition_witness:
  "valid_datetime (2023, 100) \<and> valid_datetime (2025, 50)
   \<and> ((2023, 100) :: datetime) < (2025, 50)
   \<and> map (\<lambda>r. fst (fst r)) (generate_year_ranges (2023, 100) (2025, 50)) = [2023, 2024, 2025]
   \<and> sorted_wrt (\<lambda>r s. snd r < fst s) (generate_year_ranges (2023, 100) (2025, 50))
   \<and> (\<exists>r \<in> set (generate_year_ranges (2023, 100) (2025, 50)).
         fst r \<le> (2024, 7) \<and> (2024, 7) \<le> snd r)
   \<and> (\<exists>r \<in> set (generate_year_ranges (2023, 100) (2025, 50)).
         fst r \<le> (2025, 50) \<and> (2025, 50) \<le> snd r)"
proof -
  have v1: "valid_datetime (2023, 100)"
    by (simp add: valid_datetime_def secs_in_year_def)
  have v2: "valid_datetime (2025, 50)"
    by (simp add: valid_datetime_def secs_in_year_def)
  have v3: "valid_datetime (2024, 7)"
    by (simp add: valid_datetime_def secs_in_year_def)
  have lt: "((2023, 100) :: datetime) < (2025, 50)" by simp
  have up: "[2023 .. 2025] = [2023, 2024, 2025 :: int]"
    by (simp add: upto_rec1)
  note p = generate_year_ranges_partition [OF v1 v2 lt]
  have "(\<exists>r \<in> set (generate_year_ranges (2023, 100) (2025, 50)).
         fst r \<le> (2024, 7) \<and> (2024, 7) \<le> snd r)"
    using p v3 by simp
  moreover have "(\<exists>r \<in> set (generate_year_ranges (2023, 100) (2025, 50)).
         fst r \<le> (2025, 50) \<and> (2025, 50) \<le> snd r)"
    using p by simp
  moreover have "map (\<lambda>r. fst (fst r)) (generate_year_ranges (2023, 100) (2025, 50)) = [2023, 2024, 2025]"
    using p up by (simp add: last_year_def)
  ultimately show ?thesis using v1 v2 lt p by blast
qed

text \<open>
  The claim as stated, for every window with \<open>start \<le> end\<close>, fails where the strict
  comparison of the loop stops it: a window of a single instant yields no range at all,
  and a window that ends on the first second of a year (here 2024) yields no range for
  that year, so that \<open>end\<close> is in no range.
\<close>

theorem generate_year_ranges_counterexample:
  "valid_datetime (2024, 0) \<and> valid_datetime (2023, 100)
   \<and> ((2024, 0) :: datetime) \<le> (2024, 0)
   \<and> generate_year_ranges (2024, 0) (2024, 0) = []
   \<and> ((2023, 100) :: datetime) \<le> (2024, 0)
   \<and> generate_year_ranges (2023, 100) (2024, 0) = [((2023, 100), (2023, 31535999))]
   \<and> ((2023, 31535999) :: datetime) < (2024, 0)"
  by (simp add: generate_year_ranges.simps valid_datetime_def secs_in_year_def is_leap_def
      year_end_of_def year_start_of_def Let_def)

section \<open>Errors, dictionaries and folds\<close>

lemma bind_err_Inr [simp]: "bind_err (Inr x) f = f x"
  by (simp add: bind_err_def)

lemma bind_err_Inl [simp]: "bind_err (Inl e) f = Inl e"
  by (simp add: bind_err_def)

lemma bind_err_eq_Inr:
  "bind_err m f = Inr y \<longleftrightarrow> (\<exists>x. m = Inr x \<and> f x = Inr y)"
  by (cases m) simp_all

lemma map_of_dd_map:
  "map_of (map (\<lambda>(k', v). if k' = k then (k', f v) else (k', v)) m) k' =
     (if k' = k then map_option f (map_of m k) else map_of m k')"
  by (induction m) auto

lemma map_of_append_new:
  "k \<notin> set (map fst m) \<Longrightarrow> map_of (m @ [(k, v)]) k' = (if k' = k then Some v else map_of m k')"
  by (induction m) auto

lemma map_of_None_iff: "map_of m k = None \<longleftrightarrow> k \<notin> set (map fst m)"
  by (simp add: map_of_eq_None_iff)

lemma dd_get_upd:
  "dd_get d (dd_upd d k f m) k' = (if k' = k then f (dd_get d m k) else dd_get d m k')"
proof (cases "k \<in> set (map fst m)")
  case True
  then obtain v where "map_of m k = Some v"
    using map_of_None_iff [of m k] by (cases "map_of m k") auto
  then show ?thesis
    using True by (simp add: dd_get_def dd_upd_def map_of_dd_map del: set_map)
next
  case False
  then have "map_of m k = None" using map_of_None_iff [of m k] by simp
  then show ?thesis
    using False map_of_append_new [of k m "f d" k']
    by (simp add: dd_get_def dd_upd_def del: set_map map_of_append)
qed

lemma keys_dd_upd:
  "map fst (dd_upd d k f m) = (if k \<in> set (map fst m) then map fst m else map fst m @ [k])"
  by (auto simp: dd_upd_def split: prod.splits intro!: map_idI)

lemma distinct_keys_dd_upd:
  "distinct (map fst m) \<Longrightarrow> distinct (map fst (dd_upd d k f m))"
  by (simp add: keys_dd_upd del: set_map)

lemma dd_get_Nil [simp]: "dd_get d [] k = d"
  by (simp add: dd_get_def)

lemma lang_percentage_of_eq:
  "lang_percentage_of s t = Inr (if t > 0 then of_int s / of_int t else 0)"
  by (simp add: lang_percentage_of_def py_truediv_def)

lemma percentage_of_eq:
  "percentage_of x t = Inr (if t > 0 then x / of_int t * 100 else 0)"
  by (simp add: percentage_of_def py_truediv_def)

lemma fold_err_total:
  assumes "\<And>x s. x \<in> set xs \<Longrightarrow> \<exists>s'. f x s = Inr s'"
  shows "\<exists>s'. fold_err f xs s = Inr s'"
  using assms
proof (induction xs arbitrary: s)
  case Nil
  show ?case by simp
next
  case (Cons x xs)
  obtain s1 where "f x s = Inr s1" using Cons.prems [of x s] by auto
  then show ?case using Cons.IH [of s1] Cons.prems by simp
qed

lemma fold_err_additive:
  fixes m :: "'s \<Rightarrow> 'a::comm_monoid_add"
  assumes "\<And>x s s'. x \<in> set xs \<Longrightarrow> f x s = Inr s' \<Longrightarrow> m s' = m s + d x"
    and "fold_err f xs s = Inr s'"
  shows "m s' = m s + sum_list (map d xs)"
  using assms
proof (induction xs arbitrary: s)
  case Nil
  then show ?case by simp
next
  case (Cons x xs)
  from Cons.prems(2) obtain s1 where s1: "f x s = Inr s1" and r: "fold_err f xs s1 = Inr s'"
    by (auto simp: bind_err_eq_Inr)
  have "m s' = m s1 + sum_list (map d xs)"
    using Cons.IH [OF _ r] Cons.prems(1) by simp
  moreover have "m s1 = m s + d x" using Cons.prems(1) [OF _ s1] by simp
  ultimately show ?case by (simp add: add.assoc)
qed

lemma fold_err_invariant:
  assumes "\<And>x s s'. x \<in> set xs \<Longrightarrow> P s \<Longrightarrow> f x s = Inr s' \<Longrightarrow> P s'"
    and "fold_err f xs s = Inr s'" and "P s"
  shows "P s'"
  using assms
proof (induction xs arbitrary: s)
  case Nil
  then show ?case by simp
next
  case (Cons x xs)
  from Cons.prems(2) obtain s1 where s1: "f x s = Inr s1" and r: "fold_err f xs s1 = Inr s'"
    by (auto simp: bind_err_eq_Inr)
  have s1P: "P s1" using Cons.prems(1) [OF _ Cons.prems(3) s1] by simp
  have step: "\<And>y t t'. y \<in> set xs \<Longrightarrow> P t \<Longrightarrow> f y t = Inr t' \<Longrightarrow> P t'"
    using Cons.prems(1) by (meson list.set_intros(2))
  show ?case by (rule Cons.IH [OF step r s1P])
qed

lemma fold_err_mono:
  fixes m :: "'s \<Rightarrow> 'a::preorder"
  assumes "\<And>x s s'. x \<in> set xs \<Longrightarrow> f x s = Inr s' \<Longrightarrow> m s \<le> m s'"
    and "fold_err f xs s = Inr s'"
  shows "m s \<le> m s'"
  using assms
proof (induction xs arbitrary: s)
  case Nil
  then show ?case by simp
next
  case (Cons x xs)
  from Cons.prems(2) obtain s1 where s1: "f x s = Inr s1" and r: "fold_err f xs s1 = Inr s'"
    by (auto simp: bind_err_eq_Inr)
  have step: "\<And>y t t'. y \<in> set xs \<Longrightarrow> f y t = Inr t' \<Longrightarrow> m t \<le> m t'"
    using Cons.prems(1) by (meson list.set_intros(2))
  have "m s1 \<le> m s'" by (rule Cons.IH [OF step r])
  moreover have "m s \<le> m s1" using Cons.prems(1) [OF _ s1] by simp
  ultimately show ?case by (rule order_trans [rotated])
qed

lemma floor_rat_divide_numeral [simp]:
  "\<lfloor>(numeral a :: rat) / numeral b\<rfloor> = numeral a div numeral b"
  using floor_divide_of_int_eq [of "numeral a" "numeral b", where ?'a = rat] by simp

lemma floor_rat_one_divide_numeral [simp]:
  "\<lfloor>(1 :: rat) / numeral b\<rfloor> = 1 div numeral b"
  using floor_divide_of_int_eq [of 1 "numeral b", where ?'a = rat] by simp

lemma ceiling_rat_divide_numeral [simp]:
  "\<lceil>(numeral a :: rat) / numeral b\<rceil> = - (- numeral a div numeral b)"
  using ceiling_divide_eq_div [of "numeral a" "numeral b", where ?'a = rat] by simp

section \<open>Signs of rounded values\<close>

lemma pow2_pos: "0 < pow2 e"
  by (simp add: pow2_def)

lemma round_half_even_nonneg: "0 \<le> y \<Longrightarrow> 0 \<le> round_half_even y"
  by (auto simp: round_half_even_def Let_def)

lemma round_half_even_nonpos:
  assumes "y \<le> 0"
  shows "round_half_even y \<le> 0"
proof (cases "y = 0")
  case True
  then show ?thesis by (simp add: round_half_even_def)
next
  case False
  then have "y < 0" using assms by simp
  then have "\<lfloor>y\<rfloor> < 0" by (simp add: floor_less_iff)
  then have "\<lfloor>y\<rfloor> + 1 \<le> 0" by arith
  then show ?thesis by (auto simp: round_half_even_def Let_def)
qed

lemma round_double_zero [simp]: "round_double 0 = 0"
  by (simp add: round_double_def)

lemma round_double_nonneg: "0 \<le> x \<Longrightarrow> 0 \<le> round_double x"
  using pow2_pos [of "float_exponent x - 52"]
  by (auto simp: round_double_def Let_def intro!: mult_nonneg_nonneg round_half_even_nonneg
      dest: less_imp_le)

lemma round_double_nonpos: "x \<le> 0 \<Longrightarrow> round_double x \<le> 0"
proof -
  assume x: "x \<le> 0"
  let ?u = "pow2 (float_exponent x - 52)"
  have u: "0 < ?u" by (rule pow2_pos)
  have "x / ?u \<le> 0" using x u by (simp add: divide_nonpos_pos)
  then have "round_half_even (x / ?u) \<le> 0" by (rule round_half_even_nonpos)
  then have "rat_of_int (round_half_even (x / ?u)) * ?u \<le> 0"
    using u by (simp add: mult_nonpos_nonneg less_imp_le)
  then show ?thesis by (simp add: round_double_def Let_def)
qed

lemma round_double_pos_imp: "0 < round_double x \<Longrightarrow> 0 < x"
  using round_double_nonpos [of x] by (cases "0 < x") auto

lemma float_mul_zero [simp]: "float_mul 0 x = 0"
  by (simp add: float_mul_def)

lemma float_mul_nonneg: "0 \<le> n \<Longrightarrow> 0 \<le> x \<Longrightarrow> 0 \<le> float_mul n x"
  by (simp add: float_mul_def round_double_nonneg)

lemma float_factors_nonneg: "0 \<le> float_0_3" "0 \<le> float_0_1"
  by (simp_all add: float_0_3_def float_0_1_def round_double_nonneg)

lemmas float_eval = round_double_def float_exponent_def pow2_def round_half_even_def
  float_truediv_def float_mul_def float_0_3_def float_0_1_def compute_bitlen Let_def

section \<open>What one record adds (generator\_prev.py)\<close>

lemma attribute_primary_effect:
  "total_commits (stat_of (attribute_primary lc rc stats) n) =
     total_commits (stat_of stats n) + (if primary_is rc n then repo_commits_of rc else 0)"
  "weighted_commits (stat_of (attribute_primary lc rc stats) n) = weighted_commits (stat_of stats n)"
  "total_bytes (stat_of (attribute_primary lc rc stats) n) = total_bytes (stat_of stats n)"
  "total_additions (stat_of (attribute_primary lc rc stats) n) =
     total_additions (stat_of stats n)
       + (if primary_is rc n then of_int (ls_total_additions (get_line_stats rc)) else 0)"
  "total_deletions (stat_of (attribute_primary lc rc stats) n) =
     total_deletions (stat_of stats n)
       + (if primary_is rc n then of_int (ls_total_deletions (get_line_stats rc)) else 0)"
  "net_lines (stat_of (attribute_primary lc rc stats) n) =
     net_lines (stat_of stats n)
       + (if primary_is rc n then of_int (ls_net_lines (get_line_stats rc)) else 0)"
  by (auto simp: attribute_primary_def primary_is_def dd_get_upd Let_def split: option.splits)

lemma attribute_edge_Inr:
  "\<exists>stats'. attribute_edge lc rc e stats = Inr stats'"
  by (simp add: attribute_edge_def Let_def lang_percentage_of_eq)

lemma attribute_edge_effect:
  assumes "attribute_edge lc rc e stats = Inr stats'"
  shows "total_commits (stat_of stats' n) = total_commits (stat_of stats n)"
    and "weighted_commits (stat_of stats' n) =
           weighted_commits (stat_of stats n)
             + (if edge_name e = n then of_int (repo_commits_of rc) * edge_share rc e else 0)"
    and "total_bytes (stat_of stats' n) =
           total_bytes (stat_of stats n) + (if edge_name e = n then edge_size e else 0)"
    and "total_additions (stat_of stats' n) =
           total_additions (stat_of stats n)
             + (if edge_name e = n
                then of_int (ls_total_additions (get_line_stats rc)) * edge_share rc e else 0)"
    and "total_deletions (stat_of stats' n) =
           total_deletions (stat_of stats n)
             + (if edge_name e = n
                then of_int (ls_total_deletions (get_line_stats rc)) * edge_share rc e else 0)"
    and "net_lines (stat_of stats' n) =
           net_lines (stat_of stats n)
             + (if edge_name e = n
                then of_int (ls_net_lines (get_line_stats rc)) * edge_share rc e else 0)"
  using assms
  by (auto simp: attribute_edge_def Let_def lang_percentage_of_eq dd_get_upd edge_share_def)

lemma sum_list_if_single:
  fixes g :: "'b \<Rightarrow> 'a::comm_monoid_add"
  shows "distinct (map k es) \<Longrightarrow> e \<in> set es \<Longrightarrow>
     sum_list (map (\<lambda>x. if k x = k e then g x else 0) es) = g e"
proof (induction es)
  case Nil
  then show ?case by simp
next
  case (Cons x es)
  show ?case
  proof (cases "x = e")
    case True
    have "k e \<notin> k ` set es" using Cons.prems(1) True by simp
    then have "\<And>y. y \<in> set es \<Longrightarrow> k y \<noteq> k e" by (metis image_eqI)
    then have "sum_list (map (\<lambda>x. if k x = k e then g x else 0) es) = 0"
      by (induction es) auto
    then show ?thesis using True by simp
  next
    case False
    then have "e \<in> set es" using Cons.prems(2) by simp
    moreover have "k x \<noteq> k e" using Cons.prems(1) calculation by auto
    ultimately show ?thesis using Cons.IH Cons.prems(1) by simp
  qed
qed

text \<open>
  What the loop over the edges adds, for the language \<open>n\<close>, to each sum: the
  contributions of the edges that declare \<open>n\<close>.
\<close>

lemma attribute_weighted_Inr: "\<exists>stats'. attribute_weighted lc rc stats = Inr stats'"
  unfolding attribute_weighted_def by (rule fold_err_total) (rule attribute_edge_Inr)

lemma attribute_weighted_effect:
  assumes "attribute_weighted lc rc stats = Inr stats'"
  shows "total_commits (stat_of stats' n) = total_commits (stat_of stats n)"
    and "weighted_commits (stat_of stats' n) =
           weighted_commits (stat_of stats n)
             + (\<Sum>e\<leftarrow>languages_edges (repository rc).
                  if edge_name e = n then of_int (repo_commits_of rc) * edge_share rc e else 0)"
    and "total_bytes (stat_of stats' n) =
           total_bytes (stat_of stats n)
             + (\<Sum>e\<leftarrow>languages_edges (repository rc). if edge_name e = n then edge_size e else 0)"
    and "total_additions (stat_of stats' n) =
           total_additions (stat_of stats n)
             + (\<Sum>e\<leftarrow>languages_edges (repository rc).
                  if edge_name e = n
                  then of_int (ls_total_additions (get_line_stats rc)) * edge_share rc e else 0)"
    and "total_deletions (stat_of stats' n) =
           total_deletions (stat_of stats n)
             + (\<Sum>e\<leftarrow>languages_edges (repository rc).
                  if edge_name e = n
                  then of_int (ls_total_deletions (get_line_stats rc)) * edge_share rc e else 0)"
    and "net_lines (stat_of stats' n) =
           net_lines (stat_of stats n)
             + (\<Sum>e\<leftarrow>languages_edges (repository rc).
                  if edge_name e = n
                  then of_int (ls_net_lines (get_line_stats rc)) * edge_share rc e else 0)"
proof -
  note f = assms [unfolded attribute_weighted_def]
  show "total_commits (stat_of stats' n) = total_commits (stat_of stats n)"
    using fold_err_invariant [where P = "\<lambda>s. total_commits (stat_of s n) = total_commits (stat_of stats n)", OF _ f]
      attribute_edge_effect(1) by simp
  show "weighted_commits (stat_of stats' n) =
           weighted_commits (stat_of stats n)
             + (\<Sum>e\<leftarrow>languages_edges (repository rc).
                  if edge_name e = n then of_int (repo_commits_of rc) * edge_share rc e else 0)"
    by (rule fold_err_additive [where m = "\<lambda>s. weighted_commits (stat_of s n)", OF _ f])
       (rule attribute_edge_effect(2))
  show "total_bytes (stat_of stats' n) =
           total_bytes (stat_of stats n)
             + (\<Sum>e\<leftarrow>languages_edges (repository rc). if edge_name e = n then edge_size e else 0)"
    by (rule fold_err_additive [where m = "\<lambda>s. total_bytes (stat_of s n)", OF _ f])
       (rule attribute_edge_effect(3))
  show "total_additions (stat_of stats' n) =
           total_additions (stat_of stats n)
             + (\<Sum>e\<leftarrow>languages_edges (repository rc).
                  if edge_name e = n
                  then of_int (ls_total_additions (get_line_stats rc)) * edge_share rc e else 0)"
    by (rule fold_err_additive [where m = "\<lambda>s. total_additions (stat_of s n)", OF _ f])
       (rule attribute_edge_effect(4))
  show "total_deletions (stat_of stats' n) =
           total_deletions (stat_of stats n)
             + (\<Sum>e\<leftarrow>languages_edges (repository rc).
                  if edge_name e = n
                  then of_int (ls_total_deletions (get_line_stats rc)) * edge_share rc e else 0)"
    by (rule fold_err_additive [where m = "\<lambda>s. total_deletions (stat_of s n)", OF _ f])
       (rule attribute_edge_effect(5))
  show "net_lines (stat_of stats' n) =
           net_lines (stat_of stats n)
             + (\<Sum>e\<leftarrow>languages_edges (repository rc).
                  if edge_name e = n
                  then of_int (ls_net_lines (get_line_stats rc)) * edge_share rc e else 0)"
    by (rule fold_err_additive [where m = "\<lambda>s. net_lines (stat_of s n)", OF _ f])
       (rule attribute_edge_effect(6))
qed

text \<open>A record passes the three filters or leaves the state as it is.\<close>

lemma process_repo_filtered:
  "\<not> survives opts rc \<Longrightarrow> process_repo opts lc rc st = Inr st"
  by (auto simp: process_repo_def survives_def Let_def)

lemma process_repo_survives:
  assumes "survives opts rc"
  shows "\<exists>stats'.
           attribute_weighted lc rc (attribute_primary lc rc (st_language_stats st)) = Inr stats'
           \<and> process_repo opts lc rc st =
               Inr (st\<lparr>st_total_repositories := st_total_repositories st + 1,
                        st_total_commits := st_total_commits st + repo_commits_of rc,
                        st_total_additions :=
                          st_total_additions st + ls_total_additions (get_line_stats rc),
                        st_total_deletions :=
                          st_total_deletions st + ls_total_deletions (get_line_stats rc),
                        st_language_stats := stats'\<rparr>)"
proof -
  obtain stats' where
    "attribute_weighted lc rc (attribute_primary lc rc (st_language_stats st)) = Inr stats'"
    using attribute_weighted_Inr by blast
  then show ?thesis
    using assms by (auto simp: process_repo_def survives_def Let_def)
qed

lemma process_repo_Inr: "\<exists>st'. process_repo opts lc rc st = Inr st'"
  using process_repo_filtered [of opts rc lc st] process_repo_survives [of opts rc lc st]
  by (cases "survives opts rc") auto

lemma process_repo_total_commits:
  assumes "process_repo opts lc rc st = Inr st'"
  shows "st_total_commits st' =
           st_total_commits st + (if survives opts rc then repo_commits_of rc else 0)"
  using assms process_repo_filtered [of opts rc lc st] process_repo_survives [of opts rc lc st]
  by (cases "survives opts rc") auto

lemma accumulate_Inr: "\<exists>st. accumulate opts lc rcs = Inr st"
  unfolding accumulate_def by (rule fold_err_total) (rule process_repo_Inr)

lemma accumulate_total_commits:
  assumes "accumulate opts lc rcs = Inr st"
  shows "st_total_commits st = sum_list (map repo_commits_of (filter (survives opts) rcs))"
proof -
  have "st_total_commits st =
          st_total_commits initial_state
            + (\<Sum>rc\<leftarrow>rcs. if survives opts rc then repo_commits_of rc else 0)"
    by (rule fold_err_additive [where m = st_total_commits, OF _ assms [unfolded accumulate_def]])
       (rule process_repo_total_commits)
  also have "(\<Sum>rc\<leftarrow>rcs. if survives opts rc then repo_commits_of rc else 0) =
          sum_list (map repo_commits_of (filter (survives opts) rcs))"
    by (induction rcs) auto
  finally show ?thesis by (simp add: initial_state_def)
qed

section \<open>What one record adds (generator.py)\<close>

lemma g_attribute_primary_effect:
  "commits (g_stat_of (g_attribute_primary C repo cc stats) n) =
     commits (g_stat_of stats n) + (if g_primary_is repo n then cc else 0)"
  "additions (g_stat_of (g_attribute_primary C repo cc stats) n) = additions (g_stat_of stats n)"
  "deletions (g_stat_of (g_attribute_primary C repo cc stats) n) = deletions (g_stat_of stats n)"
  by (auto simp: g_attribute_primary_def g_primary_is_def dd_get_upd Let_def split: option.splits)

lemma g_attribute_edge_Inr:
  "ts \<noteq> 0 \<Longrightarrow> \<exists>stats'. g_attribute_edge C cc ts edge stats = Inr stats'"
  by (simp add: g_attribute_edge_def Let_def float_truediv_def split: option.splits)

lemma g_attribute_edge_effect:
  assumes "g_attribute_edge C cc ts edge stats = Inr stats'" and "ts \<noteq> 0"
  shows "commits (g_stat_of stats' n) =
           commits (g_stat_of stats n)
             + (if edge_lang edge = Some n \<and> 0 < weighted_of cc ts edge
                then weighted_of cc ts edge else 0)"
    and "additions (g_stat_of stats' n) =
           additions (g_stat_of stats n)
             + (if edge_lang edge = Some n \<and> 0 < weighted_of cc ts edge
                then py_int (float_mul (size_of_edge edge) float_0_3) else 0)"
    and "deletions (g_stat_of stats' n) =
           deletions (g_stat_of stats n)
             + (if edge_lang edge = Some n \<and> 0 < weighted_of cc ts edge
                then py_int (float_mul (size_of_edge edge) float_0_1) else 0)"
  using assms
  by (auto simp: g_attribute_edge_def Let_def float_truediv_def dd_get_upd edge_lang_def
      weighted_of_def size_of_edge_def split: option.splits if_splits)

lemma g_attribute_weighted_cases:
  "g_attribute_weighted C repo cc stats =
     (if 0 < total_size_of (edges_of repo)
      then fold_err (g_attribute_edge C cc (total_size_of (edges_of repo))) (edges_of repo) stats
      else Inr stats)"
  by (auto simp: g_attribute_weighted_def edges_of_def total_size_of_def Let_def
      split: option.splits)

lemma g_attribute_weighted_Inr: "\<exists>stats'. g_attribute_weighted C repo cc stats = Inr stats'"
proof (cases "0 < total_size_of (edges_of repo)")
  case True
  then have "total_size_of (edges_of repo) \<noteq> 0" by simp
  then show ?thesis
    unfolding g_attribute_weighted_cases using True
    by (simp add: fold_err_total g_attribute_edge_Inr)
next
  case False
  then show ?thesis by (simp add: g_attribute_weighted_cases)
qed

lemma g_attribute_weighted_effect:
  assumes "g_attribute_weighted C repo cc stats = Inr stats'"
  shows "commits (g_stat_of stats' n) =
           commits (g_stat_of stats n)
             + (if 0 < total_size_of (edges_of repo)
                then \<Sum>edge\<leftarrow>edges_of repo.
                       if edge_lang edge = Some n
                          \<and> 0 < weighted_of cc (total_size_of (edges_of repo)) edge
                       then weighted_of cc (total_size_of (edges_of repo)) edge else 0
                else 0)"
    and "additions (g_stat_of stats' n) =
           additions (g_stat_of stats n)
             + (if 0 < total_size_of (edges_of repo)
                then \<Sum>edge\<leftarrow>edges_of repo.
                       if edge_lang edge = Some n
                          \<and> 0 < weighted_of cc (total_size_of (edges_of repo)) edge
                       then py_int (float_mul (size_of_edge edge) float_0_3) else 0
                else 0)"
    and "deletions (g_stat_of stats' n) =
           deletions (g_stat_of stats n)
             + (if 0 < total_size_of (edges_of repo)
                then \<Sum>edge\<leftarrow>edges_of repo.
                       if edge_lang edge = Some n
                          \<and> 0 < weighted_of cc (total_size_of (edges_of repo)) edge
                       then py_int (float_mul (size_of_edge edge) float_0_1) else 0
                else 0)"
proof -
  let ?ts = "total_size_of (edges_of repo)"
  show "commits (g_stat_of stats' n) =
           commits (g_stat_of stats n)
             + (if 0 < ?ts
                then \<Sum>edge\<leftarrow>edges_of repo.
                       if edge_lang edge = Some n \<and> 0 < weighted_of cc ?ts edge
                       then weighted_of cc ?ts edge else 0
                else 0)"
  proof (cases "0 < ?ts")
    case True
    then have f: "fold_err (g_attribute_edge C cc ?ts) (edges_of repo) stats = Inr stats'"
      and nz: "?ts \<noteq> 0"
      using assms by (simp_all add: g_attribute_weighted_cases)
    show ?thesis
      using fold_err_additive [where m = "\<lambda>s. commits (g_stat_of s n)", OF _ f]
        g_attribute_edge_effect(1) [OF _ nz] True by simp
  next
    case False
    then show ?thesis using assms by (simp add: g_attribute_weighted_cases)
  qed
  show "additions (g_stat_of stats' n) =
           additions (g_stat_of stats n)
             + (if 0 < ?ts
                then \<Sum>edge\<leftarrow>edges_of repo.
                       if edge_lang edge = Some n \<and> 0 < weighted_of cc ?ts edge
                       then py_int (float_mul (size_of_edge edge) float_0_3) else 0
                else 0)"
  proof (cases "0 < ?ts")
    case True
    then have f: "fold_err (g_attribute_edge C cc ?ts) (edges_of repo) stats = Inr stats'"
      and nz: "?ts \<noteq> 0"
      using assms by (simp_all add: g_attribute_weighted_cases)
    show ?thesis
      using fold_err_additive [where m = "\<lambda>s. additions (g_stat_of s n)", OF _ f]
        g_attribute_edge_effect(2) [OF _ nz] True by simp
  next
    case False
    then show ?thesis using assms by (simp add: g_attribute_weighted_cases)
  qed
  show "deletions (g_stat_of stats' n) =
           deletions (g_stat_of stats n)
             + (if 0 < ?ts
                then \<Sum>edge\<leftarrow>edges_of repo.
                       if edge_lang edge = Some n \<and> 0 < weighted_of cc ?ts edge
                       then py_int (float_mul (size_of_edge edge) float_0_1) else 0
                else 0)"
  proof (cases "0 < ?ts")
    case True
    then have f: "fold_err (g_attribute_edge C cc ?ts) (edges_of repo) stats = Inr stats'"
      and nz: "?ts \<noteq> 0"
      using assms by (simp_all add: g_attribute_weighted_cases)
    show ?thesis
      using fold_err_additive [where m = "\<lambda>s. deletions (g_stat_of s n)", OF _ f]
        g_attribute_edge_effect(3) [OF _ nz] True by simp
  next
    case False
    then show ?thesis using assms by (simp add: g_attribute_weighted_cases)
  qed
qed

lemma g_process_repo_Inr: "\<exists>stats'. g_process_repo C repo_contrib stats = Inr stats'"
  by (auto simp: g_process_repo_def Let_def g_attribute_weighted_Inr split: option.splits)

lemma weighted_of_zero [simp]: "weighted_of 0 ts edge = 0"
  by (simp add: weighted_of_def py_int_def)

lemma g_process_repo_effect:
  assumes "g_repository grc = Some repo"
  shows "\<exists>stats'. g_process_repo C (Some grc) stats = Inr stats'
           \<and> (\<forall>n. commits (g_stat_of stats' n) =
                    commits (g_stat_of stats n)
                      + (if g_primary_is repo n then get0 (g_totalCount grc) else 0)
                      + (if 0 < total_size_of (edges_of repo)
                         then \<Sum>edge\<leftarrow>edges_of repo.
                                if edge_lang edge = Some n
                                   \<and> 0 < weighted_of (get0 (g_totalCount grc))
                                           (total_size_of (edges_of repo)) edge
                                then weighted_of (get0 (g_totalCount grc))
                                       (total_size_of (edges_of repo)) edge
                                else 0
                         else 0)
                 \<and> additions (g_stat_of stats' n) =
                    additions (g_stat_of stats n)
                      + (if 0 < total_size_of (edges_of repo)
                         then \<Sum>edge\<leftarrow>edges_of repo.
                                if edge_lang edge = Some n
                                   \<and> 0 < weighted_of (get0 (g_totalCount grc))
                                           (total_size_of (edges_of repo)) edge
                                then py_int (float_mul (size_of_edge edge) float_0_3) else 0
                         else 0)
                 \<and> deletions (g_stat_of stats' n) =
                    deletions (g_stat_of stats n)
                      + (if 0 < total_size_of (edges_of repo)
                         then \<Sum>edge\<leftarrow>edges_of repo.
                                if edge_lang edge = Some n
                                   \<and> 0 < weighted_of (get0 (g_totalCount grc))
                                           (total_size_of (edges_of repo)) edge
                                then py_int (float_mul (size_of_edge edge) float_0_1) else 0
                         else 0))"
proof (cases "get0 (g_totalCount grc) = 0")
  case True
  then have "g_process_repo C (Some grc) stats = Inr stats"
    using assms by (simp add: g_process_repo_def)
  then show ?thesis using True by simp
next
  case False
  let ?cc = "get0 (g_totalCount grc)"
  obtain stats' where g: "g_attribute_weighted C repo ?cc (g_attribute_primary C repo ?cc stats) = Inr stats'"
    using g_attribute_weighted_Inr by blast
  have "g_process_repo C (Some grc) stats = Inr stats'"
    using assms False g by (simp add: g_process_repo_def)
  then show ?thesis
    using g_attribute_weighted_effect(1) [OF g] g_attribute_weighted_effect(2) [OF g]
      g_attribute_weighted_effect(3) [OF g]
      g_attribute_primary_effect(1) [of C repo ?cc stats]
      g_attribute_primary_effect(2) [of C repo ?cc stats]
      g_attribute_primary_effect(3) [of C repo ?cc stats]
    by simp
qed

section \<open>Attribution, separation, zero sizes, monotonicity, line estimates\<close>

lemma sum_list_shares:
  fixes T :: int
  assumes "0 < T" and "T = sum_list (map edge_size es)"
  shows "(\<Sum>e\<leftarrow>es. (of_int (edge_size e) :: rat) / of_int T * c) = c"
proof -
  have "(\<Sum>e\<leftarrow>es. (of_int (edge_size e) :: rat) / of_int T * c) =
          (\<Sum>e\<leftarrow>es. of_int (edge_size e) * (c / of_int T))"
    by (simp add: field_simps)
  also have "\<dots> = (\<Sum>e\<leftarrow>es. of_int (edge_size e)) * (c / of_int T)"
    by (rule sum_list_mult_const)
  also have "(\<Sum>e\<leftarrow>es. (of_int (edge_size e) :: rat)) = of_int (sum_list (map edge_size es))"
    by (induction es) simp_all
  finally show ?thesis using assms by simp
qed

text \<open>
  C1 (as amended). In \<^verbatim>\<open>analyze_languages\<close>, for a record that passes the filters,
  whose \<^verbatim>\<open>totalSize\<close> is positive and is the sum of the sizes of its edges, and whose
  edges name distinct languages, the weighted step adds to the \<^verbatim>\<open>weighted_commits\<close> of
  each declared language exactly its share (size / totalSize) of the record's commit
  count, and the amounts added by the record sum to its commit count (the floats of
  this program are exact rationals here). In \<^verbatim>\<open>get_user_data_multi_year\<close>, processing
  a record of a repository of positive total size adds to the \<^verbatim>\<open>commits\<close> of a language
  the commit count, if the language is the primary one, and for each edge that names the
  language \<^verbatim>\<open>int(commit_count * (size / total_size))\<close>, computed in double precision,
  where that is positive.
\<close>

theorem weighted_attribution_proportional:
  assumes "survives opts rc"
    and "0 < languages_totalSize (repository rc)"
    and "languages_totalSize (repository rc) = sum_list (map edge_size (languages_edges (repository rc)))"
    and "distinct (map edge_name (languages_edges (repository rc)))"
    and "g_repository grc = Some repo"
    and "0 < total_size_of (edges_of repo)"
  shows "(\<exists>st'. process_repo opts lc rc st = Inr st'
           \<and> (\<forall>e \<in> set (languages_edges (repository rc)).
                weighted_commits (stat_of (st_language_stats st') (edge_name e))
                  - weighted_commits (stat_of (st_language_stats st) (edge_name e))
                = of_int (edge_size e) / of_int (languages_totalSize (repository rc))
                    * of_int (repo_commits_of rc))
           \<and> (\<Sum>e\<leftarrow>languages_edges (repository rc).
                weighted_commits (stat_of (st_language_stats st') (edge_name e))
                  - weighted_commits (stat_of (st_language_stats st) (edge_name e)))
               = of_int (repo_commits_of rc))
       \<and> (\<exists>stats'. g_process_repo C (Some grc) stats = Inr stats'
           \<and> (\<forall>n. commits (g_stat_of stats' n) =
                  commits (g_stat_of stats n)
                    + (if g_primary_is repo n then get0 (g_totalCount grc) else 0)
                    + (\<Sum>edge\<leftarrow>edges_of repo.
                         if edge_lang edge = Some n
                            \<and> 0 < weighted_of (get0 (g_totalCount grc))
                                    (total_size_of (edges_of repo)) edge
                         then weighted_of (get0 (g_totalCount grc))
                                (total_size_of (edges_of repo)) edge
                         else 0)))"
proof (rule conjI)
  let ?es = "languages_edges (repository rc)"
  let ?T = "languages_totalSize (repository rc)"
  obtain stats' where w: "attribute_weighted lc rc (attribute_primary lc rc (st_language_stats st)) = Inr stats'"
    and p: "process_repo opts lc rc st =
               Inr (st\<lparr>st_total_repositories := st_total_repositories st + 1,
                        st_total_commits := st_total_commits st + repo_commits_of rc,
                        st_total_additions :=
                          st_total_additions st + ls_total_additions (get_line_stats rc),
                        st_total_deletions :=
                          st_total_deletions st + ls_total_deletions (get_line_stats rc),
                        st_language_stats := stats'\<rparr>)"
    using process_repo_survives [OF assms(1), of lc st] by blast
  have diff: "weighted_commits (stat_of stats' (edge_name e))
                - weighted_commits (stat_of (st_language_stats st) (edge_name e))
              = of_int (edge_size e) / of_int ?T * of_int (repo_commits_of rc)"
    if "e \<in> set ?es" for e
  proof -
    have "(\<Sum>x\<leftarrow>?es. if edge_name x = edge_name e
                     then of_int (repo_commits_of rc) * edge_share rc x else 0)
          = of_int (repo_commits_of rc) * edge_share rc e"
      by (rule sum_list_if_single [OF assms(4) that])
    then show ?thesis
      using attribute_weighted_effect(2) [OF w, of "edge_name e"]
        attribute_primary_effect(2) [of lc rc "st_language_stats st" "edge_name e"] assms(2)
      by (simp add: edge_share_def)
  qed
  have "(\<Sum>e\<leftarrow>?es. weighted_commits (stat_of stats' (edge_name e))
                  - weighted_commits (stat_of (st_language_stats st) (edge_name e)))
        = (\<Sum>e\<leftarrow>?es. of_int (edge_size e) / of_int ?T * of_int (repo_commits_of rc))"
    using diff by (intro arg_cong [where f = sum_list] map_cong refl) simp
  also have "\<dots> = of_int (repo_commits_of rc)"
    by (rule sum_list_shares [OF assms(2) assms(3)])
  finally show "\<exists>st'. process_repo opts lc rc st = Inr st'
           \<and> (\<forall>e \<in> set ?es.
                weighted_commits (stat_of (st_language_stats st') (edge_name e))
                  - weighted_commits (stat_of (st_language_stats st) (edge_name e))
                = of_int (edge_size e) / of_int ?T * of_int (repo_commits_of rc))
           \<and> (\<Sum>e\<leftarrow>?es.
                weighted_commits (stat_of (st_language_stats st') (edge_name e))
                  - weighted_commits (stat_of (st_language_stats st) (edge_name e)))
               = of_int (repo_commits_of rc)"
    using p diff by simp
next
  show "\<exists>stats'. g_process_repo C (Some grc) stats = Inr stats'
           \<and> (\<forall>n. commits (g_stat_of stats' n) =
                  commits (g_stat_of stats n)
                    + (if g_primary_is repo n then get0 (g_totalCount grc) else 0)
                    + (\<Sum>edge\<leftarrow>edges_of repo.
                         if edge_lang edge = Some n
                            \<and> 0 < weighted_of (get0 (g_totalCount grc))
                                    (total_size_of (edges_of repo)) edge
                         then weighted_of (get0 (g_totalCount grc))
                                (total_size_of (edges_of repo)) edge
                         else 0))"
    using g_process_repo_effect [OF assms(5), of C stats] assms(6) by auto
qed

lemma attribute_primary_other:
  "\<not> primary_is rc n \<Longrightarrow> stat_of (attribute_primary lc rc stats) n = stat_of stats n"
  by (auto simp: attribute_primary_def primary_is_def dd_get_upd Let_def split: option.splits)

text \<open>
  C4 (as amended). In \<^verbatim>\<open>analyze_languages\<close> the primary-language step changes the entry
  of the primary language only, adds the commit count to its \<^verbatim>\<open>total_commits\<close> and leaves
  \<^verbatim>\<open>weighted_commits\<close> and \<^verbatim>\<open>total_bytes\<close> of every language as they are; the
  weighted step leaves \<^verbatim>\<open>total_commits\<close> of every language as it is and adds the shares
  to \<^verbatim>\<open>weighted_commits\<close>. In \<^verbatim>\<open>get_user_data_multi_year\<close> there is one counter:
  processing a record adds to the \<^verbatim>\<open>commits\<close> of a language both the commit count, if
  the language is the primary one, and, if the total size is positive, the truncated
  double-precision shares \<^verbatim>\<open>int(commit_count * (size / total_size))\<close> of the edges
  that name it, where positive.
\<close>

theorem accumulators_separate:
  "(\<not> primary_is rc n \<longrightarrow> stat_of (attribute_primary lc rc stats) n = stat_of stats n)
   \<and> total_commits (stat_of (attribute_primary lc rc stats) n) =
       total_commits (stat_of stats n) + (if primary_is rc n then repo_commits_of rc else 0)
   \<and> weighted_commits (stat_of (attribute_primary lc rc stats) n) = weighted_commits (stat_of stats n)
   \<and> total_bytes (stat_of (attribute_primary lc rc stats) n) = total_bytes (stat_of stats n)
   \<and> (\<exists>stats'. attribute_weighted lc rc stats = Inr stats'
         \<and> total_commits (stat_of stats' n) = total_commits (stat_of stats n)
         \<and> weighted_commits (stat_of stats' n) =
             weighted_commits (stat_of stats n)
               + (\<Sum>e\<leftarrow>languages_edges (repository rc).
                    if edge_name e = n then of_int (repo_commits_of rc) * edge_share rc e else 0))
   \<and> (g_repository grc = Some repo \<longrightarrow>
       (\<exists>gstats'. g_process_repo C (Some grc) gstats = Inr gstats'
         \<and> commits (g_stat_of gstats' n) =
             commits (g_stat_of gstats n)
               + (if g_primary_is repo n then get0 (g_totalCount grc) else 0)
               + (if 0 < total_size_of (edges_of repo)
                  then \<Sum>edge\<leftarrow>edges_of repo.
                         if edge_lang edge = Some n
                            \<and> 0 < weighted_of (get0 (g_totalCount grc))
                                    (total_size_of (edges_of repo)) edge
                         then weighted_of (get0 (g_totalCount grc))
                                (total_size_of (edges_of repo)) edge
                         else 0
                  else 0)))"
proof (intro conjI impI)
  assume "\<not> primary_is rc n"
  then show "stat_of (attribute_primary lc rc stats) n = stat_of stats n"
    by (rule attribute_primary_other)
next
  show "total_commits (stat_of (attribute_primary lc rc stats) n) =
       total_commits (stat_of stats n) + (if primary_is rc n then repo_commits_of rc else 0)"
    by (rule attribute_primary_effect(1))
next
  show "weighted_commits (stat_of (attribute_primary lc rc stats) n) = weighted_commits (stat_of stats n)"
    by (rule attribute_primary_effect(2))
next
  show "total_bytes (stat_of (attribute_primary lc rc stats) n) = total_bytes (stat_of stats n)"
    by (rule attribute_primary_effect(3))
next
  obtain stats' where w: "attribute_weighted lc rc stats = Inr stats'"
    using attribute_weighted_Inr by blast
  then show "\<exists>stats'. attribute_weighted lc rc stats = Inr stats'
         \<and> total_commits (stat_of stats' n) = total_commits (stat_of stats n)
         \<and> weighted_commits (stat_of stats' n) =
             weighted_commits (stat_of stats n)
               + (\<Sum>e\<leftarrow>languages_edges (repository rc).
                    if edge_name e = n then of_int (repo_commits_of rc) * edge_share rc e else 0)"
    using attribute_weighted_effect(1) [OF w] attribute_weighted_effect(2) [OF w] by simp
next
  assume r: "g_repository grc = Some repo"
  show "\<exists>gstats'. g_process_repo C (Some grc) gstats = Inr gstats'
         \<and> commits (g_stat_of gstats' n) =
             commits (g_stat_of gstats n)
               + (if g_primary_is repo n then get0 (g_totalCount grc) else 0)
               + (if 0 < total_size_of (edges_of repo)
                  then \<Sum>edge\<leftarrow>edges_of repo.
                         if edge_lang edge = Some n
                            \<and> 0 < weighted_of (get0 (g_totalCount grc))
                                    (total_size_of (edges_of repo)) edge
                         then weighted_of (get0 (g_totalCount grc))
                                (total_size_of (edges_of repo)) edge
                         else 0
                  else 0)"
    using g_process_repo_effect [OF r, of C gstats] by auto
qed

lemma sum_list_zero_share:
  "languages_totalSize (repository rc) = 0 \<Longrightarrow>
     (\<Sum>e\<leftarrow>es. if edge_name e = n then (c :: rat) * edge_share rc e else 0) = 0"
  by (induction es) (simp_all add: edge_share_def)

text \<open>
  C5. For a record whose total declared size is 0 and whose primary language is \<open>X\<close>,
  with commit count \<open>c\<close>: in \<^verbatim>\<open>analyze_languages\<close> (for a record that passes the
  filters) the step returns without an error, \<open>X\<close>'s \<^verbatim>\<open>total_commits\<close> grows by \<open>c\<close>
  and no language's \<^verbatim>\<open>weighted_commits\<close> changes; in \<^verbatim>\<open>get_user_data_multi_year\<close> the
  step returns without an error, \<open>X\<close>'s \<^verbatim>\<open>commits\<close> grows by \<open>c\<close> and no other
  language's counter changes. A division by zero would be the value
  \<open>Inl ZeroDivisionError\<close>.
\<close>

theorem zero_size_safety:
  assumes "survives opts rc"
    and "languages_totalSize (repository rc) = 0"
    and "primaryLanguage (repository rc) = Some (X, col)"
    and "g_repository grc = Some repo"
    and "total_size_of (edges_of repo) = 0"
    and "g_primary_is repo X"
  shows "(\<exists>st'. process_repo opts lc rc st = Inr st'
           \<and> total_commits (stat_of (st_language_stats st') X) =
               total_commits (stat_of (st_language_stats st) X) + repo_commits_of rc
           \<and> (\<forall>n. weighted_commits (stat_of (st_language_stats st') n) =
                    weighted_commits (stat_of (st_language_stats st) n)))
       \<and> (\<exists>stats'. g_process_repo C (Some grc) stats = Inr stats'
           \<and> (\<forall>n. commits (g_stat_of stats' n) =
                    commits (g_stat_of stats n) + (if n = X then get0 (g_totalCount grc) else 0)))"
proof (rule conjI)
  obtain stats' where w: "attribute_weighted lc rc (attribute_primary lc rc (st_language_stats st)) = Inr stats'"
    and p: "process_repo opts lc rc st =
               Inr (st\<lparr>st_total_repositories := st_total_repositories st + 1,
                        st_total_commits := st_total_commits st + repo_commits_of rc,
                        st_total_additions :=
                          st_total_additions st + ls_total_additions (get_line_stats rc),
                        st_total_deletions :=
                          st_total_deletions st + ls_total_deletions (get_line_stats rc),
                        st_language_stats := stats'\<rparr>)"
    using process_repo_survives [OF assms(1), of lc st] by blast
  have "primary_is rc X" using assms(3) by (simp add: primary_is_def)
  then have tc: "total_commits (stat_of stats' X) =
               total_commits (stat_of (st_language_stats st) X) + repo_commits_of rc"
    using attribute_weighted_effect(1) [OF w, of X]
      attribute_primary_effect(1) [of lc rc "st_language_stats st" X] by simp
  have wc: "weighted_commits (stat_of stats' n) = weighted_commits (stat_of (st_language_stats st) n)" for n
    using attribute_weighted_effect(2) [OF w, of n]
      attribute_primary_effect(2) [of lc rc "st_language_stats st" n]
      sum_list_zero_share [OF assms(2)] by simp
  show "\<exists>st'. process_repo opts lc rc st = Inr st'
           \<and> total_commits (stat_of (st_language_stats st') X) =
               total_commits (stat_of (st_language_stats st) X) + repo_commits_of rc
           \<and> (\<forall>n. weighted_commits (stat_of (st_language_stats st') n) =
                    weighted_commits (stat_of (st_language_stats st) n))"
    using p tc wc by simp
next
  have prim: "g_primary_is repo n \<longleftrightarrow> n = X" for n
    using assms(6) by (auto simp: g_primary_is_def split: option.splits)
  have w: "g_attribute_weighted C repo cc s = Inr s" for cc s
    using assms(5) by (simp add: g_attribute_weighted_cases)
  show "\<exists>stats'. g_process_repo C (Some grc) stats = Inr stats'
           \<and> (\<forall>n. commits (g_stat_of stats' n) =
                    commits (g_stat_of stats n) + (if n = X then get0 (g_totalCount grc) else 0))"
  proof (cases "get0 (g_totalCount grc) = 0")
    case True
    then show ?thesis using assms(4) by (simp add: g_process_repo_def)
  next
    case False
    then have "g_process_repo C (Some grc) stats =
        Inr (g_attribute_primary C repo (get0 (g_totalCount grc)) stats)"
      using assms(4) by (simp add: g_process_repo_def w)
    then show ?thesis
      by (simp add: g_attribute_primary_effect(1) prim)
  qed
qed

lemma py_int_nonneg: "0 \<le> x \<Longrightarrow> 0 \<le> py_int x"
  by (simp add: py_int_def)

lemma py_int_floor: "0 \<le> x \<Longrightarrow> py_int x = \<lfloor>x\<rfloor>"
  by (simp add: py_int_def)

lemma py_int_pos_imp: "0 < py_int x \<Longrightarrow> 0 < x"
  by (cases "0 \<le> x") (auto simp: py_int_def not_le ceiling_le_zero dest: less_imp_le)

lemma sum_list_if_nonneg:
  fixes g :: "'b \<Rightarrow> 'a::ordered_comm_monoid_add"
  assumes "\<And>x. x \<in> set xs \<Longrightarrow> P x \<Longrightarrow> 0 \<le> g x"
  shows "0 \<le> (\<Sum>x\<leftarrow>xs. if P x then g x else 0)"
  by (rule sum_list_nonneg) (auto simp: assms)

lemma edge_share_nonneg: "0 \<le> edge_size e \<Longrightarrow> 0 \<le> edge_share rc e"
  by (simp add: edge_share_def)

lemma weighted_pos_size_pos:
  assumes "0 \<le> cc" and "0 < ts" and "0 < weighted_of cc ts edge"
  shows "0 \<le> size_of_edge edge"
proof -
  let ?p = "round_double (rat_of_int (size_of_edge edge) / rat_of_int ts)"
  have "0 < float_mul cc ?p"
    using assms(3) unfolding weighted_of_def by (rule py_int_pos_imp)
  then have "0 < rat_of_int cc * ?p"
    unfolding float_mul_def by (rule round_double_pos_imp)
  then have "0 < ?p" using assms(1) by (simp add: zero_less_mult_iff)
  then have "0 < rat_of_int (size_of_edge edge) / rat_of_int ts"
    by (rule round_double_pos_imp)
  then show ?thesis using assms(2) by (simp add: zero_less_divide_iff)
qed

lemma repo_commits_nonneg:
  "(\<And>c. c \<in> set (contributions_nodes rc) \<Longrightarrow> 0 \<le> commitCount c) \<Longrightarrow> 0 \<le> repo_commits_of rc"
  unfolding repo_commits_of_def by (rule sum_list_nonneg) auto

text \<open>
  C8 (as amended). For a record whose commit counts, byte sizes, additions and deletions
  are not negative, one more record never decreases a language's \<^verbatim>\<open>total_commits\<close>,
  \<^verbatim>\<open>weighted_commits\<close>, \<^verbatim>\<open>total_bytes\<close>, \<^verbatim>\<open>total_additions\<close> or
  \<^verbatim>\<open>total_deletions\<close> in \<^verbatim>\<open>analyze_languages\<close>, nor its \<^verbatim>\<open>commits\<close>,
  \<^verbatim>\<open>additions\<close> or \<^verbatim>\<open>deletions\<close> in \<^verbatim>\<open>get_user_data_multi_year\<close>.
  (\<^verbatim>\<open>net_lines\<close> is not among them.)
\<close>

theorem accumulators_monotone:
  assumes "\<forall>c \<in> set (contributions_nodes rc). 0 \<le> commitCount c"
    and "\<forall>e \<in> set (languages_edges (repository rc)). 0 \<le> edge_size e"
    and "0 \<le> ls_total_additions (get_line_stats rc)"
    and "0 \<le> ls_total_deletions (get_line_stats rc)"
    and "0 \<le> get0 (g_totalCount grc)"
  shows "(\<exists>st'. process_repo opts lc rc st = Inr st'
           \<and> (\<forall>n. total_commits (stat_of (st_language_stats st) n)
                      \<le> total_commits (stat_of (st_language_stats st') n)
                 \<and> weighted_commits (stat_of (st_language_stats st) n)
                      \<le> weighted_commits (stat_of (st_language_stats st') n)
                 \<and> total_bytes (stat_of (st_language_stats st) n)
                      \<le> total_bytes (stat_of (st_language_stats st') n)
                 \<and> total_additions (stat_of (st_language_stats st) n)
                      \<le> total_additions (stat_of (st_language_stats st') n)
                 \<and> total_deletions (stat_of (st_language_stats st) n)
                      \<le> total_deletions (stat_of (st_language_stats st') n)))
       \<and> (\<exists>stats'. g_process_repo C (Some grc) stats = Inr stats'
           \<and> (\<forall>n. commits (g_stat_of stats n) \<le> commits (g_stat_of stats' n)
                 \<and> additions (g_stat_of stats n) \<le> additions (g_stat_of stats' n)
                 \<and> deletions (g_stat_of stats n) \<le> deletions (g_stat_of stats' n)))"
proof (rule conjI)
  have rc0: "0 \<le> repo_commits_of rc" using assms(1) by (simp add: repo_commits_nonneg)
  have sh: "0 \<le> edge_share rc e" if "e \<in> set (languages_edges (repository rc))" for e
    using assms(2) that by (simp add: edge_share_nonneg)
  show "\<exists>st'. process_repo opts lc rc st = Inr st'
           \<and> (\<forall>n. total_commits (stat_of (st_language_stats st) n)
                      \<le> total_commits (stat_of (st_language_stats st') n)
                 \<and> weighted_commits (stat_of (st_language_stats st) n)
                      \<le> weighted_commits (stat_of (st_language_stats st') n)
                 \<and> total_bytes (stat_of (st_language_stats st) n)
                      \<le> total_bytes (stat_of (st_language_stats st') n)
                 \<and> total_additions (stat_of (st_language_stats st) n)
                      \<le> total_additions (stat_of (st_language_stats st') n)
                 \<and> total_deletions (stat_of (st_language_stats st) n)
                      \<le> total_deletions (stat_of (st_language_stats st') n))"
  proof (cases "survives opts rc")
    case False
    then show ?thesis by (simp add: process_repo_filtered)
  next
    case True
    let ?s0 = "st_language_stats st"
    let ?s1 = "attribute_primary lc rc ?s0"
    obtain stats' where w: "attribute_weighted lc rc ?s1 = Inr stats'"
      and p: "process_repo opts lc rc st =
               Inr (st\<lparr>st_total_repositories := st_total_repositories st + 1,
                        st_total_commits := st_total_commits st + repo_commits_of rc,
                        st_total_additions :=
                          st_total_additions st + ls_total_additions (get_line_stats rc),
                        st_total_deletions :=
                          st_total_deletions st + ls_total_deletions (get_line_stats rc),
                        st_language_stats := stats'\<rparr>)"
      using process_repo_survives [OF True, of lc st] by blast
    have a: "total_commits (stat_of ?s0 n) \<le> total_commits (stat_of stats' n)" for n
      using attribute_weighted_effect(1) [OF w, of n] attribute_primary_effect(1) [of lc rc ?s0 n]
        rc0 by simp
    have "0 \<le> (\<Sum>e\<leftarrow>languages_edges (repository rc).
                  if edge_name e = n then of_int (repo_commits_of rc) * edge_share rc e else 0)" for n
      by (rule sum_list_if_nonneg) (simp add: rc0 sh)
    then have b: "weighted_commits (stat_of ?s0 n) \<le> weighted_commits (stat_of stats' n)" for n
      using attribute_weighted_effect(2) [OF w, of n] attribute_primary_effect(2) [of lc rc ?s0 n]
      by simp
    have "0 \<le> (\<Sum>e\<leftarrow>languages_edges (repository rc). if edge_name e = n then edge_size e else 0)" for n
      by (rule sum_list_if_nonneg) (simp add: assms(2))
    then have c: "total_bytes (stat_of ?s0 n) \<le> total_bytes (stat_of stats' n)" for n
      using attribute_weighted_effect(3) [OF w, of n] attribute_primary_effect(3) [of lc rc ?s0 n]
      by simp
    have "0 \<le> (\<Sum>e\<leftarrow>languages_edges (repository rc).
                  if edge_name e = n
                  then of_int (ls_total_additions (get_line_stats rc)) * edge_share rc e else 0)" for n
      by (rule sum_list_if_nonneg) (simp add: assms(3) sh)
    then have d: "total_additions (stat_of ?s0 n) \<le> total_additions (stat_of stats' n)" for n
      using attribute_weighted_effect(4) [OF w, of n] attribute_primary_effect(4) [of lc rc ?s0 n]
        assms(3) by simp
    have "0 \<le> (\<Sum>e\<leftarrow>languages_edges (repository rc).
                  if edge_name e = n
                  then of_int (ls_total_deletions (get_line_stats rc)) * edge_share rc e else 0)" for n
      by (rule sum_list_if_nonneg) (simp add: assms(4) sh)
    then have e: "total_deletions (stat_of ?s0 n) \<le> total_deletions (stat_of stats' n)" for n
      using attribute_weighted_effect(5) [OF w, of n] attribute_primary_effect(5) [of lc rc ?s0 n]
        assms(4) by simp
    show ?thesis using p a b c d e by simp
  qed
next
  let ?cc = "get0 (g_totalCount grc)"
  show "\<exists>stats'. g_process_repo C (Some grc) stats = Inr stats'
           \<and> (\<forall>n. commits (g_stat_of stats n) \<le> commits (g_stat_of stats' n)
                 \<and> additions (g_stat_of stats n) \<le> additions (g_stat_of stats' n)
                 \<and> deletions (g_stat_of stats n) \<le> deletions (g_stat_of stats' n))"
  proof (cases "g_repository grc")
    case None
    then show ?thesis by (simp add: g_process_repo_def)
  next
    case (Some repo)
    show ?thesis
    proof (cases "?cc = 0")
      case True
      then show ?thesis using Some by (simp add: g_process_repo_def)
    next
      case False
      let ?ts = "total_size_of (edges_of repo)"
      let ?s1 = "g_attribute_primary C repo ?cc stats"
      obtain stats' where g: "g_attribute_weighted C repo ?cc ?s1 = Inr stats'"
        using g_attribute_weighted_Inr by blast
      have pr: "g_process_repo C (Some grc) stats = Inr stats'"
        using Some False g by (simp add: g_process_repo_def)
      have nn: "0 \<le> py_int (float_mul (size_of_edge edge) float_0_3)
              \<and> 0 \<le> py_int (float_mul (size_of_edge edge) float_0_1)"
        if "0 < ?ts" "0 < weighted_of ?cc ?ts edge" for edge
        using weighted_pos_size_pos [OF assms(5) that]
        by (simp add: py_int_nonneg float_mul_nonneg float_factors_nonneg)
      have "0 \<le> (\<Sum>edge\<leftarrow>edges_of repo.
                       if edge_lang edge = Some n \<and> 0 < weighted_of ?cc ?ts edge
                       then weighted_of ?cc ?ts edge else 0)" for n
        by (rule sum_list_if_nonneg) simp
      then have a: "commits (g_stat_of stats n) \<le> commits (g_stat_of stats' n)" for n
        using g_attribute_weighted_effect(1) [OF g, of n]
          g_attribute_primary_effect(1) [of C repo ?cc stats n] assms(5) by simp
      have "0 \<le> (\<Sum>edge\<leftarrow>edges_of repo.
                       if edge_lang edge = Some n \<and> 0 < weighted_of ?cc ?ts edge
                       then py_int (float_mul (size_of_edge edge) float_0_3) else 0)"
        if "0 < ?ts" for n
        by (rule sum_list_if_nonneg) (simp add: nn [OF that])
      then have b: "additions (g_stat_of stats n) \<le> additions (g_stat_of stats' n)" for n
        using g_attribute_weighted_effect(2) [OF g, of n]
          g_attribute_primary_effect(2) [of C repo ?cc stats n] by simp
      have "0 \<le> (\<Sum>edge\<leftarrow>edges_of repo.
                       if edge_lang edge = Some n \<and> 0 < weighted_of ?cc ?ts edge
                       then py_int (float_mul (size_of_edge edge) float_0_1) else 0)"
        if "0 < ?ts" for n
        by (rule sum_list_if_nonneg) (simp add: nn [OF that])
      then have c: "deletions (g_stat_of stats n) \<le> deletions (g_stat_of stats' n)" for n
        using g_attribute_weighted_effect(3) [OF g, of n]
          g_attribute_primary_effect(3) [of C repo ?cc stats n] by simp
      show ?thesis using pr a b c by simp
    qed
  qed
qed

text \<open>
  C10. In \<^verbatim>\<open>get_user_data_multi_year\<close>, processing a record of a repository of positive
  total size (and byte sizes that are not negative) adds to a language's \<^verbatim>\<open>additions\<close>
  and \<^verbatim>\<open>deletions\<close> the floors of \<^verbatim>\<open>size * 0.3\<close> and \<^verbatim>\<open>size * 0.1\<close>, the products
  being the double-precision ones of the program, for each edge that names the language
  and whose truncated weighted commit count \<^verbatim>\<open>int(commit_count * (size / total_size))\<close>
  is positive, and nothing else: the line counts are estimates from byte sizes.
\<close>

theorem line_estimates_from_bytes:
  assumes "g_repository grc = Some repo"
    and "0 < total_size_of (edges_of repo)"
    and "\<forall>edge \<in> set (edges_of repo). 0 \<le> size_of_edge edge"
  shows "\<exists>stats'. g_process_repo C (Some grc) stats = Inr stats'
           \<and> (\<forall>n. additions (g_stat_of stats' n) =
                    additions (g_stat_of stats n)
                      + (\<Sum>edge\<leftarrow>edges_of repo.
                           if edge_lang edge = Some n
                              \<and> 0 < weighted_of (get0 (g_totalCount grc))
                                      (total_size_of (edges_of repo)) edge
                           then \<lfloor>float_mul (size_of_edge edge) float_0_3\<rfloor> else 0)
                 \<and> deletions (g_stat_of stats' n) =
                    deletions (g_stat_of stats n)
                      + (\<Sum>edge\<leftarrow>edges_of repo.
                           if edge_lang edge = Some n
                              \<and> 0 < weighted_of (get0 (g_totalCount grc))
                                      (total_size_of (edges_of repo)) edge
                           then \<lfloor>float_mul (size_of_edge edge) float_0_1\<rfloor> else 0))"
proof -
  let ?ts = "total_size_of (edges_of repo)"
  let ?cc = "get0 (g_totalCount grc)"
  have fl: "py_int (float_mul (size_of_edge edge) q) = \<lfloor>float_mul (size_of_edge edge) q\<rfloor>"
    if "edge \<in> set (edges_of repo)" "0 \<le> q" for edge q
    using assms(3) that by (simp add: py_int_floor float_mul_nonneg)
  have a: "(\<Sum>edge\<leftarrow>edges_of repo.
             if edge_lang edge = Some n \<and> 0 < weighted_of ?cc ?ts edge
             then py_int (float_mul (size_of_edge edge) float_0_3) else 0)
         = (\<Sum>edge\<leftarrow>edges_of repo.
             if edge_lang edge = Some n \<and> 0 < weighted_of ?cc ?ts edge
             then \<lfloor>float_mul (size_of_edge edge) float_0_3\<rfloor> else 0)" for n
    by (intro arg_cong [where f = sum_list] map_cong refl)
       (simp add: fl float_factors_nonneg)
  have b: "(\<Sum>edge\<leftarrow>edges_of repo.
             if edge_lang edge = Some n \<and> 0 < weighted_of ?cc ?ts edge
             then py_int (float_mul (size_of_edge edge) float_0_1) else 0)
         = (\<Sum>edge\<leftarrow>edges_of repo.
             if edge_lang edge = Some n \<and> 0 < weighted_of ?cc ?ts edge
             then \<lfloor>float_mul (size_of_edge edge) float_0_1\<rfloor> else 0)" for n
    by (intro arg_cong [where f = sum_list] map_cong refl)
       (simp add: fl float_factors_nonneg)
  show ?thesis
    using g_process_repo_effect [OF assms(1), of C stats] assms(2) a b by auto
qed

section \<open>The attribution claims on concrete records\<close>

lemmas ex_defs = ex_opts_def ex_repo_def ex_rc_def g_ex_edge_def g_ex_repo_def

lemmas prev_eval =
  process_repo_def attribute_weighted_def attribute_edge_def attribute_primary_def
  lang_percentage_of_def py_truediv_def repo_commits_of_def get_line_stats_def or_else_def
  fallback_color_def dd_upd_def dd_get_def default_lang_stat_def initial_state_def
  survives_def primary_is_def edge_share_def bind_err_def Let_def

lemmas g_eval =
  g_process_repo_def g_attribute_weighted_def g_attribute_edge_def g_attribute_primary_def
  total_size_of_def edge_counts_def size_of_edge_def get0_def py_truediv_def py_int_def
  or_else_def g_fallback_color_def dd_upd_def dd_get_def g_default_def edges_of_def
  edge_lang_def weighted_of_def g_primary_is_def bind_err_def float_eval

text \<open>
  The rounding is the machine's: \<^verbatim>\<open>90 * (700 / 1000)\<close> is \<^verbatim>\<open>62.99999999999999\<close> and
  \<^verbatim>\<open>49 * (100 / 4900)\<close> and \<^verbatim>\<open>49 * (1 / 49)\<close> are \<^verbatim>\<open>0.9999999999999999\<close>, so the
  truncated amounts are 62, 0 and 0 where exact arithmetic gives 63, 1 and 1.
\<close>

lemma weighted_of_rounds_down:
  "weighted_of 90 1000 (g_ex_edge ''A'' 700) = 62
   \<and> weighted_of 49 4900 (g_ex_edge ''A'' 100) = 0
   \<and> weighted_of 49 49 (g_ex_edge ''A'' 1) = 0
   \<and> weighted_of 49 4900 (g_ex_edge ''B'' 4800) = 48"
  by (simp add: weighted_of_def g_ex_edge_def size_of_edge_def get0_def py_int_def float_eval)

text \<open>
  The example of the specification: bytes A 60 and B 40, commit count 10; A gains 6 and
  B gains 4 in both programs.
\<close>

theorem weighted_attribution_proportional_witness:
  "survives ex_opts (ex_rc (ex_repo (Some ''A'') [(''A'', 60), (''B'', 40)] 100) [4, 6] None)
   \<and> 0 < total_size_of (edges_of (g_ex_repo None [(''A'', 60), (''B'', 40)]))
   \<and> (\<exists>st'. process_repo ex_opts Map.empty
               (ex_rc (ex_repo (Some ''A'') [(''A'', 60), (''B'', 40)] 100) [4, 6] None)
               initial_state = Inr st'
         \<and> weighted_commits (stat_of (st_language_stats st') ''A'') = 6
         \<and> weighted_commits (stat_of (st_language_stats st') ''B'') = 4)
   \<and> (\<exists>stats'. g_process_repo Map.empty
               (Some \<lparr>g_repository = Some (g_ex_repo None [(''A'', 60), (''B'', 40)]),
                      g_totalCount = Some 10\<rparr>) [] = Inr stats'
         \<and> commits (g_stat_of stats' ''A'') = 6
         \<and> commits (g_stat_of stats' ''B'') = 4)"
proof -
  let ?rc = "ex_rc (ex_repo (Some ''A'') [(''A'', 60), (''B'', 40)] 100) [4, 6] None"
  let ?g = "g_ex_repo None [(''A'', 60), (''B'', 40)]"
  let ?grc = "\<lparr>g_repository = Some ?g, g_totalCount = Some 10\<rparr>"
  have h1: "survives ex_opts ?rc" by (simp add: ex_defs prev_eval)
  have h2: "0 < languages_totalSize (repository ?rc)" by (simp add: ex_defs)
  have h3: "languages_totalSize (repository ?rc) =
              sum_list (map edge_size (languages_edges (repository ?rc)))"
    by (simp add: ex_defs)
  have h4: "distinct (map edge_name (languages_edges (repository ?rc)))"
    by (simp add: ex_defs)
  have h5: "g_repository ?grc = Some ?g" by simp
  have h6: "0 < total_size_of (edges_of ?g)"
    by (simp add: ex_defs edges_of_def total_size_of_def edge_counts_def size_of_edge_def get0_def)
  note t = weighted_attribution_proportional [OF h1 h2 h3 h4 h5 h6,
      of Map.empty initial_state Map.empty "[]"]
  from t obtain st' where p: "process_repo ex_opts Map.empty ?rc initial_state = Inr st'"
    and d: "\<forall>e \<in> set (languages_edges (repository ?rc)).
              weighted_commits (stat_of (st_language_stats st') (edge_name e))
                - weighted_commits (stat_of (st_language_stats initial_state) (edge_name e))
              = of_int (edge_size e) / of_int (languages_totalSize (repository ?rc))
                  * of_int (repo_commits_of ?rc)"
    by blast
  from t obtain stats' where g: "g_process_repo Map.empty (Some ?grc) [] = Inr stats'"
    and c: "\<forall>n. commits (g_stat_of stats' n) =
                  commits (g_stat_of [] n)
                    + (if g_primary_is ?g n then get0 (g_totalCount ?grc) else 0)
                    + (\<Sum>edge\<leftarrow>edges_of ?g.
                         if edge_lang edge = Some n
                            \<and> 0 < weighted_of (get0 (g_totalCount ?grc))
                                    (total_size_of (edges_of ?g)) edge
                         then weighted_of (get0 (g_totalCount ?grc))
                                (total_size_of (edges_of ?g)) edge
                         else 0)"
    by blast
  have w: "weighted_of 10 100 (g_ex_edge ''A'' 60) = 6" "weighted_of 10 100 (g_ex_edge ''B'' 40) = 4"
    by (simp_all add: weighted_of_def g_ex_edge_def size_of_edge_def get0_def py_int_def float_eval)
  have "weighted_commits (stat_of (st_language_stats st') ''A'') = 6
      \<and> weighted_commits (stat_of (st_language_stats st') ''B'') = 4"
    using d by (simp add: ex_defs repo_commits_of_def initial_state_def default_lang_stat_def)
  moreover have "commits (g_stat_of stats' ''A'') = 6 \<and> commits (g_stat_of stats' ''B'') = 4"
    using c [rule_format, of "''A''"] c [rule_format, of "''B''"] w
    by (simp add: g_ex_repo_def edges_of_def total_size_of_def edge_counts_def size_of_edge_def
        get0_def edge_lang_def g_primary_is_def g_default_def g_ex_edge_def)
  ultimately show ?thesis using h1 h6 p g by blast
qed

text \<open>
  The claim as stated fails in \<^verbatim>\<open>get_user_data_multi_year\<close>, which truncates each
  language's amount: for bytes A 1 and B 1 and commit count 1 both shares are
  \<^verbatim>\<open>int(0.5) = 0\<close>, nothing is added to any language, and the amounts sum to 0, not 1.
  In \<^verbatim>\<open>analyze_languages\<close> the divisor is the \<^verbatim>\<open>totalSize\<close> of the response, while the
  query asks for the fifteen largest languages only: for fifteen edges of 6 bytes, a
  \<^verbatim>\<open>totalSize\<close> of 100 and 10 commits the amounts added sum to 9, not 10.
\<close>

theorem weighted_attribution_truncated_counterexample:
  "0 < total_size_of (edges_of (g_ex_repo None [(''A'', 1), (''B'', 1)]))
   \<and> g_attribute_weighted Map.empty (g_ex_repo None [(''A'', 1), (''B'', 1)]) 1 [] = Inr []
   \<and> g_process_repo Map.empty
       (Some \<lparr>g_repository = Some (g_ex_repo None [(''A'', 1), (''B'', 1)]), g_totalCount = Some 1\<rparr>) []
       = Inr []
   \<and> survives ex_opts (ex_rc (ex_repo None ex_fifteen 100) [4, 6] None)
   \<and> sum_list (map snd ex_fifteen) = 90
   \<and> map_sum id
       (\<lambda>st'. \<Sum>l\<leftarrow>map fst ex_fifteen. weighted_commits (stat_of (st_language_stats st') l))
       (process_repo ex_opts Map.empty (ex_rc (ex_repo None ex_fifteen 100) [4, 6] None)
          initial_state) = Inr 9"
proof -
  have a: "0 < total_size_of (edges_of (g_ex_repo None [(''A'', 1), (''B'', 1)]))
   \<and> g_attribute_weighted Map.empty (g_ex_repo None [(''A'', 1), (''B'', 1)]) 1 [] = Inr []
   \<and> g_process_repo Map.empty
       (Some \<lparr>g_repository = Some (g_ex_repo None [(''A'', 1), (''B'', 1)]), g_totalCount = Some 1\<rparr>) []
       = Inr []"
    by (simp add: ex_defs g_eval)
  have b: "survives ex_opts (ex_rc (ex_repo None ex_fifteen 100) [4, 6] None)"
    by (simp add: ex_defs survives_def repo_commits_of_def)
  have c: "sum_list (map snd ex_fifteen) = 90" by (simp add: ex_fifteen_def)
  have d: "map_sum id
       (\<lambda>st'. \<Sum>l\<leftarrow>map fst ex_fifteen. weighted_commits (stat_of (st_language_stats st') l))
       (process_repo ex_opts Map.empty (ex_rc (ex_repo None ex_fifteen 100) [4, 6] None)
          initial_state) = Inr 9"
    by (simp add: ex_defs ex_fifteen_def prev_eval)
  show ?thesis using a b c d by simp
qed

text \<open>
  On the record with primary language A, bytes A 60 and B 40 and 10 commits: the primary
  step leaves B's entry at the default and gives A 10 commits and no weighted commits; the
  weighted step alone gives A 6 weighted commits and no commits. In
  \<^verbatim>\<open>get_user_data_multi_year\<close> the same repository with 10 commits leaves A with
  10 + 6 = 16 commits and B with 4.
\<close>

theorem accumulators_separate_witness:
  "\<not> primary_is (ex_rc (ex_repo (Some ''A'') [(''A'', 60), (''B'', 40)] 100) [4, 6] None) ''B''
   \<and> stat_of (attribute_primary Map.empty
        (ex_rc (ex_repo (Some ''A'') [(''A'', 60), (''B'', 40)] 100) [4, 6] None) []) ''B''
       = default_lang_stat
   \<and> total_commits (stat_of (attribute_primary Map.empty
        (ex_rc (ex_repo (Some ''A'') [(''A'', 60), (''B'', 40)] 100) [4, 6] None) []) ''A'') = 10
   \<and> weighted_commits (stat_of (attribute_primary Map.empty
        (ex_rc (ex_repo (Some ''A'') [(''A'', 60), (''B'', 40)] 100) [4, 6] None) []) ''A'') = 0
   \<and> (\<exists>stats'. attribute_weighted Map.empty
         (ex_rc (ex_repo (Some ''A'') [(''A'', 60), (''B'', 40)] 100) [4, 6] None) [] = Inr stats'
         \<and> total_commits (stat_of stats' ''A'') = 0
         \<and> weighted_commits (stat_of stats' ''A'') = 6)
   \<and> (\<exists>gstats'. g_process_repo Map.empty
         (Some \<lparr>g_repository = Some (g_ex_repo (Some ''A'') [(''A'', 60), (''B'', 40)]),
                g_totalCount = Some 10\<rparr>) [] = Inr gstats'
         \<and> commits (g_stat_of gstats' ''A'') = 16
         \<and> commits (g_stat_of gstats' ''B'') = 4)"
proof -
  let ?rc = "ex_rc (ex_repo (Some ''A'') [(''A'', 60), (''B'', 40)] 100) [4, 6] None"
  let ?g = "g_ex_repo (Some ''A'') [(''A'', 60), (''B'', 40)]"
  let ?grc = "\<lparr>g_repository = Some ?g, g_totalCount = Some 10\<rparr>"
  have hg: "g_repository ?grc = Some ?g" by simp
  have nb: "\<not> primary_is ?rc ''B''" by (simp add: ex_defs primary_is_def)
  have pa: "primary_is ?rc ''A''" by (simp add: ex_defs primary_is_def)
  note tb = accumulators_separate [of ?rc "''B''" Map.empty "[]" ?grc ?g Map.empty "[]"]
  note ta = accumulators_separate [of ?rc "''A''" Map.empty "[]" ?grc ?g Map.empty "[]"]
  have w: "weighted_of 10 100 (g_ex_edge ''A'' 60) = 6" "weighted_of 10 100 (g_ex_edge ''B'' 40) = 4"
    by (simp_all add: weighted_of_def g_ex_edge_def size_of_edge_def get0_def py_int_def float_eval)
  from ta hg obtain ga where ga: "g_process_repo Map.empty (Some ?grc) [] = Inr ga"
    and ca: "commits (g_stat_of ga ''A'') =
               commits (g_stat_of [] ''A'')
                 + (if g_primary_is ?g ''A'' then get0 (g_totalCount ?grc) else 0)
                 + (if 0 < total_size_of (edges_of ?g)
                    then \<Sum>edge\<leftarrow>edges_of ?g.
                           if edge_lang edge = Some ''A''
                              \<and> 0 < weighted_of (get0 (g_totalCount ?grc))
                                      (total_size_of (edges_of ?g)) edge
                           then weighted_of (get0 (g_totalCount ?grc))
                                  (total_size_of (edges_of ?g)) edge
                           else 0
                    else 0)"
    by blast
  from tb hg obtain gb where gb: "g_process_repo Map.empty (Some ?grc) [] = Inr gb"
    and cb: "commits (g_stat_of gb ''B'') =
               commits (g_stat_of [] ''B'')
                 + (if g_primary_is ?g ''B'' then get0 (g_totalCount ?grc) else 0)
                 + (if 0 < total_size_of (edges_of ?g)
                    then \<Sum>edge\<leftarrow>edges_of ?g.
                           if edge_lang edge = Some ''B''
                              \<and> 0 < weighted_of (get0 (g_totalCount ?grc))
                                      (total_size_of (edges_of ?g)) edge
                           then weighted_of (get0 (g_totalCount ?grc))
                                  (total_size_of (edges_of ?g)) edge
                           else 0
                    else 0)"
    by blast
  have gab: "gb = ga" using ga gb by simp
  have g16: "commits (g_stat_of ga ''A'') = 16"
    using ca w
    by (simp add: g_ex_repo_def edges_of_def total_size_of_def edge_counts_def size_of_edge_def
        get0_def edge_lang_def g_primary_is_def g_default_def g_ex_edge_def)
  have g4: "commits (g_stat_of ga ''B'') = 4"
    using cb w unfolding gab
    by (simp add: g_ex_repo_def edges_of_def total_size_of_def edge_counts_def size_of_edge_def
        get0_def edge_lang_def g_primary_is_def g_default_def g_ex_edge_def)
  have "stat_of (attribute_primary Map.empty ?rc []) ''B'' = default_lang_stat"
    using tb nb by simp
  moreover have "total_commits (stat_of (attribute_primary Map.empty ?rc []) ''A'') = 10"
    using ta pa by (simp add: default_lang_stat_def ex_defs repo_commits_of_def)
  moreover have "weighted_commits (stat_of (attribute_primary Map.empty ?rc []) ''A'') = 0"
    using ta by (simp add: default_lang_stat_def)
  moreover from ta obtain stats' where w: "attribute_weighted Map.empty ?rc [] = Inr stats'"
    and tc: "total_commits (stat_of stats' ''A'') = total_commits (stat_of [] ''A'')"
    and wc: "weighted_commits (stat_of stats' ''A'') =
             weighted_commits (stat_of [] ''A'')
               + (\<Sum>e\<leftarrow>languages_edges (repository ?rc).
                    if edge_name e = ''A'' then of_int (repo_commits_of ?rc) * edge_share ?rc e else 0)"
    by blast
  have "total_commits (stat_of stats' ''A'') = 0" using tc by (simp add: default_lang_stat_def)
  moreover have "weighted_commits (stat_of stats' ''A'') = 6"
    using wc by (simp add: default_lang_stat_def ex_defs repo_commits_of_def edge_share_def)
  ultimately show ?thesis using nb w ga g16 g4 by blast
qed

text \<open>
  The claim as stated fails in \<^verbatim>\<open>get_user_data_multi_year\<close>: for a repository with
  primary language A, a single edge A and 4 commits, the primary step sets A's
  \<^verbatim>\<open>commits\<close> to 4 and the weighted step adds 4 more to the same counter.
\<close>

theorem single_commits_counter_counterexample:
  "commits (g_stat_of (g_attribute_primary Map.empty (g_ex_repo (Some ''A'') [(''A'', 1)]) 4 []) ''A'') = 4
   \<and> g_attribute_weighted Map.empty (g_ex_repo (Some ''A'') [(''A'', 1)]) 4
       (g_attribute_primary Map.empty (g_ex_repo (Some ''A'') [(''A'', 1)]) 4 [])
     = Inr [(''A'', \<lparr>commits = 8, additions = 0, deletions = 0, g_color = ''#000000''\<rparr>)]
   \<and> g_process_repo Map.empty
       (Some \<lparr>g_repository = Some (g_ex_repo (Some ''A'') [(''A'', 1)]), g_totalCount = Some 4\<rparr>) []
     = Inr [(''A'', \<lparr>commits = 8, additions = 0, deletions = 0, g_color = ''#000000''\<rparr>)]"
  by (simp add: ex_defs g_eval)

text \<open>
  The example of the specification: total size 0, primary language X, 5 commits.
\<close>

theorem zero_size_safety_witness:
  "survives ex_opts (ex_rc (ex_repo (Some ''X'') [(''X'', 0)] 0) [5] None)
   \<and> total_size_of (edges_of (g_ex_repo (Some ''X'') [(''X'', 0)])) = 0
   \<and> g_primary_is (g_ex_repo (Some ''X'') [(''X'', 0)]) ''X''
   \<and> (\<exists>st'. process_repo ex_opts Map.empty (ex_rc (ex_repo (Some ''X'') [(''X'', 0)] 0) [5] None)
               initial_state = Inr st'
         \<and> total_commits (stat_of (st_language_stats st') ''X'') = 5
         \<and> weighted_commits (stat_of (st_language_stats st') ''X'') = 0)
   \<and> (\<exists>stats'. g_process_repo Map.empty
           (Some \<lparr>g_repository = Some (g_ex_repo (Some ''X'') [(''X'', 0)]), g_totalCount = Some 5\<rparr>)
           [] = Inr stats'
         \<and> commits (g_stat_of stats' ''X'') = 5
         \<and> commits (g_stat_of stats' ''Y'') = 0)"
proof -
  let ?rc = "ex_rc (ex_repo (Some ''X'') [(''X'', 0)] 0) [5] None"
  let ?g = "g_ex_repo (Some ''X'') [(''X'', 0)]"
  let ?grc = "\<lparr>g_repository = Some ?g, g_totalCount = Some 5\<rparr>"
  have h1: "survives ex_opts ?rc" by (simp add: ex_defs survives_def repo_commits_of_def)
  have h2: "languages_totalSize (repository ?rc) = 0" by (simp add: ex_defs)
  have h3: "primaryLanguage (repository ?rc) = Some (''X'', None)" by (simp add: ex_defs)
  have h4: "g_repository ?grc = Some ?g" by simp
  have h5: "total_size_of (edges_of ?g) = 0"
    by (simp add: ex_defs edges_of_def total_size_of_def edge_counts_def)
  have h6: "g_primary_is ?g ''X''" by (simp add: ex_defs g_primary_is_def)
  note t = zero_size_safety [OF h1 h2 h3 h4 h5 h6, of Map.empty initial_state Map.empty "[]"]
  from t obtain st' where p: "process_repo ex_opts Map.empty ?rc initial_state = Inr st'"
    and tc: "total_commits (stat_of (st_language_stats st') ''X'') =
               total_commits (stat_of (st_language_stats initial_state) ''X'') + repo_commits_of ?rc"
    and wc: "\<forall>n. weighted_commits (stat_of (st_language_stats st') n) =
                    weighted_commits (stat_of (st_language_stats initial_state) n)"
    by blast
  from t obtain stats' where g: "g_process_repo Map.empty (Some ?grc) [] = Inr stats'"
    and c: "\<forall>n. commits (g_stat_of stats' n) =
                    commits (g_stat_of [] n) + (if n = ''X'' then get0 (g_totalCount ?grc) else 0)"
    by blast
  have "total_commits (stat_of (st_language_stats st') ''X'') = 5"
    using tc by (simp add: initial_state_def default_lang_stat_def ex_defs repo_commits_of_def)
  moreover have "weighted_commits (stat_of (st_language_stats st') ''X'') = 0"
    using wc by (simp add: initial_state_def default_lang_stat_def)
  moreover have "commits (g_stat_of stats' ''X'') = 5 \<and> commits (g_stat_of stats' ''Y'') = 0"
    using c by (simp add: g_default_def get0_def)
  ultimately show ?thesis using h1 h5 h6 p g by blast
qed

text \<open>
  The claim as stated fails for \<^verbatim>\<open>net_lines\<close>: a record with primary language X, no
  additions and 5 deletions (net lines \<open>-5\<close>) takes X's \<^verbatim>\<open>net_lines\<close> from 0 to \<open>-5\<close>.
\<close>

theorem net_lines_decrease_counterexample:
  "survives ex_opts (ex_rc (ex_repo (Some ''X'') [] 0) [1]
       (Some \<lparr>ls_total_additions = 0, ls_total_deletions = 5, ls_net_lines = - 5\<rparr>))
   \<and> net_lines (stat_of (st_language_stats initial_state) ''X'') = 0
   \<and> map_sum id (\<lambda>st'. net_lines (stat_of (st_language_stats st') ''X''))
       (process_repo ex_opts Map.empty
          (ex_rc (ex_repo (Some ''X'') [] 0) [1]
             (Some \<lparr>ls_total_additions = 0, ls_total_deletions = 5, ls_net_lines = - 5\<rparr>))
          initial_state) = Inr (- 5)"
  by (simp add: ex_defs prev_eval)

text \<open>
  A record with 10 commits, 7 additions and 9 deletions, applied to the empty state.
\<close>

theorem accumulators_monotone_witness:
  "(\<exists>st'. process_repo ex_opts Map.empty
         (ex_rc (ex_repo (Some ''A'') [(''A'', 60), (''B'', 40)] 100) [4, 6]
            (Some \<lparr>ls_total_additions = 7, ls_total_deletions = 9, ls_net_lines = - 2\<rparr>))
         initial_state = Inr st'
       \<and> 0 \<le> total_commits (stat_of (st_language_stats st') ''A'')
       \<and> 0 \<le> weighted_commits (stat_of (st_language_stats st') ''B'')
       \<and> 0 \<le> total_deletions (stat_of (st_language_stats st') ''A''))
   \<and> (\<exists>stats'. g_process_repo Map.empty
         (Some \<lparr>g_repository = Some (g_ex_repo (Some ''A'') [(''A'', 60), (''B'', 40)]),
                g_totalCount = Some 10\<rparr>) [] = Inr stats'
       \<and> 0 \<le> commits (g_stat_of stats' ''A'')
       \<and> 0 \<le> additions (g_stat_of stats' ''B''))"
proof -
  let ?rc = "ex_rc (ex_repo (Some ''A'') [(''A'', 60), (''B'', 40)] 100) [4, 6]
            (Some \<lparr>ls_total_additions = 7, ls_total_deletions = 9, ls_net_lines = - 2\<rparr>)"
  let ?grc = "\<lparr>g_repository = Some (g_ex_repo (Some ''A'') [(''A'', 60), (''B'', 40)]),
                g_totalCount = Some 10\<rparr>"
  have h1: "\<forall>c \<in> set (contributions_nodes ?rc). 0 \<le> commitCount c" by (simp add: ex_defs)
  have h2: "\<forall>e \<in> set (languages_edges (repository ?rc)). 0 \<le> edge_size e" by (simp add: ex_defs)
  have h3: "0 \<le> ls_total_additions (get_line_stats ?rc)" by (simp add: ex_defs get_line_stats_def)
  have h4: "0 \<le> ls_total_deletions (get_line_stats ?rc)" by (simp add: ex_defs get_line_stats_def)
  have h5: "0 \<le> get0 (g_totalCount ?grc)" by (simp add: get0_def)
  note t = accumulators_monotone [OF h1 h2 h3 h4 h5, of ex_opts Map.empty initial_state Map.empty "[]"]
  then show ?thesis
    by (simp add: initial_state_def default_lang_stat_def g_default_def) blast
qed

text \<open>
  A language whose weighted count is rounded below 1 gets no line estimates: for bytes
  A 100 and B 4800 and 49 commits, \<^verbatim>\<open>49 * (100 / 4900)\<close> is \<^verbatim>\<open>0.9999999999999999\<close>, A is
  skipped, and B gets 48 commits, \<^verbatim>\<open>int(4800 * 0.3) = 1440\<close> additions and
  \<^verbatim>\<open>int(4800 * 0.1) = 480\<close> deletions.
\<close>

lemma line_estimates_skip_rounded_down:
  "g_process_repo Map.empty
     (Some \<lparr>g_repository = Some (g_ex_repo None [(''A'', 100), (''B'', 4800)]),
            g_totalCount = Some 49\<rparr>) []
   = Inr [(''B'', \<lparr>commits = 48, additions = 1440, deletions = 480, g_color = ''#000000''\<rparr>)]"
  by (simp add: ex_defs g_eval)

text \<open>
  Bytes A 60 and B 40 and 10 commits: A gets 18 additions and 6 deletions, B gets 12 and 4.
\<close>

theorem line_estimates_from_bytes_witness:
  "0 < total_size_of (edges_of (g_ex_repo None [(''A'', 60), (''B'', 40)]))
   \<and> list_all (\<lambda>edge. 0 \<le> size_of_edge edge) (edges_of (g_ex_repo None [(''A'', 60), (''B'', 40)]))
   \<and> (\<exists>stats'. g_process_repo Map.empty
               (Some \<lparr>g_repository = Some (g_ex_repo None [(''A'', 60), (''B'', 40)]),
                      g_totalCount = Some 10\<rparr>) [] = Inr stats'
         \<and> additions (g_stat_of stats' ''A'') = 18 \<and> deletions (g_stat_of stats' ''A'') = 6
         \<and> additions (g_stat_of stats' ''B'') = 12 \<and> deletions (g_stat_of stats' ''B'') = 4)"
proof -
  let ?g = "g_ex_repo None [(''A'', 60), (''B'', 40)]"
  let ?grc = "\<lparr>g_repository = Some ?g, g_totalCount = Some 10\<rparr>"
  have h0: "g_repository ?grc = Some ?g" by simp
  have h1: "0 < total_size_of (edges_of ?g)"
    by (simp add: ex_defs edges_of_def total_size_of_def edge_counts_def size_of_edge_def get0_def)
  have h2: "\<forall>edge \<in> set (edges_of ?g). 0 \<le> size_of_edge edge"
    by (simp add: ex_defs edges_of_def size_of_edge_def get0_def)
  note t = line_estimates_from_bytes [OF h0 h1 h2, of Map.empty "[]"]
  from t obtain stats' where g: "g_process_repo Map.empty (Some ?grc) [] = Inr stats'"
    and a: "\<forall>n. additions (g_stat_of stats' n) =
                    additions (g_stat_of [] n)
                      + (\<Sum>edge\<leftarrow>edges_of ?g.
                           if edge_lang edge = Some n
                              \<and> 0 < weighted_of (get0 (g_totalCount ?grc))
                                      (total_size_of (edges_of ?g)) edge
                           then \<lfloor>float_mul (size_of_edge edge) float_0_3\<rfloor> else 0)
                 \<and> deletions (g_stat_of stats' n) =
                    deletions (g_stat_of [] n)
                      + (\<Sum>edge\<leftarrow>edges_of ?g.
                           if edge_lang edge = Some n
                              \<and> 0 < weighted_of (get0 (g_totalCount ?grc))
                                      (total_size_of (edges_of ?g)) edge
                           then \<lfloor>float_mul (size_of_edge edge) float_0_1\<rfloor> else 0)"
    by blast
  have w: "weighted_of 10 100 (g_ex_edge ''A'' 60) = 6" "weighted_of 10 100 (g_ex_edge ''B'' 40) = 4"
    by (simp_all add: weighted_of_def g_ex_edge_def size_of_edge_def get0_def py_int_def float_eval)
  have f: "\<lfloor>float_mul 60 float_0_3\<rfloor> = 18" "\<lfloor>float_mul 60 float_0_1\<rfloor> = 6"
    "\<lfloor>float_mul 40 float_0_3\<rfloor> = 12" "\<lfloor>float_mul 40 float_0_1\<rfloor> = 4"
    by (simp_all add: float_eval)
  have "additions (g_stat_of stats' ''A'') = 18 \<and> deletions (g_stat_of stats' ''A'') = 6
         \<and> additions (g_stat_of stats' ''B'') = 12 \<and> deletions (g_stat_of stats' ''B'') = 4"
    using a [rule_format, of "''A''"] a [rule_format, of "''B''"] w f
    by (simp add: g_ex_repo_def edges_of_def total_size_of_def edge_counts_def size_of_edge_def
        get0_def edge_lang_def g_default_def g_ex_edge_def)
  then show ?thesis using h1 h2 g unfolding list_all_iff by blast
qed

section \<open>Percentages and the order of the output\<close>

lemma sorted_reverse_set: "set (sorted_reverse key xs) = set xs"
  by (simp add: sorted_reverse_def)

lemma sorted_reverse_descending:
  "sorted_wrt (\<lambda>x y. key y \<le> key x) (sorted_reverse key xs)"
proof -
  have "sorted (map (\<lambda>x. - key x) (sort_key (\<lambda>x. - key x) xs))"
    by (rule sorted_sort_key)
  then show ?thesis by (simp add: sorted_reverse_def sorted_map)
qed

lemma sorted_reverse_stable:
  "filter (\<lambda>x. key x = k) (sorted_reverse key xs) = filter (\<lambda>x. key x = k) xs"
  using sort_key_stable [of "\<lambda>x. - key x" "- k" xs] by (simp add: sorted_reverse_def)

lemma map_err_rel:
  assumes "\<And>x. x \<in> set xs \<Longrightarrow> \<exists>y. f x = Inr y \<and> R x y"
  shows "\<exists>ys. map_err f xs = Inr ys \<and> list_all2 R xs ys"
  using assms
proof (induction xs)
  case Nil
  show ?case by simp
next
  case (Cons x xs)
  obtain y where y: "f x = Inr y" "R x y" using Cons.prems [of x] by auto
  obtain ys where ys: "map_err f xs = Inr ys" "list_all2 R xs ys"
    using Cons.IH Cons.prems by auto
  show ?case using y ys by simp
qed

lemma list_all2_filter_map:
  assumes "list_all2 R xs ys" and "\<And>x y. R x y \<Longrightarrow> P x = Q y \<and> g x = h y"
  shows "map h (filter Q ys) = map g (filter P xs)"
  using assms by (induction rule: list_all2_induct) auto

lemma list_all2_set_right:
  assumes "list_all2 R xs ys" and "y \<in> set ys"
  shows "\<exists>x \<in> set xs. R x y"
  using assms by (induction rule: list_all2_induct) auto

lemma final_stats_of_rel:
  "\<exists>fss. final_stats_of st = Inr fss \<and> list_all2 (finalizes st) (st_language_stats st) fss"
  unfolding final_stats_of_def
  by (rule map_err_rel)
     (auto simp: final_stat_of_def percentage_of_eq finalizes_def split: prod.splits)

lemma analyze_languages_result:
  assumes "cd_user data = Some u"
  shows "\<exists>st fss. accumulate opts lc (commitContributionsByRepository data) = Inr st
           \<and> final_stats_of st = Inr fss
           \<and> list_all2 (finalizes st) (st_language_stats st) fss
           \<and> analyze_languages opts lc data =
               Inr \<lparr>summary_total_commits = st_total_commits st,
                    summary_total_repositories = st_total_repositories st,
                    summary_total_additions = st_total_additions st,
                    summary_total_deletions = st_total_deletions st,
                    summary_net_lines = st_total_additions st - st_total_deletions st,
                    languages = sorted_reverse (\<lambda>x. f_weighted_commits (snd x)) fss\<rparr>"
proof -
  obtain st where st: "accumulate opts lc (commitContributionsByRepository data) = Inr st"
    using accumulate_Inr by blast
  obtain fss where fss: "final_stats_of st = Inr fss"
    "list_all2 (finalizes st) (st_language_stats st) fss"
    using final_stats_of_rel by blast
  show ?thesis using assms st fss by (simp add: analyze_languages_def)
qed

lemma prev_percentages:
  assumes "cd_user data = Some u"
  shows "\<exists>st res. accumulate opts lc (commitContributionsByRepository data) = Inr st
           \<and> analyze_languages opts lc data = Inr res
           \<and> summary_total_commits res = st_total_commits st
           \<and> (\<forall>x \<in> set (languages res).
                weighted_percentage (snd x) =
                  (if 0 < summary_total_commits res
                   then f_weighted_commits (snd x) / of_int (summary_total_commits res) * 100
                   else 0))
           \<and> sorted_wrt (\<lambda>x y. f_weighted_commits (snd y) \<le> f_weighted_commits (snd x))
               (languages res)
           \<and> (\<forall>k. map fst (filter (\<lambda>x. f_weighted_commits (snd x) = k) (languages res)) =
                    map fst (filter (\<lambda>x. weighted_commits (snd x) = k) (st_language_stats st)))"
proof -
  from analyze_languages_result [OF assms, of opts lc]
  obtain st fss where st: "accumulate opts lc (commitContributionsByRepository data) = Inr st"
    and rel: "list_all2 (finalizes st) (st_language_stats st) fss"
    and res: "analyze_languages opts lc data =
               Inr \<lparr>summary_total_commits = st_total_commits st,
                    summary_total_repositories = st_total_repositories st,
                    summary_total_additions = st_total_additions st,
                    summary_total_deletions = st_total_deletions st,
                    summary_net_lines = st_total_additions st - st_total_deletions st,
                    languages = sorted_reverse (\<lambda>x. f_weighted_commits (snd x)) fss\<rparr>"
    by blast
  have pct: "weighted_percentage (snd x) =
                  (if 0 < st_total_commits st
                   then f_weighted_commits (snd x) / of_int (st_total_commits st) * 100 else 0)"
    if "x \<in> set fss" for x
    using list_all2_set_right [OF rel that] by (auto simp: finalizes_def)
  have stable: "map fst (filter (\<lambda>x. f_weighted_commits (snd x) = k) fss) =
                map fst (filter (\<lambda>x. weighted_commits (snd x) = k) (st_language_stats st))" for k
    by (rule list_all2_filter_map [OF rel]) (simp add: finalizes_def)
  show ?thesis
    using st res pct stable
    by (simp add: sorted_reverse_set sorted_reverse_descending sorted_reverse_stable)
qed

section \<open>The loop over the years (generator.py)\<close>

lemma process_year_raises:
  "raises (api y) \<Longrightarrow> process_year C api y st = Inl RequestRaised"
  by (auto simp: process_year_def raises_def split: http_result.splits option.splits)

lemma process_year_skipped:
  "\<not> raises (api y) \<Longrightarrow> year_data_of (api y) = None \<Longrightarrow>
     process_year C api y st = Inr (warn y (warning_of (api y)) st)"
  by (auto simp: process_year_def raises_def year_data_of_def payload_of_def warning_of_def
      split: http_result.splits option.splits if_splits)

lemma process_year_fetched:
  assumes "year_data_of (api y) = Some yd"
  shows "\<exists>stats. fold_err (g_process_repo C) (g_commitContributionsByRepository yd)
                   (g_language_stats st) = Inr stats
           \<and> process_year C api y st =
               Inr (st\<lparr>g_contributions_data := g_contributions_data st @ [(y, yd)],
                        g_total_commits := g_total_commits st + get0 (totalCommitContributions yd),
                        g_language_stats := stats\<rparr>)"
proof -
  obtain stats where f: "fold_err (g_process_repo C) (g_commitContributionsByRepository yd)
                   (g_language_stats st) = Inr stats"
    using fold_err_total [of "g_commitContributionsByRepository yd" "g_process_repo C"]
      g_process_repo_Inr by blast
  have "process_year C api y st =
               Inr (st\<lparr>g_contributions_data := g_contributions_data st @ [(y, yd)],
                        g_total_commits := g_total_commits st + get0 (totalCommitContributions yd),
                        g_language_stats := stats\<rparr>)"
    using assms f
    by (auto simp: process_year_def year_data_of_def payload_of_def Let_def
        split: http_result.splits option.splits if_splits)
  then show ?thesis using f by blast
qed

lemma process_year_total_commits:
  assumes "process_year C api y st = Inr st'"
  shows "g_total_commits st' = g_total_commits st + year_commits_of (api y)"
proof (cases "year_data_of (api y)")
  case None
  have "\<not> raises (api y)" using assms process_year_raises [of api y C st] by auto
  then show ?thesis
    using assms None process_year_skipped [of api y C st]
    by (auto simp: warn_def year_commits_of_def)
next
  case (Some yd)
  then show ?thesis
    using assms process_year_fetched [of api y yd C st, OF Some] by (auto simp: year_commits_of_def)
qed

lemma years_loop_skips:
  assumes "\<forall>y \<in> set ys. \<not> raises (api y)"
    and "g_total_commits s = g_total_commits t"
    and "g_language_stats s = g_language_stats t"
    and "g_contributions_data s = g_contributions_data t"
  shows "\<exists>s' t'. fold_err (process_year C api) ys s = Inr s'
           \<and> fold_err (process_year C api) (filter (\<lambda>y. year_data_of (api y) \<noteq> None) ys) t = Inr t'
           \<and> g_total_commits s' = g_total_commits t'
           \<and> g_language_stats s' = g_language_stats t'
           \<and> g_contributions_data s' = g_contributions_data t'
           \<and> g_warnings t' = g_warnings t
           \<and> g_warnings s' =
               g_warnings s
                 @ map (\<lambda>y. (y, warning_of (api y))) (filter (\<lambda>y. year_data_of (api y) = None) ys)"
  using assms
proof (induction ys arbitrary: s t)
  case Nil
  then show ?case by simp
next
  case (Cons y ys)
  have nr: "\<not> raises (api y)" and rest: "\<forall>y \<in> set ys. \<not> raises (api y)"
    using Cons.prems(1) by simp_all
  show ?case
  proof (cases "year_data_of (api y)")
    case None
    let ?s1 = "warn y (warning_of (api y)) s"
    have s1: "process_year C api y s = Inr ?s1"
      by (rule process_year_skipped [of api y C s, OF nr None])
    obtain s' t' where r: "fold_err (process_year C api) ys ?s1 = Inr s'"
      "fold_err (process_year C api) (filter (\<lambda>y. year_data_of (api y) \<noteq> None) ys) t = Inr t'"
      "g_total_commits s' = g_total_commits t'"
      "g_language_stats s' = g_language_stats t'"
      "g_contributions_data s' = g_contributions_data t'"
      "g_warnings t' = g_warnings t"
      "g_warnings s' =
         g_warnings ?s1
           @ map (\<lambda>y. (y, warning_of (api y))) (filter (\<lambda>y. year_data_of (api y) = None) ys)"
      using Cons.IH [OF rest, of ?s1 t] Cons.prems(2-4) by (auto simp: warn_def)
    show ?thesis
      using s1 r None by (simp add: warn_def)
  next
    case (Some yd)
    obtain stats where f: "fold_err (g_process_repo C) (g_commitContributionsByRepository yd)
                   (g_language_stats s) = Inr stats"
      and s1: "process_year C api y s =
               Inr (s\<lparr>g_contributions_data := g_contributions_data s @ [(y, yd)],
                        g_total_commits := g_total_commits s + get0 (totalCommitContributions yd),
                        g_language_stats := stats\<rparr>)"
      using process_year_fetched [of api y yd C s, OF Some] by blast
    let ?s1 = "s\<lparr>g_contributions_data := g_contributions_data s @ [(y, yd)],
                        g_total_commits := g_total_commits s + get0 (totalCommitContributions yd),
                        g_language_stats := stats\<rparr>"
    let ?t1 = "t\<lparr>g_contributions_data := g_contributions_data t @ [(y, yd)],
                        g_total_commits := g_total_commits t + get0 (totalCommitContributions yd),
                        g_language_stats := stats\<rparr>"
    have t1: "process_year C api y t = Inr ?t1"
      using process_year_fetched [of api y yd C t, OF Some] f Cons.prems(3) by auto
    obtain s' t' where r: "fold_err (process_year C api) ys ?s1 = Inr s'"
      "fold_err (process_year C api) (filter (\<lambda>y. year_data_of (api y) \<noteq> None) ys) ?t1 = Inr t'"
      "g_total_commits s' = g_total_commits t'"
      "g_language_stats s' = g_language_stats t'"
      "g_contributions_data s' = g_contributions_data t'"
      "g_warnings t' = g_warnings ?t1"
      "g_warnings s' =
         g_warnings ?s1
           @ map (\<lambda>y. (y, warning_of (api y))) (filter (\<lambda>y. year_data_of (api y) = None) ys)"
      using Cons.IH [OF rest, of ?s1 ?t1] Cons.prems(2-4) by auto
    show ?thesis
      using s1 t1 r Some by simp
  qed
qed

lemma get_user_data_multi_year_cases:
  "get_user_data_multi_year C user_response api cy yb =
     (case payload_of user_response of
        None \<Rightarrow>
          Inl (case user_response of
                 Raised \<Rightarrow> RequestRaised
               | Response r \<Rightarrow>
                   if status_code r \<noteq> 200 then QueryFailed (status_code r)
                   else (case json r of
                           None \<Rightarrow> RequestRaised
                         | Some b \<Rightarrow> if has_errors b then GraphQLErrors else UserNotFound))
      | Some user_data \<Rightarrow>
          bind_err (fold_err (process_year C api) [cy - yb + 1 .. cy] g_initial)
            (\<lambda>st. Inr (user_data, st)))"
  by (auto simp: get_user_data_multi_year_def payload_of_def
      split: http_result.splits option.splits)

section \<open>Percentages, totals and failed years\<close>

lemma calculate_language_percentages_result:
  "\<exists>ps. calculate_language_percentages stats = Inr ps
     \<and> (commits_sum stats = 0 \<longrightarrow> ps = [])
     \<and> (commits_sum stats \<noteq> 0 \<longrightarrow>
          (\<forall>x \<in> set ps. percentage (snd x) =
               of_int (p_commits (snd x)) / of_int (commits_sum stats) * 100)
          \<and> sorted_wrt (\<lambda>x y. percentage (snd y) \<le> percentage (snd x)) ps
          \<and> (\<forall>k. map fst (filter (\<lambda>x. percentage (snd x) = k) ps) =
                   map fst (filter (\<lambda>x. percent_of stats x = k)
                              (filter (\<lambda>x. 0 < commits (snd x)) stats))))"
proof (cases "commits_sum stats = 0")
  case True
  then show ?thesis
    by (simp add: calculate_language_percentages_def commits_sum_def case_prod_unfold)
next
  case False
  let ?T = "commits_sum stats"
  let ?xs = "filter (\<lambda>x. 0 < commits (snd x)) stats"
  let ?R = "\<lambda>x y. fst y = fst x \<and> p_commits (snd y) = commits (snd x)
                \<and> percentage (snd y) = percent_of stats x"
  let ?f = "\<lambda>(lang, stats'). bind_err (py_truediv (of_int (commits stats')) (of_int ?T))
                     (\<lambda>q. Inr (lang,
                        \<lparr>percentage = q * 100, p_commits = commits stats',
                         p_additions = additions stats', p_deletions = deletions stats',
                         p_net = additions stats' - deletions stats', p_color = g_color stats'\<rparr>))"
  have "\<exists>ys. map_err ?f ?xs = Inr ys \<and> list_all2 ?R ?xs ys"
    by (rule map_err_rel) (use False in \<open>auto simp: py_truediv_def percent_of_def\<close>)
  then obtain ys where ys: "map_err ?f ?xs = Inr ys" and rel: "list_all2 ?R ?xs ys" by blast
  have res: "calculate_language_percentages stats =
          Inr (sorted_reverse (\<lambda>x. percentage (snd x)) ys)"
    using False ys
    by (simp add: calculate_language_percentages_def commits_sum_def case_prod_unfold)
  have pct: "percentage (snd y) = of_int (p_commits (snd y)) / of_int ?T * 100"
    if "y \<in> set ys" for y
    using list_all2_set_right [OF rel that] by (auto simp: percent_of_def)
  have stable: "map fst (filter (\<lambda>x. percentage (snd x) = k) ys) =
                map fst (filter (\<lambda>x. percent_of stats x = k) ?xs)" for k
    by (rule list_all2_filter_map [OF rel]) simp
  show ?thesis
    using False res pct stable
    by (simp add: sorted_reverse_set sorted_reverse_descending sorted_reverse_stable)
qed

text \<open>
  C3 (as amended). In \<^verbatim>\<open>analyze_languages\<close> every language of the output has
  \<^verbatim>\<open>weighted_percentage\<close> = its \<^verbatim>\<open>weighted_commits\<close> / the run-level total commit count
  \<open>\<times>\<close> 100 when that total is positive (0 otherwise); the output is in descending order
  of \<^verbatim>\<open>weighted_commits\<close>, and the languages with the same value keep the order in which
  they were first accumulated. In \<^verbatim>\<open>calculate_language_percentages\<close> (generator.py) the
  denominator is not the run-level total: the percentage of a language is its
  \<^verbatim>\<open>commits\<close> counter / the sum of all languages' counters \<open>\<times>\<close> 100; languages without
  commits are left out, the order is descending by percentage, and ties keep the order of
  accumulation.
\<close>

theorem percentages_from_weighted_commits:
  assumes "cd_user data = Some u"
  shows "(\<exists>st res. accumulate opts lc (commitContributionsByRepository data) = Inr st
           \<and> analyze_languages opts lc data = Inr res
           \<and> summary_total_commits res = st_total_commits st
           \<and> (\<forall>x \<in> set (languages res).
                weighted_percentage (snd x) =
                  (if 0 < summary_total_commits res
                   then f_weighted_commits (snd x) / of_int (summary_total_commits res) * 100
                   else 0))
           \<and> sorted_wrt (\<lambda>x y. f_weighted_commits (snd y) \<le> f_weighted_commits (snd x))
               (languages res)
           \<and> (\<forall>k. map fst (filter (\<lambda>x. f_weighted_commits (snd x) = k) (languages res)) =
                    map fst (filter (\<lambda>x. weighted_commits (snd x) = k) (st_language_stats st))))
       \<and> (\<exists>ps. calculate_language_percentages stats = Inr ps
           \<and> (commits_sum stats = 0 \<longrightarrow> ps = [])
           \<and> (commits_sum stats \<noteq> 0 \<longrightarrow>
                (\<forall>x \<in> set ps. percentage (snd x) =
                     of_int (p_commits (snd x)) / of_int (commits_sum stats) * 100)
                \<and> sorted_wrt (\<lambda>x y. percentage (snd y) \<le> percentage (snd x)) ps
                \<and> (\<forall>k. map fst (filter (\<lambda>x. percentage (snd x) = k) ps) =
                         map fst (filter (\<lambda>x. percent_of stats x = k)
                                    (filter (\<lambda>x. 0 < commits (snd x)) stats)))))"
  using prev_percentages [OF assms] calculate_language_percentages_result by blast

text \<open>
  C2 (as amended). In \<^verbatim>\<open>analyze_languages\<close> the run-level total commit count is the sum
  of the raw commit counts of exactly the records that pass the three filters, whatever
  their languages. In \<^verbatim>\<open>get_user_data_multi_year\<close>, which has no filters, the total is
  the sum of the \<^verbatim>\<open>totalCommitContributions\<close> of the years that were fetched; it is not
  computed from the per-repository counts.
\<close>

theorem run_total_is_sum_of_raw_counts:
  assumes "cd_user data = Some u"
  shows "(\<exists>res. analyze_languages opts lc data = Inr res
           \<and> summary_total_commits res =
               sum_list (map repo_commits_of
                 (filter (survives opts) (commitContributionsByRepository data))))
       \<and> (\<forall>u' st. get_user_data_multi_year C user_response api cy yb = Inr (u', st) \<longrightarrow>
             g_total_commits st = (\<Sum>y\<leftarrow>[cy - yb + 1 .. cy]. year_commits_of (api y)))"
proof (intro conjI allI impI)
  from analyze_languages_result [OF assms, of opts lc]
  obtain st res where st: "accumulate opts lc (commitContributionsByRepository data) = Inr st"
    and res: "analyze_languages opts lc data = Inr res"
      "summary_total_commits res = st_total_commits st"
    by force
  show "\<exists>res. analyze_languages opts lc data = Inr res
           \<and> summary_total_commits res =
               sum_list (map repo_commits_of
                 (filter (survives opts) (commitContributionsByRepository data)))"
    using res accumulate_total_commits [OF st] by simp
next
  fix u' st
  assume r: "get_user_data_multi_year C user_response api cy yb = Inr (u', st)"
  then have f: "fold_err (process_year C api) [cy - yb + 1 .. cy] g_initial = Inr st"
    by (auto simp: get_user_data_multi_year_cases bind_err_eq_Inr split: option.splits)
  have "g_total_commits st =
          g_total_commits g_initial + (\<Sum>y\<leftarrow>[cy - yb + 1 .. cy]. year_commits_of (api y))"
    by (rule fold_err_additive [where m = g_total_commits, OF _ f])
       (rule process_year_total_commits)
  then show "g_total_commits st = (\<Sum>y\<leftarrow>[cy - yb + 1 .. cy]. year_commits_of (api y))"
    by (simp add: g_initial_def)
qed

text \<open>
  C6 (as amended). In \<^verbatim>\<open>get_user_data_multi_year\<close>: when the user query gives no user
  (a status other than 200, an error list, no user object, or an exception), the run
  aborts and \<^verbatim>\<open>main\<close> exits with code 1. When it gives a user and no request of a year
  raises, every year whose response has a status other than 200, an error list, no user
  object or no contributions collection is reported with a warning and skipped: the
  function returns, the warnings are the ones of those years, in order, the totals, the language
  statistics and the per-year data are those of the loop over the other years alone, and
  \<^verbatim>\<open>main\<close> exits with code 0 (with a token, and when rendering does not raise).
\<close>

theorem year_failures_skipped:
  "(payload_of user_response = None \<longrightarrow>
      (\<exists>e. get_user_data_multi_year C user_response api cy yb = Inl e)
      \<and> g_main token (get_user_data_multi_year C user_response api cy yb) render = 1)
   \<and> (payload_of user_response = Some u \<and> (\<forall>y \<in> set [cy - yb + 1 .. cy]. \<not> raises (api y)) \<longrightarrow>
      (\<exists>st st2.
         get_user_data_multi_year C user_response api cy yb = Inr (u, st)
         \<and> g_warnings st =
             map (\<lambda>y. (y, warning_of (api y)))
               (filter (\<lambda>y. year_data_of (api y) = None) [cy - yb + 1 .. cy])
         \<and> fold_err (process_year C api)
             (filter (\<lambda>y. year_data_of (api y) \<noteq> None) [cy - yb + 1 .. cy]) g_initial = Inr st2
         \<and> g_warnings st2 = []
         \<and> g_total_commits st = g_total_commits st2
         \<and> g_language_stats st = g_language_stats st2
         \<and> g_contributions_data st = g_contributions_data st2
         \<and> g_main (Some tok) (get_user_data_multi_year C user_response api cy yb) (\<lambda>d. Inr ())
             = (if tok = [] then 1 else 0)))"
proof (intro conjI impI)
  assume n: "payload_of user_response = None"
  then show "\<exists>e. get_user_data_multi_year C user_response api cy yb = Inl e"
    by (simp add: get_user_data_multi_year_cases)
  from n show "g_main token (get_user_data_multi_year C user_response api cy yb) render = 1"
    by (simp add: get_user_data_multi_year_cases g_main_def split: option.splits)
next
  assume a: "payload_of user_response = Some u \<and> (\<forall>y \<in> set [cy - yb + 1 .. cy]. \<not> raises (api y))"
  let ?ys = "[cy - yb + 1 .. cy]"
  from a have nr: "\<forall>y \<in> set ?ys. \<not> raises (api y)" by simp
  obtain s' t' where r: "fold_err (process_year C api) ?ys g_initial = Inr s'"
      "fold_err (process_year C api) (filter (\<lambda>y. year_data_of (api y) \<noteq> None) ?ys) g_initial = Inr t'"
      "g_total_commits s' = g_total_commits t'"
      "g_language_stats s' = g_language_stats t'"
      "g_contributions_data s' = g_contributions_data t'"
      "g_warnings t' = g_warnings g_initial"
      "g_warnings s' =
         g_warnings g_initial
           @ map (\<lambda>y. (y, warning_of (api y))) (filter (\<lambda>y. year_data_of (api y) = None) ?ys)"
    using years_loop_skips [OF nr, of g_initial g_initial C] by blast
  have g: "get_user_data_multi_year C user_response api cy yb = Inr (u, s')"
    using a r(1) by (simp add: get_user_data_multi_year_cases)
  have m: "g_main (Some tok) (get_user_data_multi_year C user_response api cy yb) (\<lambda>d. Inr ())
             = (if tok = [] then 1 else 0)"
    by (simp add: g g_main_def)
  show "\<exists>st st2.
         get_user_data_multi_year C user_response api cy yb = Inr (u, st)
         \<and> g_warnings st =
             map (\<lambda>y. (y, warning_of (api y))) (filter (\<lambda>y. year_data_of (api y) = None) ?ys)
         \<and> fold_err (process_year C api)
             (filter (\<lambda>y. year_data_of (api y) \<noteq> None) ?ys) g_initial = Inr st2
         \<and> g_warnings st2 = []
         \<and> g_total_commits st = g_total_commits st2
         \<and> g_language_stats st = g_language_stats st2
         \<and> g_contributions_data st = g_contributions_data st2
         \<and> g_main (Some tok) (get_user_data_multi_year C user_response api cy yb) (\<lambda>d. Inr ())
             = (if tok = [] then 1 else 0)"
    using g r m by (auto simp: g_initial_def intro!: exI [of _ s'] exI [of _ t'])
qed

section \<open>Totals, percentages and failed years on concrete runs\<close>

lemmas ex_defs2 = ok_response_def failed_response_def g_ex_year_def g_ex_api_def
  ex_prev_user_def ex_prev_api_def ex_commit_stats_def

lemmas year_eval =
  get_user_data_multi_year_def process_year_def g_initial_def warn_def

lemmas fetch_eval =
  prev_collect_def get_basic_user_stats_def get_user_contributions_range_def process_range_def
  merge_repo_def make_graphql_request_def aggregated_initial_def zero_line_stats_def
  generate_year_ranges.simps year_end_of_def year_start_of_def secs_in_year_def is_leap_def
  prev_main_def

text \<open>
  The claim as stated fails in generator.py: a year that reports 5 commits in total and
  lists one repository with 3 commits gives a run-level total of 5, not 3.
\<close>

theorem run_total_counterexample:
  "map_sum id (\<lambda>r. g_total_commits (snd r))
     (get_user_data_multi_year Map.empty (ok_response ''u'')
        (\<lambda>y. g_ex_year 5 [(g_ex_repo None [], 3)]) 2024 1) = Inr 5
   \<and> sum_list (map snd [(g_ex_repo None [], 3 :: int)]) = 3"
  by (simp add: ex_defs ex_defs2 year_eval g_eval)

text \<open>
  The claim as stated fails in generator.py: one year with 3 commits, all in a repository
  with bytes A 1 and B 1, gives a run-level total of 3 and counters A 1 and B 1
  (\<^verbatim>\<open>int(1.5) = 1\<close>); the reported percentage of A is 1 / 2 \<open>\<times>\<close> 100 = 50, not
  1 / 3 \<open>\<times>\<close> 100.
\<close>

theorem percentage_denominator_counterexample:
  "map_sum id (\<lambda>r. (g_total_commits (snd r), g_language_stats (snd r)))
     (get_user_data_multi_year Map.empty (ok_response ''u'')
        (\<lambda>y. g_ex_year 3 [(g_ex_repo None [(''A'', 1), (''B'', 1)], 3)]) 2024 1)
     = Inr (3, [(''A'', \<lparr>commits = 1, additions = 0, deletions = 0, g_color = ''#000000''\<rparr>),
                (''B'', \<lparr>commits = 1, additions = 0, deletions = 0, g_color = ''#000000''\<rparr>)])
   \<and> map_sum id (map (\<lambda>x. (fst x, percentage (snd x))))
       (calculate_language_percentages
          [(''A'', \<lparr>commits = 1, additions = 0, deletions = 0, g_color = ''#000000''\<rparr>),
           (''B'', \<lparr>commits = 1, additions = 0, deletions = 0, g_color = ''#000000''\<rparr>)])
     = Inr [(''A'', 50), (''B'', 50)]
   \<and> (50 :: rat) \<noteq> 1 / 3 * 100"
  by (simp add: ex_defs ex_defs2 year_eval g_eval calculate_language_percentages_def
      sorted_reverse_def)

text \<open>
  The claim as stated fails where a failed year leaves the loop as an exception. In
  generator\_prev.py \<^verbatim>\<open>_make_graphql_request\<close> raises on a status other than 200 and
  nothing between it and \<^verbatim>\<open>main\<close> catches: with three year slices of which the middle
  one is answered with status 500, the run ends with exit code 1. In generator.py an
  exception raised by the request of the middle year is not caught either.
\<close>

theorem year_failure_aborts_counterexample:
  "prev_collect ex_opts Map.empty False ex_commit_stats (ok_response ''u'')
       (ex_prev_api (failed_response 500)) (2022, 0) (2024, 100)
     = Inl (QueryFailed 500)
   \<and> prev_main (Some ''token'')
       (prev_collect ex_opts Map.empty False ex_commit_stats (ok_response ''u'')
          (ex_prev_api (failed_response 500)) (2022, 0) (2024, 100))
       (\<lambda>d. Inr ()) = 1
   \<and> get_user_data_multi_year Map.empty (ok_response ''u'') (g_ex_api Raised) 2024 3
     = Inl RequestRaised
   \<and> g_main (Some ''token'')
       (get_user_data_multi_year Map.empty (ok_response ''u'') (g_ex_api Raised) 2024 3)
       (\<lambda>d. Inr ()) = 1"
proof -
  have up: "[2022 .. 2024] = [2022, 2023, 2024 :: int]" by (simp add: upto_rec1)
  have a: "prev_collect ex_opts Map.empty False ex_commit_stats (ok_response ''u'')
       (ex_prev_api (failed_response 500)) (2022, 0) (2024, 100)
     = Inl (QueryFailed 500)"
    by (simp add: ex_defs ex_defs2 fetch_eval dd_upd_def Let_def)
  have b: "get_user_data_multi_year Map.empty (ok_response ''u'') (g_ex_api Raised) 2024 3
     = Inl RequestRaised"
    by (simp add: ex_defs2 year_eval up)
  show ?thesis by (simp add: a b prev_main_def g_main_def)
qed

lemma prev_all_years_answered:
  "prev_main (Some ''token'')
     (prev_collect ex_opts Map.empty False ex_commit_stats (ok_response ''u'')
        (ex_prev_api (ok_response (ex_prev_user []))) (2022, 0) (2024, 100))
     (\<lambda>d. Inr ()) = 0"
proof -
  obtain d where "get_user_contributions_range False ex_commit_stats
        (ex_prev_api (ok_response (ex_prev_user []))) (2022, 0) (2024, 100) = Inr d"
    and "cd_user d = Some (''u'', None)"
    by (simp add: ex_defs ex_defs2 fetch_eval dd_upd_def Let_def repo_commits_of_def)
  moreover obtain res where "analyze_languages ex_opts Map.empty d = Inr res"
    using analyze_languages_result [OF calculation(2), of ex_opts Map.empty] by blast
  ultimately show ?thesis
    by (simp add: prev_collect_def get_basic_user_stats_def make_graphql_request_def
        ok_response_def prev_main_def)
qed

text \<open>
  Three records with 10, 3 and 0 commits, the second a fork, forks excluded and a minimum
  of 1 commit: the total is 10. Three years of which the middle one fails, the others
  reporting 5 and 7 commits: the total is 12.
\<close>

theorem run_total_is_sum_of_raw_counts_witness:
  "cd_user (ex_data
      [ex_rc (ex_repo (Some ''A'') [(''A'', 60), (''B'', 40)] 100) [4, 6] None,
       ex_rc ((ex_repo (Some ''A'') [(''A'', 1)] 1)\<lparr>isFork := True\<rparr>) [3] None,
       ex_rc (ex_repo (Some ''B'') [(''B'', 1)] 1) [0] None]) = Some (''u'', None)
   \<and> (\<exists>res. analyze_languages (ex_opts\<lparr>include_forks := False\<rparr>) Map.empty
         (ex_data
            [ex_rc (ex_repo (Some ''A'') [(''A'', 60), (''B'', 40)] 100) [4, 6] None,
             ex_rc ((ex_repo (Some ''A'') [(''A'', 1)] 1)\<lparr>isFork := True\<rparr>) [3] None,
             ex_rc (ex_repo (Some ''B'') [(''B'', 1)] 1) [0] None]) = Inr res
         \<and> summary_total_commits res = 10)
   \<and> (\<exists>st. get_user_data_multi_year Map.empty (ok_response ''u'')
               (g_ex_api (failed_response 502)) 2024 3 = Inr (''u'', st)
         \<and> g_total_commits st = 12)"
proof -
  let ?data = "ex_data
      [ex_rc (ex_repo (Some ''A'') [(''A'', 60), (''B'', 40)] 100) [4, 6] None,
       ex_rc ((ex_repo (Some ''A'') [(''A'', 1)] 1)\<lparr>isFork := True\<rparr>) [3] None,
       ex_rc (ex_repo (Some ''B'') [(''B'', 1)] 1) [0] None]"
  have h: "cd_user ?data = Some (''u'', None)" by (simp add: ex_data_def)
  have up: "[2022 .. 2024] = [2022, 2023, 2024 :: int]" by (simp add: upto_rec1)
  note t = run_total_is_sum_of_raw_counts [OF h, of "ex_opts\<lparr>include_forks := False\<rparr>" Map.empty
      Map.empty "ok_response ''u''" "g_ex_api (failed_response 502)" 2024 3]
  obtain st where g: "get_user_data_multi_year Map.empty (ok_response ''u'')
               (g_ex_api (failed_response 502)) 2024 3 = Inr (''u'', st)"
    by (simp add: ex_defs2 year_eval up)
  have "g_total_commits st = 12"
    using t g
    by (simp add: up year_commits_of_def year_data_of_def payload_of_def ex_defs2 get0_def)
  moreover from t obtain res where "analyze_languages (ex_opts\<lparr>include_forks := False\<rparr>) Map.empty ?data = Inr res"
    and "summary_total_commits res =
               sum_list (map repo_commits_of
                 (filter (survives (ex_opts\<lparr>include_forks := False\<rparr>))
                    (commitContributionsByRepository ?data)))"
    by blast
  moreover have "sum_list (map repo_commits_of
                 (filter (survives (ex_opts\<lparr>include_forks := False\<rparr>))
                    (commitContributionsByRepository ?data))) = 10"
    by (simp add: ex_data_def ex_defs survives_def repo_commits_of_def)
  ultimately show ?thesis using h g by auto
qed

text \<open>
  A record with bytes B 50 and A 50 and 10 commits: both languages have 5 weighted commits
  and 50 percent, and B, accumulated first, stays first. Counters A 1 and B 3 give 25 and
  75 percent, B first.
\<close>

theorem percentages_from_weighted_commits_witness:
  "cd_user (ex_data [ex_rc (ex_repo None [(''B'', 50), (''A'', 50)] 100) [4, 6] None])
     = Some (''u'', None)
   \<and> (\<exists>res. analyze_languages ex_opts Map.empty
         (ex_data [ex_rc (ex_repo None [(''B'', 50), (''A'', 50)] 100) [4, 6] None]) = Inr res
         \<and> summary_total_commits res = 10
         \<and> map (\<lambda>x. (fst x, f_weighted_commits (snd x), weighted_percentage (snd x))) (languages res)
             = [(''B'', 5, 50), (''A'', 5, 50)])
   \<and> commits_sum
        [(''A'', \<lparr>commits = 1, additions = 0, deletions = 0, g_color = ''#000000''\<rparr>),
         (''B'', \<lparr>commits = 3, additions = 0, deletions = 0, g_color = ''#000000''\<rparr>)] = 4
   \<and> (\<exists>ps. calculate_language_percentages
         [(''A'', \<lparr>commits = 1, additions = 0, deletions = 0, g_color = ''#000000''\<rparr>),
          (''B'', \<lparr>commits = 3, additions = 0, deletions = 0, g_color = ''#000000''\<rparr>)] = Inr ps
         \<and> map (\<lambda>x. (fst x, percentage (snd x))) ps = [(''B'', 75), (''A'', 25)])"
proof -
  let ?data = "ex_data [ex_rc (ex_repo None [(''B'', 50), (''A'', 50)] 100) [4, 6] None]"
  let ?stats = "[(''A'', \<lparr>commits = 1, additions = 0, deletions = 0, g_color = ''#000000''\<rparr>),
         (''B'', \<lparr>commits = 3, additions = 0, deletions = 0, g_color = ''#000000''\<rparr>)]"
  have h: "cd_user ?data = Some (''u'', None)" by (simp add: ex_data_def)
  note t = percentages_from_weighted_commits [OF h, of ex_opts Map.empty ?stats]
  have a: "\<exists>res. analyze_languages ex_opts Map.empty ?data = Inr res
         \<and> summary_total_commits res = 10
         \<and> map (\<lambda>x. (fst x, f_weighted_commits (snd x), weighted_percentage (snd x))) (languages res)
             = [(''B'', 5, 50), (''A'', 5, 50)]"
    using t
    by (simp add: ex_data_def ex_defs analyze_languages_def accumulate_def prev_eval
        final_stats_of_def final_stat_of_def percentage_of_def sorted_reverse_def)
  have b: "commits_sum ?stats = 4" by (simp add: commits_sum_def)
  have c: "\<exists>ps. calculate_language_percentages ?stats = Inr ps
         \<and> map (\<lambda>x. (fst x, percentage (snd x))) ps = [(''B'', 75), (''A'', 25)]"
    using t
    by (simp add: calculate_language_percentages_def py_truediv_def sorted_reverse_def)
  show ?thesis using h a b c by blast
qed

text \<open>
  Three years, the middle one answered with status 502: one warning, for 2023, the data of
  2022 and 2024 kept, 5 + 7 = 12 commits in total, exit code 0; a user query answered with
  status 401 gives exit code 1.
\<close>

theorem year_failures_skipped_witness:
  "payload_of (ok_response ''u'') = Some ''u''
   \<and> \<not> raises (g_ex_api (failed_response 502) 2022)
   \<and> \<not> raises (g_ex_api (failed_response 502) 2023)
   \<and> \<not> raises (g_ex_api (failed_response 502) 2024)
   \<and> (\<exists>st. get_user_data_multi_year Map.empty (ok_response ''u'')
               (g_ex_api (failed_response 502)) 2024 3 = Inr (''u'', st)
         \<and> g_warnings st = [(2023, FailedToFetch 502)]
         \<and> map fst (g_contributions_data st) = [2022, 2024]
         \<and> g_total_commits st = 12)
   \<and> g_main (Some ''token'')
       (get_user_data_multi_year Map.empty (ok_response ''u'')
          (g_ex_api (failed_response 502)) 2024 3) (\<lambda>d. Inr ()) = 0
   \<and> payload_of (failed_response 401 :: string http_result) = None
   \<and> g_main (Some ''token'')
       (get_user_data_multi_year Map.empty (failed_response 401 :: string http_result)
          (g_ex_api (failed_response 502)) 2024 3) (\<lambda>d. Inr ()) = 1"
proof -
  let ?api = "g_ex_api (failed_response 502)"
  have up: "[2022 .. 2024] = [2022, 2023, 2024 :: int]" by (simp add: upto_rec1)
  have p: "payload_of (ok_response ''u'') = Some ''u''"
    by (simp add: payload_of_def ok_response_def)
  have q: "payload_of (failed_response 401 :: string http_result) = None"
    by (simp add: payload_of_def failed_response_def)
  have r: "\<not> raises (?api 2022)" "\<not> raises (?api 2023)" "\<not> raises (?api 2024)"
    by (simp_all add: raises_def ex_defs2)
  have yd: "year_data_of (?api 2022) \<noteq> None" "year_data_of (?api 2023) = None"
    "year_data_of (?api 2024) \<noteq> None"
    by (simp_all add: year_data_of_def payload_of_def ex_defs2)
  note t1 = year_failures_skipped [of "ok_response ''u''" Map.empty ?api 2024 3 "Some ''token''"
      "\<lambda>d. Inr ()" "''u''" "''token''", THEN conjunct2, rule_format]
  note t2 = year_failures_skipped [of "failed_response 401 :: string http_result" Map.empty ?api
      2024 3 "Some ''token''" "\<lambda>d. Inr ()" "''u''" "''token''", THEN conjunct1, rule_format, OF q]
  have "payload_of (ok_response ''u'') = Some ''u'' \<and> (\<forall>y \<in> set [2024 - 3 + 1 .. 2024]. \<not> raises (?api y))"
    using p r by (simp add: up)
  from t1 [OF this] obtain st st2 where
    g: "get_user_data_multi_year Map.empty (ok_response ''u'') ?api 2024 3 = Inr (''u'', st)"
    and w: "g_warnings st =
             map (\<lambda>y. (y, warning_of (?api y)))
               (filter (\<lambda>y. year_data_of (?api y) = None) [2024 - 3 + 1 .. 2024])"
    and f: "fold_err (process_year Map.empty ?api)
             (filter (\<lambda>y. year_data_of (?api y) \<noteq> None) [2024 - 3 + 1 .. 2024]) g_initial = Inr st2"
    and e: "g_total_commits st = g_total_commits st2"
      "g_contributions_data st = g_contributions_data st2"
    and m: "g_main (Some ''token'') (get_user_data_multi_year Map.empty (ok_response ''u'') ?api 2024 3)
              (\<lambda>d. Inr ()) = (if ''token'' = [] then 1 else 0)"
    by blast
  have w': "g_warnings st = [(2023, FailedToFetch 502)]"
    using w yd by (simp add: up warning_of_def ex_defs2)
  have "fold_err (process_year Map.empty ?api) [2022, 2024] g_initial = Inr st2"
    using f yd by (simp add: up)
  then have st2: "g_total_commits st2 = 12" "map fst (g_contributions_data st2) = [2022, 2024]"
    by (auto simp: ex_defs2 year_eval get0_def)
  have m': "g_main (Some ''token'') (get_user_data_multi_year Map.empty (ok_response ''u'') ?api 2024 3)
              (\<lambda>d. Inr ()) = 0"
    using m by simp
  show ?thesis using p q r g w' e st2 m' t2 by auto
qed

end
